theory Spec2Isabelle
  imports Main "HOL-Library.AList"
begin

section \<open>Go values shared by the two packages\<close>

subsection \<open>Error values\<close>

text \<open>
  A Go \<^verbatim>\<open>error\<close> is an interface value: either \<^verbatim>\<open>nil\<close> or a value of some
  concrete (dynamic) type that has the method \<^verbatim>\<open>Error() string\<close>. The dynamic types
  that occur in the two packages are
  \<^item> a leaf error whose text is all that is known of it (\<^verbatim>\<open>errors.New\<close>, or whatever a
    collaborator returns),
  \<^item> \<^verbatim>\<open>*fmt.wrapError\<close>, built by \<^verbatim>\<open>fmt.Errorf\<close> with the verb \<^verbatim>\<open>%w\<close>: the text
    before the verb and the wrapped error,
  \<^item> \<^verbatim>\<open>storageRecoverableExceptionError\<close> of package storage, a struct that embeds an
    \<^verbatim>\<open>error\<close> (which may itself be \<^verbatim>\<open>nil\<close>).
  An interface value of type \<^verbatim>\<open>error\<close> is \<open>go_error option\<close>, \<open>None\<close> being \<^verbatim>\<open>nil\<close>.
\<close>

datatype go_error =
    errorString string
  | wrapError string go_error
  | storageRecoverableExceptionError "go_error option"

type_synonym error = "go_error option"

text \<open>
  The method \<^verbatim>\<open>Error()\<close>; the result \<open>None\<close> is a run-time panic. The struct of package
  storage promotes the method of its embedded error, and calling a method through a
  \<^verbatim>\<open>nil\<close> interface value panics with the run-time error below. A method of package
  \<^verbatim>\<open>fmt\<close> that formats an error operand under \<^verbatim>\<open>%s\<close>, \<^verbatim>\<open>%v\<close> or (in \<^verbatim>\<open>Errorf\<close>)
  \<^verbatim>\<open>%w\<close> calls \<^verbatim>\<open>Error()\<close>, recovers from a panic of the method and prints a note in
  its place; under \<^verbatim>\<open>%w\<close> the note names the verb \<^verbatim>\<open>v\<close>. \<^verbatim>\<open>fmt.Errorf\<close> formats the
  text of a \<^verbatim>\<open>*fmt.wrapError\<close> when it makes the value, so that its \<^verbatim>\<open>Error()\<close> does not
  panic.
\<close>

definition nilDereference :: string where
  "nilDereference = ''runtime error: invalid memory address or nil pointer dereference''"

definition panicNote :: "string \<Rightarrow> string" where
  "panicNote verb = ''%!'' @ verb @ ''(PANIC=Error method: '' @ nilDereference @ '')''"

fun Error :: "go_error \<Rightarrow> string option" where
  "Error (errorString s) = Some s"
| "Error (wrapError prefix err) =
     Some (prefix @ (case Error err of Some text \<Rightarrow> text | None \<Rightarrow> panicNote ''v''))"
| "Error (storageRecoverableExceptionError None) = None"
| "Error (storageRecoverableExceptionError (Some err)) = Error err"

text \<open>The text that \<^verbatim>\<open>fmt.Sprintf\<close> puts for an error operand other than \<^verbatim>\<open>nil\<close> under
  the given verb.\<close>

definition formatError :: "string \<Rightarrow> go_error \<Rightarrow> string" where
  "formatError verb err = (case Error err of Some text \<Rightarrow> text | None \<Rightarrow> panicNote verb)"

subsection \<open>Package storage: the recoverable-exception marker\<close>

text \<open>
  \<^verbatim>\<open>
  func NewRecoverableException(err error) error {
      return storageRecoverableExceptionError{err}
  }
  func IsRecoverableException(err error) bool {
      _, ok := err.(storageRecoverableExceptionError)
      return ok
  }
  \<close>
  The type assertion to a concrete type succeeds exactly when the interface value is not
  \<^verbatim>\<open>nil\<close> and its dynamic type is that type; it does not look through wrappers.
\<close>

definition NewRecoverableException :: "error \<Rightarrow> error" where
  "NewRecoverableException err = Some (storageRecoverableExceptionError err)"

fun IsRecoverableException :: "error \<Rightarrow> bool" where
  "IsRecoverableException None = False"
| "IsRecoverableException (Some (errorString s)) = False"
| "IsRecoverableException (Some (wrapError prefix err)) = False"
| "IsRecoverableException (Some (storageRecoverableExceptionError err)) = True"

section \<open>Data of package clustersynchro\<close>

subsection \<open>Identifiers, watermarks, conditions\<close>

text \<open>\<^verbatim>\<open>schema.GroupVersionResource\<close>: a struct of three strings, compared by value.\<close>

record GroupVersionResource =
  Group :: string
  Version :: string
  Resource :: string

text \<open>
  \<^verbatim>\<open>storage.ClusterResourceVersions\<close>: two Go maps from object UID to an opaque watermark.
  A Go map value may be \<^verbatim>\<open>nil\<close>, which is \<open>None\<close> here; a map made with \<^verbatim>\<open>make\<close>
  is \<open>Some []\<close>. The maps are handed to the reconciler by reference, which writes
  watermarks into them; nothing below reads their contents.
\<close>

record ClusterResourceVersions =
  Resources :: "(string \<times> string) list option"
  Events :: "(string \<times> string) list option"

text \<open>\<^verbatim>\<open>metav1.Condition\<close>; a time is a number of seconds.\<close>

record Condition =
  Condition_Type :: string
  Condition_Status :: string
  Condition_Reason :: string
  Condition_Message :: string
  Condition_LastTransitionTime :: nat

text \<open>
  The constants of the API package \<^verbatim>\<open>clusterv1alpha2\<close> and of \<^verbatim>\<open>metav1\<close> that the
  file names. Their declarations are not part of the sources at hand; each stands for its
  own text, and nothing below depends on the texts beyond their being pairwise different
  and non-empty.
\<close>

definition SynchroRunningCondition :: string where "SynchroRunningCondition = ''SynchroRunning''"
definition ClusterHealthyCondition :: string where "ClusterHealthyCondition = ''ClusterHealthy''"
definition ConditionTrue :: string where "ConditionTrue = ''True''"
definition ConditionFalse :: string where "ConditionFalse = ''False''"
definition ConditionUnknown :: string where "ConditionUnknown = ''Unknown''"
definition SynchroPendingReason :: string where "SynchroPendingReason = ''SynchroPending''"
definition SynchroRunningReason :: string where "SynchroRunningReason = ''SynchroRunning''"
definition SynchroShutdownReason :: string where "SynchroShutdownReason = ''SynchroShutdown''"
definition ClusterMonitorStopReason :: string where "ClusterMonitorStopReason = ''MonitorStop''"
definition ResourceSyncStatusPending :: string where "ResourceSyncStatusPending = ''Pending''"
definition ResourceSyncStatusUnknown :: string where "ResourceSyncStatusUnknown = ''Unknown''"
definition ResourceSyncStatusSyncing :: string where "ResourceSyncStatusSyncing = ''Syncing''"
definition ResourceSyncStatusStop :: string where "ResourceSyncStatusStop = ''Stop''"

text \<open>
  \<^verbatim>\<open>clusterv1alpha2.ClusterResourceSyncCondition\<close>, one per (group, resource, version).
  Its declaration is not among the sources; the fields are those the file reads and
  writes. The method \<^verbatim>\<open>StorageGVR(gr)\<close> is read off a field: the data model of the
  specification says that a sync condition carries its storage GVR.
\<close>

record ClusterResourceSyncCondition =
  sc_Version :: string
  sc_SyncVersion :: string
  sc_SyncResource :: string
  sc_StorageGVR :: GroupVersionResource
  sc_Status :: string
  sc_Reason :: string
  sc_Message :: string
  sc_InitialListPhase :: string
  sc_LastTransitionTime :: nat

record ClusterResourceStatus =
  rs_Name :: string
  rs_Kind :: string
  rs_Namespaced :: bool
  rs_SyncConditions :: "ClusterResourceSyncCondition list"

record ClusterGroupResourcesStatus =
  grs_Group :: string
  grs_Resources :: "ClusterResourceStatus list"

text \<open>\<^verbatim>\<open>clusterv1alpha2.ClusterStatus\<close>. \<open>SyncResources\<close> is a slice: \<open>None\<close> is the
  \<^verbatim>\<open>nil\<close> slice of a status whose sync resources were never filled in.\<close>

record ClusterStatus =
  cs_Version :: string
  cs_Conditions :: "Condition list"
  cs_SyncResources :: "ClusterGroupResourcesStatus list option"

subsection \<open>Group/resource status\<close>

text \<open>
  Modelled from the spec: the type \<^verbatim>\<open>GroupResourceStatus\<close> and its methods
  \<^verbatim>\<open>Merge\<close>, \<^verbatim>\<open>GetStorageGVRToSyncGVRs\<close>, \<^verbatim>\<open>UpdateSyncCondition\<close> and
  \<^verbatim>\<open>DeleteVersion\<close> live in a file of the package that is not among the sources. The
  specification describes the status as the per-(group, resource, version) sync
  conditions; here it is the list of sync GVRs with their conditions, at most one per
  sync GVR.
\<close>

type_synonym GroupResourceStatus = "(GroupVersionResource \<times> ClusterResourceSyncCondition) list"

text \<open>Modelled from the spec: \<^verbatim>\<open>UpdateSyncCondition(gvr, status, reason, message)\<close>
  writes the three texts into the condition of \<open>gvr\<close>; a GVR the status does not carry is
  left alone.\<close>

definition UpdateSyncCondition ::
  "GroupVersionResource \<Rightarrow> string \<Rightarrow> string \<Rightarrow> string \<Rightarrow> GroupResourceStatus \<Rightarrow> GroupResourceStatus" where
  "UpdateSyncCondition gvr status reason message grs =
     map (\<lambda>(k, cond). if k = gvr
            then (k, cond\<lparr>sc_Status := status, sc_Reason := reason, sc_Message := message\<rparr>)
            else (k, cond)) grs"

text \<open>Modelled from the spec: \<^verbatim>\<open>DeleteVersion(gvr)\<close> drops the condition of \<open>gvr\<close>.\<close>

definition DeleteVersion :: "GroupVersionResource \<Rightarrow> GroupResourceStatus \<Rightarrow> GroupResourceStatus" where
  "DeleteVersion gvr grs = AList.delete gvr grs"

text \<open>Modelled from the spec: \<^verbatim>\<open>GetStorageGVRToSyncGVRs()\<close> groups the sync GVRs by the
  storage GVR of their condition ("if multiple sync GVRs collapse to the same storage
  GVR, record all ... for fan-out of status updates"). The Go value is a map from storage
  GVR to a set; indexing it with a storage GVR that has no sync GVR gives the empty set,
  which is the empty list here.\<close>

definition GetStorageGVRToSyncGVRs ::
  "GroupResourceStatus \<Rightarrow> GroupVersionResource \<Rightarrow> GroupVersionResource list" where
  "GetStorageGVRToSyncGVRs grs storageGVR =
     map fst (filter (\<lambda>(k, cond). sc_StorageGVR cond = storageGVR) grs)"

text \<open>Modelled from the spec: \<^verbatim>\<open>Merge(previous)\<close> returns the triples "present in
  previous and absent from this". The refresh deletes exactly these from the new status at
  its end, and says of a triple whose clean-up failed that it is "not deleted"; so the
  merged status carries them, with the condition they had. A triple present in both
  keeps its historical timestamp. A \<^verbatim>\<open>nil\<close> previous status changes nothing and gives
  the \<^verbatim>\<open>nil\<close> set.\<close>

definition Merge ::
  "GroupResourceStatus \<Rightarrow> GroupResourceStatus option \<Rightarrow> GroupResourceStatus \<times> GroupVersionResource list" where
  "Merge this previous =
     (case previous of
        None \<Rightarrow> (this, [])
      | Some lastStatus \<Rightarrow>
          (let carried = filter (\<lambda>(k, cond). map_of this k = None) lastStatus;
               kept = map (\<lambda>(k, cond). case map_of lastStatus k of
                              None \<Rightarrow> (k, cond)
                            | Some old \<Rightarrow> (k, cond\<lparr>sc_LastTransitionTime := sc_LastTransitionTime old\<rparr>)) this
           in (kept @ carried, map fst carried)))"

subsection \<open>Channels and blocking\<close>

text \<open>
  A channel of \<^verbatim>\<open>struct{}\<close> carries no data: its state is its capacity, the number of
  buffered elements and whether it is closed. An operation either returns, panics or
  blocks (no other goroutine is taken to stand ready at the other end of the channel).
\<close>

record chan =
  chan_cap :: nat
  chan_len :: nat
  chan_closed :: bool

datatype 'a outcome = Return 'a | Panic string | Block

definition make_chan :: "nat \<Rightarrow> chan" where
  "make_chan n = \<lparr>chan_cap = n, chan_len = 0, chan_closed = False\<rparr>"

definition chan_send :: "chan \<Rightarrow> chan outcome" where
  "chan_send ch =
     (if chan_closed ch then Panic ''send on closed channel''
      else if chan_len ch < chan_cap ch then Return (ch\<lparr>chan_len := chan_len ch + 1\<rparr>)
      else Block)"

text \<open>A receive yields the flag \<^verbatim>\<open>ok\<close>: false when the channel is closed and drained.\<close>

definition chan_recv :: "chan \<Rightarrow> (chan \<times> bool) outcome" where
  "chan_recv ch =
     (if 0 < chan_len ch then Return (ch\<lparr>chan_len := chan_len ch - 1\<rparr>, True)
      else if chan_closed ch then Return (ch, False)
      else Block)"

definition chan_close :: "chan \<Rightarrow> chan outcome" where
  "chan_close ch =
     (if chan_closed ch then Panic ''close of closed channel''
      else Return (ch\<lparr>chan_closed := True\<rparr>))"

definition bind_outcome :: "'a outcome \<Rightarrow> ('a \<Rightarrow> 'b outcome) \<Rightarrow> 'b outcome" where
  "bind_outcome m f = (case m of Return x \<Rightarrow> f x | Panic msg \<Rightarrow> Panic msg | Block \<Rightarrow> Block)"

subsection \<open>Collaborators\<close>

text \<open>\<^verbatim>\<open>rest.Config\<close>, as far as the constructor touches it: the dialer it may install
  (timeout and keep-alive in seconds).\<close>

record rest_Config =
  Host :: string
  Dial :: "(nat \<times> nat) option"

record ClusterSyncConfig =
  MetricsStoreBuilder :: "string option"
  PageSizeForResourceSync :: int

text \<open>\<^verbatim>\<open>clusterv1alpha2.ClusterGroupResources\<close>, the desired resources; the file only
  stores it and passes it to the negotiator.\<close>

record ClusterGroupResources =
  cgr_Group :: string
  cgr_Versions :: "string list"
  cgr_Resources :: "string list"

text \<open>The per-resource entry of a negotiated plan (\<^verbatim>\<open>storageResourceSyncConfigs\<close>); its
  declaration is in the negotiator's file, the fields are those the refresh reads.\<close>

record ResourceSyncConfig =
  kind :: string
  syncResource :: GroupVersionResource
  syncEvents :: bool
  convertor :: string
  resourceStorageConfig :: string

record EventConfig =
  ev_ListerWatcher :: string
  ev_ResourceVersions :: "(string \<times> string) list option"

text \<open>\<^verbatim>\<open>resourcesynchro.Config\<close>, as the refresh fills it in.\<close>

record Config =
  cfg_GroupVersionResource :: GroupVersionResource
  cfg_Kind :: string
  cfg_ListerWatcher :: string
  cfg_ObjectConvertor :: string
  cfg_MetricsStore :: "string option"
  cfg_ResourceVersions :: "(string \<times> string) list option"
  cfg_PageSizeForInformer :: int
  cfg_ResourceStorage :: string
  cfg_Event :: "EventConfig option"

text \<open>A reconciler (\<^verbatim>\<open>resourcesynchro.Synchro\<close>) is known by the cluster and the
  configuration it was made for.\<close>

record Synchro =
  synchro_cluster :: string
  synchro_Config :: Config

datatype SynchroFactory = StorageSynchroFactory | DefaultResourceSynchroFactory

text \<open>
  Everything the file calls and does not define: the discovery manager, the storage
  factory, the list/watch factory, the health checker, the cluster client, the
  negotiator, the reconcilers and the clock. A call that returns \<^verbatim>\<open>(value, error)\<close>
  is a sum, \<open>Inl\<close> holding the non-\<^verbatim>\<open>nil\<close> error. \<open>CloseCompletes g\<close> says which case of
  the \<^verbatim>\<open>select\<close> on a reconciler's \<^verbatim>\<open>Close()\<close> fires first for the storage GVR \<open>g\<close>:
  the completion (true), or the closing of the lifetime signal by a concurrent shutdown.
\<close>

record collaborators =
  NewDynamicDiscoveryManager :: "string \<Rightarrow> rest_Config \<Rightarrow> go_error + string"
  GetResourceVersions :: "string \<Rightarrow> go_error + (GroupVersionResource \<times> ClusterResourceVersions) list"
  NewDynamicListerWatcherFactory :: "rest_Config \<Rightarrow> go_error + string"
  HealthCheckerWithStandaloneTCP :: bool
  newHealthChecker :: "rest_Config \<Rightarrow> go_error + string"
  NewForConfig :: "rest_Config \<Rightarrow> go_error + string"
  storageIsSynchroFactory :: bool
  NegotiateSyncResources ::
    "ClusterGroupResources list \<Rightarrow> GroupResourceStatus \<times> (GroupVersionResource \<times> ResourceSyncConfig) list"
  NewResourceStorage :: "string \<Rightarrow> go_error + string"
  GetMetricStore :: "string \<Rightarrow> string \<Rightarrow> GroupVersionResource \<Rightarrow> string"
  ForResource :: "string \<Rightarrow> GroupVersionResource \<Rightarrow> string"
  NewResourceSynchro :: "SynchroFactory \<Rightarrow> string \<Rightarrow> Config \<Rightarrow> go_error + Synchro"
  CloseCompletes :: "GroupVersionResource \<Rightarrow> bool"
  CleanClusterResource :: "string \<Rightarrow> GroupVersionResource \<Rightarrow> error"
  ServerVersion :: "string \<Rightarrow> string"
  LoadGroupResourcesStatuses :: "GroupResourceStatus \<Rightarrow> ClusterGroupResourcesStatus list"
  SynchroGroupVersionResource :: "Synchro \<Rightarrow> GroupVersionResource"
  SynchroStatus :: "Synchro \<Rightarrow> ClusterResourceSyncCondition"
  Now :: nat

subsection \<open>The cluster synchro\<close>

text \<open>
  The calls the synchro makes on its collaborators and the operations on its channels
  and wait group, in the order in which they happen. An event of the refresh carries the
  storage GVR of the loop iteration that makes the call, then the arguments.
\<close>

datatype event =
    EvRegisterResourceSynchroMetrics
  | EvNewResourceStorage GroupVersionResource string
  | EvNewResourceSynchro GroupVersionResource Config
  | EvSynchroRun GroupVersionResource
  | EvSynchroStart GroupVersionResource
  | EvSynchroClose GroupVersionResource
  | EvSynchroClosed GroupVersionResource
  | EvUpdateSyncCondition GroupVersionResource string string string
  | EvDeleteVersion GroupVersionResource
  | EvCleanClusterResource string GroupVersionResource
  | EvUpdateClusterStatus string ClusterStatus
  | EvCloseCloser
  | EvWaitGroupWait
  | EvCloseUpdateStatusCh
  | EvCloseClosed

text \<open>
  The struct \<^verbatim>\<open>ClusterSynchro\<close>. \<open>closeOnce\<close> is true once the \<^verbatim>\<open>sync.Once\<close> has run;
  \<open>waitGroup\<close> counts the workers started and not yet returned; \<open>handlerStopCh\<close> is a
  channel or \<^verbatim>\<open>nil\<close>; the two registries are Go maps, here lists of key and value in
  some iteration order; an \<^verbatim>\<open>atomic.Value\<close> is the value it holds. Three fields are
  not fields of the struct: \<open>statusUpdaters\<close>, the number of goroutines that calls of
  \<^verbatim>\<open>Run\<close> have started to consume \<open>updateStatusCh\<close> and that have not exited (each call
  of \<^verbatim>\<open>Run\<close> starts one); \<open>panicked\<close>, the run-time panic with which a refresh has ended,
  if one has (no function of the file recovers from a panic, so the process ends with
  it); and \<open>trace\<close>, the events so far.
\<close>

record ClusterSynchro =
  name :: string
  RESTConfig :: rest_Config
  resourceSynchroFactory :: SynchroFactory
  syncConfig :: ClusterSyncConfig
  healthChecker :: string
  dynamicDiscovery :: string
  listerWatcherFactory :: string
  eventsListerWatcher :: string
  closeOnce :: bool
  closer :: chan
  closed :: chan
  updateStatusCh :: chan
  startRunnerCh :: chan
  stopRunnerCh :: chan
  waitGroup :: nat
  handlerStopCh :: "chan option"
  storageResourceVersions :: "(GroupVersionResource \<times> ClusterResourceVersions) list"
  storageResourceSynchros :: "(GroupVersionResource \<times> Synchro) list"
  syncResources :: "ClusterGroupResources list option"
  setSyncResourcesCh :: chan
  syncAllCustomResources :: bool
  groupResourceStatus :: "GroupResourceStatus option"
  runningCondition :: Condition
  healthyCondition :: Condition
  statusUpdaters :: nat
  panicked :: "string option"
  trace :: "event list"

definition emit :: "event list \<Rightarrow> ClusterSynchro \<Rightarrow> ClusterSynchro" where
  "emit evs s = s\<lparr>trace := trace s @ evs\<rparr>"

section \<open>Construction\<close>

text \<open>
  \<^verbatim>\<open>type RetryableError error\<close> defines an interface type with the method set of
  \<^verbatim>\<open>error\<close>. The conversion \<^verbatim>\<open>RetryableError(x)\<close> of an interface value changes the
  static type of the expression only: the value returned through the result type
  \<^verbatim>\<open>error\<close> has the dynamic type and value of \<open>x\<close>.
\<close>

definition RetryableError :: "go_error \<Rightarrow> go_error" where
  "RetryableError err = err"

text \<open>
  The only test Go has for the marker is the type assertion \<^verbatim>\<open>err.(RetryableError)\<close>
  (or a type switch, or \<^verbatim>\<open>errors.As\<close>, which decide alike). For an interface type the
  assertion holds when the value is not \<^verbatim>\<open>nil\<close> and its dynamic type has the methods of
  the interface, here \<^verbatim>\<open>Error() string\<close>.
\<close>

fun hasErrorMethod :: "go_error \<Rightarrow> bool" where
  "hasErrorMethod (errorString s) = True"
| "hasErrorMethod (wrapError prefix err) = True"
| "hasErrorMethod (storageRecoverableExceptionError err) = True"

definition isRetryableError :: "error \<Rightarrow> bool" where
  "isRetryableError err = (case err of None \<Rightarrow> False | Some e \<Rightarrow> hasErrorMethod e)"

text \<open>
  \<^verbatim>\<open>
  func (s *ClusterSynchro) initWithResourceVersions(resourceversions map[...]...) {
      if len(resourceversions) == 0 { return }
      for gvr, rvs := range resourceversions {
          if rvs.Resources == nil { rvs.Resources = make(map[string]interface{}) }
          if rvs.Events == nil { rvs.Events = make(map[string]interface{}) }
          s.storageResourceVersions[gvr] = rvs
      }
  }
  \<close>
\<close>

definition initResourceVersions :: "ClusterResourceVersions \<Rightarrow> ClusterResourceVersions" where
  "initResourceVersions rvs =
     (let rvs1 = (if Resources rvs = None then rvs\<lparr>Resources := Some []\<rparr> else rvs)
      in if Events rvs1 = None then rvs1\<lparr>Events := Some []\<rparr> else rvs1)"

definition initWithResourceVersions ::
  "(GroupVersionResource \<times> ClusterResourceVersions) list \<Rightarrow> ClusterSynchro \<Rightarrow> ClusterSynchro" where
  "initWithResourceVersions resourceversions s =
     (if length resourceversions = 0 then s
      else s\<lparr>storageResourceVersions :=
                fold (\<lambda>(gvr, rvs) m. AList.update gvr (initResourceVersions rvs) m)
                  resourceversions (storageResourceVersions s)\<rparr>)"

text \<open>The constructor \<^verbatim>\<open>New\<close>: five fallible steps in the order of the source, then the
  struct literal, the choice of the reconciler factory, the initial values of the atomic
  fields and the watermarks loaded from storage.\<close>

definition New :: "collaborators \<Rightarrow> string \<Rightarrow> rest_Config \<Rightarrow> ClusterSyncConfig \<Rightarrow> go_error + ClusterSynchro" where
  "New env nm config syncCfg =
     (case NewDynamicDiscoveryManager env nm config of
        Inl err \<Rightarrow> Inl (RetryableError (wrapError ''failed to create dynamic discovery manager: '' err))
      | Inr discovery \<Rightarrow>
     (case GetResourceVersions env nm of
        Inl err \<Rightarrow> Inl (RetryableError (wrapError ''failed to get resource versions from storage: '' err))
      | Inr resourceversions \<Rightarrow>
     (case NewDynamicListerWatcherFactory env config of
        Inl err \<Rightarrow> Inl (wrapError ''failed to create lister watcher factory: '' err)
      | Inr listWatchFactory \<Rightarrow>
     (case newHealthChecker env
             (if HealthCheckerWithStandaloneTCP env then config\<lparr>Dial := Some (30, 30)\<rparr> else config) of
        Inl err \<Rightarrow> Inl (wrapError ''failed to create a cluster health checker: '' err)
      | Inr checker \<Rightarrow>
     (case NewForConfig env config of
        Inl err \<Rightarrow> Inl (wrapError ''failed to create cluster client: '' err)
      | Inr client \<Rightarrow>
          Inr (initWithResourceVersions resourceversions
            \<lparr>name = nm,
             RESTConfig = config,
             resourceSynchroFactory =
               (if storageIsSynchroFactory env then StorageSynchroFactory else DefaultResourceSynchroFactory),
             syncConfig = syncCfg,
             healthChecker = checker,
             dynamicDiscovery = discovery,
             listerWatcherFactory = listWatchFactory,
             eventsListerWatcher = client,
             closeOnce = False,
             closer = make_chan 0,
             closed = make_chan 0,
             updateStatusCh = make_chan 1,
             startRunnerCh = make_chan 0,
             stopRunnerCh = make_chan 0,
             waitGroup = 0,
             handlerStopCh = None,
             storageResourceVersions = [],
             storageResourceSynchros = [],
             syncResources = None,
             setSyncResourcesCh = make_chan 1,
             syncAllCustomResources = False,
             groupResourceStatus = None,
             runningCondition =
               \<lparr>Condition_Type = SynchroRunningCondition, Condition_Status = ConditionFalse,
                Condition_Reason = SynchroPendingReason,
                Condition_Message = ''cluster synchro is created, wait running'',
                Condition_LastTransitionTime = Now env\<rparr>,
             healthyCondition =
               \<lparr>Condition_Type = ClusterHealthyCondition, Condition_Status = ConditionUnknown,
                Condition_Reason = ClusterMonitorStopReason,
                Condition_Message = ''wait cluster synchro's healthy monitor running'',
                Condition_LastTransitionTime = Now env\<rparr>,
             statusUpdaters = 0,
             panicked = None,
             trace = (if storageIsSynchroFactory env then [] else [EvRegisterResourceSynchroMetrics])\<rparr>))))))"

section \<open>Refreshing the reconcilers\<close>

text \<open>
  \<^verbatim>\<open>
  updateSyncConditions := func(storageGVR schema.GroupVersionResource, status, reason, message string) {
      for gvr := range storageGVRToSyncGVRs[storageGVR] {
          groupResourceStatus.UpdateSyncCondition(gvr, status, reason, message)
      }
  }
  \<close>
  The closure updates the status object that the refresh has stored in
  \<open>groupResourceStatus\<close> before; \<open>storageGVRToSyncGVRs\<close> is computed once, after the merge.
\<close>

definition updateSyncConditions ::
  "(GroupVersionResource \<Rightarrow> GroupVersionResource list) \<Rightarrow> GroupVersionResource \<Rightarrow>
   string \<Rightarrow> string \<Rightarrow> string \<Rightarrow> ClusterSynchro \<Rightarrow> ClusterSynchro" where
  "updateSyncConditions storageGVRToSyncGVRs storageGVR status reason message s =
     fold (\<lambda>gvr s'. emit [EvUpdateSyncCondition gvr status reason message]
             (s'\<lparr>groupResourceStatus :=
                   map_option (UpdateSyncCondition gvr status reason message) (groupResourceStatus s')\<rparr>))
       (storageGVRToSyncGVRs storageGVR) s"

text \<open>Lines 385 to 392: the watermark entry of a storage GVR, made with two empty maps when
  the map has none.\<close>

definition ensureResourceVersions :: "GroupVersionResource \<Rightarrow> ClusterSynchro \<Rightarrow> ClusterResourceVersions \<times> ClusterSynchro" where
  "ensureResourceVersions storageGVR s =
     (case map_of (storageResourceVersions s) storageGVR of
        Some rvs \<Rightarrow> (rvs, s)
      | None \<Rightarrow>
          (let rvs = \<lparr>Resources = Some [], Events = Some []\<rparr>
           in (rvs, s\<lparr>storageResourceVersions := AList.update storageGVR rvs (storageResourceVersions s)\<rparr>)))"

text \<open>Lines 394 to 416: the configuration handed to the reconciler factory.\<close>

definition synchroConfig ::
  "collaborators \<Rightarrow> ClusterSynchro \<Rightarrow> ResourceSyncConfig \<Rightarrow> ClusterResourceVersions \<Rightarrow> string \<Rightarrow> Config" where
  "synchroConfig env s config rvs resourceStorage =
     \<lparr>cfg_GroupVersionResource = syncResource config,
      cfg_Kind = kind config,
      cfg_ListerWatcher = ForResource env (listerWatcherFactory s) (syncResource config),
      cfg_ObjectConvertor = convertor config,
      cfg_MetricsStore =
        (case MetricsStoreBuilder (syncConfig s) of
           None \<Rightarrow> None
         | Some builder \<Rightarrow> Some (GetMetricStore env builder (name s) (syncResource config))),
      cfg_ResourceVersions = Resources rvs,
      cfg_PageSizeForInformer = PageSizeForResourceSync (syncConfig s),
      cfg_ResourceStorage = resourceStorage,
      cfg_Event =
        (if syncEvents config
         then Some \<lparr>ev_ListerWatcher = eventsListerWatcher s, ev_ResourceVersions = Events rvs\<rparr>
         else None)\<rparr>"

text \<open>Lines 430 to 436: a reconciler made while the runner is running is started at once.
  Nothing is ever sent on \<open>handlerStopCh\<close>, so the receive is ready exactly when the
  channel is closed.\<close>

definition startIfRunning :: "GroupVersionResource \<Rightarrow> ClusterSynchro \<Rightarrow> ClusterSynchro" where
  "startIfRunning storageGVR s =
     (case handlerStopCh s of
        None \<Rightarrow> s
      | Some ch \<Rightarrow> (case chan_recv ch of Block \<Rightarrow> emit [EvSynchroStart storageGVR] s | _ \<Rightarrow> s))"

text \<open>The body of the first loop (lines 372 to 437), for one entry of the plan. The
  message of a failure is made by \<^verbatim>\<open>fmt.Sprintf\<close> with the verb \<^verbatim>\<open>%s\<close>. The calls of
  the logger, here and below, are left out: they write nothing into the synchro.\<close>

definition createSynchro ::
  "collaborators \<Rightarrow> (GroupVersionResource \<Rightarrow> GroupVersionResource list) \<Rightarrow>
   GroupVersionResource \<times> ResourceSyncConfig \<Rightarrow> ClusterSynchro \<Rightarrow> ClusterSynchro" where
  "createSynchro env storageGVRToSyncGVRs entry s =
     (case entry of (storageGVR, config) \<Rightarrow>
       (case map_of (storageResourceSynchros s) storageGVR of
          Some existing \<Rightarrow> s
        | None \<Rightarrow>
           (case NewResourceStorage env (resourceStorageConfig config) of
              Inl err \<Rightarrow>
                updateSyncConditions storageGVRToSyncGVRs storageGVR ResourceSyncStatusPending
                  ''SynchroCreateFailed'' (''new resource storage failed: '' @ formatError ''s'' err)
                  (emit [EvNewResourceStorage storageGVR (resourceStorageConfig config)] s)
            | Inr resourceStorage \<Rightarrow>
               (case ensureResourceVersions storageGVR
                       (emit [EvNewResourceStorage storageGVR (resourceStorageConfig config)] s) of
                  (rvs, s1) \<Rightarrow>
                   (case NewResourceSynchro env (resourceSynchroFactory s1) (name s1)
                           (synchroConfig env s1 config rvs resourceStorage) of
                      Inl err \<Rightarrow>
                        updateSyncConditions storageGVRToSyncGVRs storageGVR ResourceSyncStatusPending
                          ''SynchroCreateFailed'' (''new resource synchro failed: '' @ formatError ''s'' err)
                          (emit [EvNewResourceSynchro storageGVR (synchroConfig env s1 config rvs resourceStorage)] s1)
                    | Inr synchro \<Rightarrow>
                        startIfRunning storageGVR
                          (updateSyncConditions storageGVRToSyncGVRs storageGVR ResourceSyncStatusUnknown [] []
                            (emit [EvNewResourceSynchro storageGVR (synchroConfig env s1 config rvs resourceStorage),
                                   EvSynchroRun storageGVR]
                               (s1\<lparr>waitGroup := waitGroup s1 + 1,
                                    storageResourceSynchros :=
                                      AList.update storageGVR synchro (storageResourceSynchros s1)\<rparr>))))))))"

text \<open>
  The second loop (lines 449 to 460) over the storage GVRs to remove. The result says
  whether the loop ran to its end (true) or the refresh returned from inside it because
  the lifetime signal fired first (false).
\<close>

fun closeSynchros ::
  "collaborators \<Rightarrow> (GroupVersionResource \<Rightarrow> GroupVersionResource list) \<Rightarrow>
   GroupVersionResource list \<Rightarrow> ClusterSynchro \<Rightarrow> bool \<times> ClusterSynchro" where
  "closeSynchros env storageGVRToSyncGVRs [] s = (True, s)"
| "closeSynchros env storageGVRToSyncGVRs (storageGVR # rest) s =
     (case map_of (storageResourceSynchros s) storageGVR of
        None \<Rightarrow> closeSynchros env storageGVRToSyncGVRs rest s
      | Some synchro \<Rightarrow>
          if CloseCompletes env storageGVR
          then closeSynchros env storageGVRToSyncGVRs rest
                 ((updateSyncConditions storageGVRToSyncGVRs storageGVR ResourceSyncStatusStop
                     ''SynchroRemoved'' ''the resource synchro is moved''
                     (emit [EvSynchroClose storageGVR, EvSynchroClosed storageGVR] s))
                  \<lparr>storageResourceSynchros := AList.delete storageGVR (storageResourceSynchros s)\<rparr>)
          else (False, emit [EvSynchroClose storageGVR] s))"

text \<open>The body of the third loop (lines 463 to 483), for one key of the watermark map; it
  threads the set \<open>deleted\<close> along with the synchro. The argument \<^verbatim>\<open>err.Error()\<close> of line
  478 is evaluated before the call of \<open>updateSyncConditions\<close>; when it panics the
  refresh ends there, so that the iterations after a panic do nothing.\<close>

definition cleanResource ::
  "collaborators \<Rightarrow> (GroupVersionResource \<Rightarrow> GroupVersionResource list) \<Rightarrow>
   (GroupVersionResource \<times> ResourceSyncConfig) list \<Rightarrow> GroupVersionResource \<Rightarrow>
   ClusterSynchro \<times> GroupVersionResource list \<Rightarrow> ClusterSynchro \<times> GroupVersionResource list" where
  "cleanResource env storageGVRToSyncGVRs storageResourceSyncConfigs storageGVR st =
     (case st of (s, deleted) \<Rightarrow>
       (if panicked s \<noteq> None then (s, deleted)
        else case map_of storageResourceSyncConfigs storageGVR of
          Some config \<Rightarrow> (s, deleted)
        | None \<Rightarrow>
           (let s1 = emit [EvCleanClusterResource (name s) storageGVR]
                       (s\<lparr>storageResourceVersions := AList.delete storageGVR (storageResourceVersions s)\<rparr>)
            in case CleanClusterResource env (name s) storageGVR of
                 None \<Rightarrow> (s1, deleted)
               | Some err \<Rightarrow>
                   (case Error err of
                      None \<Rightarrow> (s1\<lparr>panicked := Some nilDereference\<rparr>, deleted)
                    | Some message \<Rightarrow>
                        (updateSyncConditions storageGVRToSyncGVRs storageGVR ResourceSyncStatusStop
                           ''CleanResourceFailed'' message s1,
                         fold removeAll (storageGVRToSyncGVRs storageGVR) deleted)))))"

text \<open>The last loop (lines 485 to 487), which a refresh that has panicked does not
  reach.\<close>

definition deleteVersions :: "GroupVersionResource list \<Rightarrow> ClusterSynchro \<Rightarrow> ClusterSynchro" where
  "deleteVersions deleted s =
     (if panicked s \<noteq> None then s
      else fold (\<lambda>gvr s'. emit [EvDeleteVersion gvr]
                   (s'\<lparr>groupResourceStatus := map_option (DeleteVersion gvr) (groupResourceStatus s')\<rparr>))
             deleted s)"

text \<open>Lines 441 to 448: the registry keys that the plan does not have.\<close>

definition removedStorageGVRs ::
  "(GroupVersionResource \<times> ResourceSyncConfig) list \<Rightarrow> ClusterSynchro \<Rightarrow> GroupVersionResource list" where
  "removedStorageGVRs storageResourceSyncConfigs s =
     filter (\<lambda>storageGVR. map_of storageResourceSyncConfigs storageGVR = None)
       (map fst (storageResourceSynchros s))"

text \<open>
  \<^verbatim>\<open>refreshSyncResources\<close>, after the negotiation: merge, store the new status, then the
  four loops. \<open>refreshWith\<close> takes the negotiator's two results.
\<close>

definition refreshWith ::
  "collaborators \<Rightarrow> GroupResourceStatus \<Rightarrow> (GroupVersionResource \<times> ResourceSyncConfig) list \<Rightarrow>
   ClusterSynchro \<Rightarrow> ClusterSynchro" where
  "refreshWith env negotiated storageResourceSyncConfigs s =
     (case Merge negotiated (groupResourceStatus s) of
        (status, deleted) \<Rightarrow>
          (let storageGVRToSyncGVRs = GetStorageGVRToSyncGVRs status;
               s1 = fold (createSynchro env storageGVRToSyncGVRs) storageResourceSyncConfigs
                      (s\<lparr>groupResourceStatus := Some status\<rparr>)
           in (case closeSynchros env storageGVRToSyncGVRs
                      (removedStorageGVRs storageResourceSyncConfigs s1) s1 of
                 (False, s2) \<Rightarrow> s2
               | (True, s2) \<Rightarrow>
                   (case fold (cleanResource env storageGVRToSyncGVRs storageResourceSyncConfigs)
                           (map fst (storageResourceVersions s2)) (s2, deleted) of
                      (s3, deleted') \<Rightarrow> deleteVersions deleted' s3))))"

definition refreshSyncResources :: "collaborators \<Rightarrow> ClusterSynchro \<Rightarrow> ClusterSynchro" where
  "refreshSyncResources env s =
     (case syncResources s of
        None \<Rightarrow> s
      | Some resources \<Rightarrow>
          (case NegotiateSyncResources env resources of
             (negotiated, storageResourceSyncConfigs) \<Rightarrow>
               refreshWith env negotiated storageResourceSyncConfigs s))"

section \<open>Publishing the status\<close>

text \<open>\<^verbatim>\<open>schema.GroupResource.String()\<close> of the Kubernetes library: the resource alone for
  the core group, else resource, a dot, group.\<close>

definition GroupResourceString :: "string \<Rightarrow> string \<Rightarrow> string" where
  "GroupResourceString g r = (if length g = 0 then r else r @ ''.'' @ g)"

text \<open>The body of the innermost loop of \<^verbatim>\<open>genClusterStatus\<close> (lines 591 to 621): the
  condition of one version of the resource \<open>rn\<close> of group \<open>g\<close>, completed from the
  reconciler of its storage GVR when there is one.\<close>

definition genSyncCondition ::
  "collaborators \<Rightarrow> ClusterSynchro \<Rightarrow> string \<Rightarrow> string \<Rightarrow> ClusterResourceSyncCondition \<Rightarrow> ClusterResourceSyncCondition" where
  "genSyncCondition env s g rn cond =
     (case map_of (storageResourceSynchros s) (sc_StorageGVR cond) of
        Some synchro \<Rightarrow>
          (let syncedGVR = SynchroGroupVersionResource env synchro;
               c1 = (if (g, rn) \<noteq> (Group syncedGVR, Resource syncedGVR)
                     then cond\<lparr>sc_SyncResource := GroupResourceString (Group syncedGVR) (Resource syncedGVR)\<rparr>
                     else cond);
               c2 = (if sc_Version c1 \<noteq> Version syncedGVR
                     then c1\<lparr>sc_SyncVersion := Version syncedGVR\<rparr> else c1);
               status = SynchroStatus env synchro
           in c2\<lparr>sc_Status := sc_Status status, sc_Reason := sc_Reason status,
                 sc_Message := sc_Message status, sc_InitialListPhase := sc_InitialListPhase status,
                 sc_LastTransitionTime := sc_LastTransitionTime status\<rparr>)
      | None \<Rightarrow>
          (let c1 = (if sc_Status cond = [] then cond\<lparr>sc_Status := ResourceSyncStatusUnknown\<rparr> else cond);
               c2 = (if sc_Reason c1 = [] then c1\<lparr>sc_Reason := ''ResourceSynchroNotFound''\<rparr> else c1);
               c3 = (if sc_Message c2 = [] then c2\<lparr>sc_Message := ''not found resource synchro''\<rparr> else c2)
           in c3\<lparr>sc_LastTransitionTime := Now env\<rparr>))"

definition genClusterStatus :: "collaborators \<Rightarrow> ClusterSynchro \<Rightarrow> ClusterStatus" where
  "genClusterStatus env s =
     (let status = \<lparr>cs_Version = ServerVersion env (dynamicDiscovery s),
                    cs_Conditions = [runningCondition s, healthyCondition s],
                    cs_SyncResources = None\<rparr>
      in case groupResourceStatus s of
           None \<Rightarrow> status
         | Some groupResourceStatuses \<Rightarrow>
             status\<lparr>cs_SyncResources := Some
               (map (\<lambda>st. st\<lparr>grs_Resources :=
                       map (\<lambda>resource. resource\<lparr>rs_SyncConditions :=
                              map (genSyncCondition env s (grs_Group st) (rs_Name resource))
                                (rs_SyncConditions resource)\<rparr>)
                         (grs_Resources st)\<rparr>)
                  (LoadGroupResourcesStatuses env groupResourceStatuses))\<rparr>)"

text \<open>
  \<^verbatim>\<open>
  func (s *ClusterSynchro) updateStatus() {
      select {
      case s.updateStatusCh <- struct{}{}:
      default:
      }
  }
  \<close>
  A \<^verbatim>\<open>select\<close> with a \<^verbatim>\<open>default\<close> takes the default when the send would block.
\<close>

definition updateStatus :: "ClusterSynchro \<Rightarrow> ClusterSynchro outcome" where
  "updateStatus s =
     (case chan_send (updateStatusCh s) of
        Return ch \<Rightarrow> Return (s\<lparr>updateStatusCh := ch\<rparr>)
      | Panic msg \<Rightarrow> Panic msg
      | Block \<Rightarrow> Return s)"

text \<open>The loop \<^verbatim>\<open>for range s.updateStatusCh\<close> of a goroutine that \<^verbatim>\<open>Run\<close> starts, run
  until the receive blocks or the channel is closed and drained: one status is generated
  and handed to the updater for each element received (an error of the updater is
  logged).\<close>

function drainStatusCh :: "collaborators \<Rightarrow> ClusterSynchro \<Rightarrow> ClusterSynchro" where
  "drainStatusCh env s =
     (case chan_recv (updateStatusCh s) of
        Return (ch, True) \<Rightarrow>
          drainStatusCh env
            (emit [EvUpdateClusterStatus (name s) (genClusterStatus env s)] (s\<lparr>updateStatusCh := ch\<rparr>))
      | Return (ch, False) \<Rightarrow> s
      | Panic msg \<Rightarrow> s
      | Block \<Rightarrow> s)"
  by pat_completeness auto
termination
  by (relation "measure (\<lambda>(env, s). chan_len (updateStatusCh s))")
     (auto simp: chan_recv_def emit_def split: if_splits)

declare drainStatusCh.simps [simp del]

text \<open>The exit of \<open>n\<close> status goroutines, one after the other: each runs its deferred
  \<^verbatim>\<open>close(s.closed)\<close>, which panics when the channel is closed already.\<close>

fun exitStatusUpdaters :: "nat \<Rightarrow> ClusterSynchro \<Rightarrow> ClusterSynchro outcome" where
  "exitStatusUpdaters 0 s = Return s"
| "exitStatusUpdaters (Suc n) s =
     bind_outcome (chan_close (closed s))
       (\<lambda>c. exitStatusUpdaters n
               (emit [EvCloseClosed] (s\<lparr>closed := c, statusUpdaters := statusUpdaters s - 1\<rparr>)))"

text \<open>The status goroutines as far as they can run: when their loops end because the
  channel was closed, every one of them exits.\<close>

definition statusUpdaterRun :: "collaborators \<Rightarrow> ClusterSynchro \<Rightarrow> ClusterSynchro outcome" where
  "statusUpdaterRun env s =
     (if statusUpdaters s = 0 then Return s
      else (let s1 = drainStatusCh env s
            in if chan_closed (updateStatusCh s1)
               then exitStatusUpdaters (statusUpdaters s1) s1
               else Return s1))"

section \<open>Running and shutting down\<close>

text \<open>Lines 223 to 245 of \<^verbatim>\<open>Run\<close>: the running condition, the two workers of the wait
  group (monitor and runner) and one more status goroutine.\<close>

definition startRun :: "collaborators \<Rightarrow> ClusterSynchro \<Rightarrow> ClusterSynchro" where
  "startRun env s =
     s\<lparr>runningCondition :=
          \<lparr>Condition_Type = SynchroRunningCondition, Condition_Status = ConditionTrue,
           Condition_Reason = SynchroRunningReason, Condition_Message = ''cluster synchro is running'',
           Condition_LastTransitionTime = Now env\<rparr>,
       waitGroup := waitGroup s + 2,
       statusUpdaters := statusUpdaters s + 1\<rparr>"

text \<open>
  The function passed to \<^verbatim>\<open>closeOnce.Do\<close> in \<^verbatim>\<open>Shutdown\<close> (lines 257 to 309). The
  watchdog goroutine only reads and logs. \<^verbatim>\<open>waitGroup.Wait()\<close> returns when every
  worker has returned, which each does once \<open>closer\<close> is closed.
\<close>

definition shutdownCondition :: "nat \<Rightarrow> Condition" where
  "shutdownCondition now =
     \<lparr>Condition_Type = SynchroRunningCondition, Condition_Status = ConditionFalse,
      Condition_Reason = SynchroShutdownReason, Condition_Message = ''cluster synchro is shutdown'',
      Condition_LastTransitionTime = now\<rparr>"

definition shutdownOnce :: "collaborators \<Rightarrow> bool \<Rightarrow> ClusterSynchro \<Rightarrow> ClusterSynchro outcome" where
  "shutdownOnce env upd s =
     bind_outcome (chan_close (closer s)) (\<lambda>c.
       bind_outcome
         (let s1 = emit [EvCloseCloser, EvWaitGroupWait] (s\<lparr>closer := c, waitGroup := 0\<rparr>);
              s2 = s1\<lparr>runningCondition := shutdownCondition (Now env)\<rparr>
          in if upd then updateStatus s2 else Return s2)
         (\<lambda>s3. bind_outcome (chan_close (updateStatusCh s3))
                 (\<lambda>ch. Return (emit [EvCloseUpdateStatusCh] (s3\<lparr>updateStatusCh := ch\<rparr>)))))"

text \<open>
  \<^verbatim>\<open>Shutdown\<close>: the once-only part, then \<^verbatim>\<open><-s.closed\<close>. While the caller waits, the
  status goroutines run as far as they can; the receive then returns if \<open>closed\<close> is closed
  and blocks otherwise (nothing is ever sent on \<open>closed\<close>).
\<close>

definition Shutdown :: "collaborators \<Rightarrow> bool \<Rightarrow> ClusterSynchro \<Rightarrow> ClusterSynchro outcome" where
  "Shutdown env upd s =
     bind_outcome
       (if closeOnce s then Return s
        else bind_outcome (shutdownOnce env upd s) (\<lambda>s1. Return (s1\<lparr>closeOnce := True\<rparr>)))
       (\<lambda>s1. bind_outcome (statusUpdaterRun env s1)
          (\<lambda>s2. bind_outcome (chan_recv (closed s2)) (\<lambda>r. Return s2)))"

text \<open>\<^verbatim>\<open>Run(shutdown)\<close>: after the start, the \<^verbatim>\<open>select\<close> on \<open>closer\<close> and on the
  caller's channel; \<open>shutdown\<close> says whether the caller's channel gets closed.\<close>

definition Run :: "collaborators \<Rightarrow> bool \<Rightarrow> ClusterSynchro \<Rightarrow> ClusterSynchro outcome" where
  "Run env shutdown s =
     (let s1 = startRun env s
      in if chan_closed (closer s1)
         then bind_outcome (statusUpdaterRun env s1)
                (\<lambda>s2. bind_outcome (chan_recv (closed s2)) (\<lambda>r. Return s2))
         else if shutdown then Shutdown env True s1
         else Block)"

text \<open>A number of calls of \<^verbatim>\<open>Shutdown\<close> one after the other, each with its own flag; a
  call is made when the one before it has returned.\<close>

fun ShutdownTimes :: "collaborators \<Rightarrow> bool list \<Rightarrow> ClusterSynchro \<Rightarrow> ClusterSynchro outcome" where
  "ShutdownTimes env [] s = Return s"
| "ShutdownTimes env (upd # upds) s = bind_outcome (Shutdown env upd s) (ShutdownTimes env upds)"

text \<open>\<^verbatim>\<open>SetResources\<close> and \<^verbatim>\<open>resetSyncResources\<close>: store the desired resources (a slice,
  \<open>None\<close> when \<^verbatim>\<open>nil\<close>) and wake the refresher through its one-slot channel.\<close>

definition resetSyncResources :: "ClusterSynchro \<Rightarrow> ClusterSynchro outcome" where
  "resetSyncResources s =
     (case chan_send (setSyncResourcesCh s) of
        Return ch \<Rightarrow> Return (s\<lparr>setSyncResourcesCh := ch\<rparr>)
      | Panic msg \<Rightarrow> Panic msg
      | Block \<Rightarrow> Return s)"

definition SetResources :: "ClusterGroupResources list option \<Rightarrow> bool \<Rightarrow> ClusterSynchro \<Rightarrow> ClusterSynchro outcome" where
  "SetResources resources flag s =
     resetSyncResources (s\<lparr>syncResources := resources, syncAllCustomResources := flag\<rparr>)"

section \<open>Observations\<close>

text \<open>A step from \<open>s\<close> to \<open>s'\<close> adds events to the trace, all of them of the kind \<open>P\<close>.\<close>

definition emitsOnly :: "(event \<Rightarrow> bool) \<Rightarrow> ClusterSynchro \<Rightarrow> ClusterSynchro \<Rightarrow> bool" where
  "emitsOnly P s s' = (\<exists>evs. trace s' = trace s @ evs \<and> list_all P evs)"

text \<open>The events in the life of the reconciler of a storage GVR: the making of its
  storage and of the reconciler, its \<^verbatim>\<open>Run\<close>, \<^verbatim>\<open>Start\<close> and \<^verbatim>\<open>Close\<close>.\<close>

fun lifecycleEvent :: "GroupVersionResource \<Rightarrow> event \<Rightarrow> bool" where
  "lifecycleEvent g (EvNewResourceStorage g' c) = (g' = g)"
| "lifecycleEvent g (EvNewResourceSynchro g' c) = (g' = g)"
| "lifecycleEvent g (EvSynchroRun g') = (g' = g)"
| "lifecycleEvent g (EvSynchroStart g') = (g' = g)"
| "lifecycleEvent g (EvSynchroClose g') = (g' = g)"
| "lifecycleEvent g (EvSynchroClosed g') = (g' = g)"
| "lifecycleEvent g ev = False"

text \<open>
  The synchros on which \<^verbatim>\<open>SetResources\<close> has not yet stored a resource list other than
  \<^verbatim>\<open>nil\<close>: a new one, and whatever refreshes, calls of \<^verbatim>\<open>SetResources\<close> with \<^verbatim>\<open>nil\<close>,
  the start of \<^verbatim>\<open>Run\<close>, status notifications and the status goroutine make of one.
\<close>

inductive unset :: "ClusterSynchro \<Rightarrow> bool" where
  unset_New: "New env nm config syncCfg = Inr s \<Longrightarrow> unset s"
| unset_refresh: "unset s \<Longrightarrow> unset (refreshSyncResources env s)"
| unset_SetResources: "unset s \<Longrightarrow> SetResources None flag s = Return s' \<Longrightarrow> unset s'"
| unset_startRun: "unset s \<Longrightarrow> unset (startRun env s)"
| unset_updateStatus: "unset s \<Longrightarrow> updateStatus s = Return s' \<Longrightarrow> unset s'"
| unset_statusUpdater: "unset s \<Longrightarrow> statusUpdaterRun env s = Return s' \<Longrightarrow> unset s'"

text \<open>The synchros that come about: a new one, and what the operations of the file make of
  one, in any order and with any answers of the collaborators. An operation that panics
  or blocks for good leaves no synchro to go on from, and no operation runs on a synchro
  whose refresh has panicked.\<close>

inductive reachable :: "ClusterSynchro \<Rightarrow> bool" where
  reach_New: "New env nm config syncCfg = Inr s \<Longrightarrow> reachable s"
| reach_refresh: "reachable s \<Longrightarrow> panicked s = None \<Longrightarrow> reachable (refreshSyncResources env s)"
| reach_SetResources:
    "reachable s \<Longrightarrow> panicked s = None \<Longrightarrow> SetResources resources flag s = Return s' \<Longrightarrow> reachable s'"
| reach_startRun: "reachable s \<Longrightarrow> panicked s = None \<Longrightarrow> reachable (startRun env s)"
| reach_updateStatus: "reachable s \<Longrightarrow> panicked s = None \<Longrightarrow> updateStatus s = Return s' \<Longrightarrow> reachable s'"
| reach_statusUpdater:
    "reachable s \<Longrightarrow> panicked s = None \<Longrightarrow> statusUpdaterRun env s = Return s' \<Longrightarrow> reachable s'"
| reach_Shutdown: "reachable s \<Longrightarrow> panicked s = None \<Longrightarrow> Shutdown env upd s = Return s' \<Longrightarrow> reachable s'"

text \<open>What a refresh leaves alone: everything but the wait group, the two registries, the
  group/resource status, the record of a panic and the trace.\<close>

definition refreshFrame :: "ClusterSynchro \<Rightarrow> ClusterSynchro \<Rightarrow> bool" where
  "refreshFrame s s' =
     (s' = s\<lparr>waitGroup := waitGroup s', storageResourceVersions := storageResourceVersions s',
             storageResourceSynchros := storageResourceSynchros s',
             groupResourceStatus := groupResourceStatus s', panicked := panicked s',
             trace := trace s'\<rparr>)"

text \<open>How the lifetime channels and the once-flag hang together.\<close>

definition lifetimeInv :: "ClusterSynchro \<Rightarrow> bool" where
  "lifetimeInv s =
     (chan_len (closed s) = 0 \<and> chan_cap (updateStatusCh s) = 1 \<and> chan_len (updateStatusCh s) \<le> 1 \<and>
      closeOnce s = chan_closed (updateStatusCh s) \<and> closeOnce s = chan_closed (closer s) \<and>
      closeOnce s = chan_closed (closed s))"

text \<open>The synchro after the first \<^verbatim>\<open>Shutdown\<close>, called with the flag \<open>upd\<close> while one
  status goroutine runs: both lifetime channels and the status channel closed, the wait
  group empty, the running condition false with the reason of a shutdown, no status
  goroutine left, and in the trace the closing of \<open>closer\<close>, the wait, the closing of the
  status channel, one status update (which carries that condition) for each notification
  then buffered, and the closing of \<open>closed\<close>.\<close>

definition terminalState :: "collaborators \<Rightarrow> bool \<Rightarrow> ClusterSynchro \<Rightarrow> ClusterSynchro" where
  "terminalState env upd s =
     (let terminal = \<lparr>Condition_Type = SynchroRunningCondition, Condition_Status = ConditionFalse,
                      Condition_Reason = SynchroShutdownReason,
                      Condition_Message = ''cluster synchro is shutdown'',
                      Condition_LastTransitionTime = Now env\<rparr>
      in s\<lparr>closeOnce := True,
           closer := (closer s)\<lparr>chan_closed := True\<rparr>,
           closed := (closed s)\<lparr>chan_closed := True\<rparr>,
           updateStatusCh := (updateStatusCh s)\<lparr>chan_len := 0, chan_closed := True\<rparr>,
           waitGroup := 0,
           runningCondition := terminal,
           statusUpdaters := 0,
           trace := trace s @ [EvCloseCloser, EvWaitGroupWait, EvCloseUpdateStatusCh]
                      @ replicate (if upd then 1 else chan_len (updateStatusCh s))
                          (EvUpdateClusterStatus (name s)
                             (genClusterStatus env (s\<lparr>runningCondition := terminal\<rparr>)))
                      @ [EvCloseClosed]\<rparr>)"

text \<open>A watermark entry is initialised when neither of its maps is \<^verbatim>\<open>nil\<close>. The
  invariant of the two registries: every watermark entry is initialised, and every storage
  GVR of the reconciler registry has a watermark entry.\<close>

definition initialised :: "ClusterResourceVersions \<Rightarrow> bool" where
  "initialised rvs = (Resources rvs \<noteq> None \<and> Events rvs \<noteq> None)"

definition watermarksInv :: "ClusterSynchro \<Rightarrow> bool" where
  "watermarksInv s =
     ((\<forall>g rvs. map_of (storageResourceVersions s) g = Some rvs \<longrightarrow> initialised rvs) \<and>
      (\<forall>g synchro. map_of (storageResourceSynchros s) g = Some synchro \<longrightarrow>
                   map_of (storageResourceVersions s) g \<noteq> None))"

text \<open>The events that the creation loop may add in its iteration for the storage GVR
  \<open>g\<close>, whose sync GVRs are \<open>gvrs\<close>.\<close>

fun createEventOf :: "GroupVersionResource \<Rightarrow> GroupVersionResource list \<Rightarrow> event \<Rightarrow> bool" where
  "createEventOf g gvrs (EvNewResourceStorage g' c) = (g' = g)"
| "createEventOf g gvrs (EvNewResourceSynchro g' c) = (g' = g)"
| "createEventOf g gvrs (EvSynchroRun g') = (g' = g)"
| "createEventOf g gvrs (EvSynchroStart g') = (g' = g)"
| "createEventOf g gvrs (EvUpdateSyncCondition gvr status reason message) = (gvr \<in> set gvrs)"
| "createEventOf g gvrs ev = False"

text \<open>The events of the last two loops: cleaning a cluster resource, deleting a version.\<close>

fun cleanupEvent :: "event \<Rightarrow> bool" where
  "cleanupEvent (EvCleanClusterResource nm g) = True"
| "cleanupEvent (EvDeleteVersion gvr) = True"
| "cleanupEvent ev = False"

text \<open>The events of one iteration of the closing loop that runs to its end, and of one
  iteration of the clean-up loop for a storage GVR that the plan does not have (an
  iteration that panics has made the call only).\<close>

definition closeSegment :: "(GroupVersionResource \<Rightarrow> GroupVersionResource list) \<Rightarrow> GroupVersionResource \<Rightarrow> event list" where
  "closeSegment m g =
     [EvSynchroClose g, EvSynchroClosed g] @
     map (\<lambda>gvr. EvUpdateSyncCondition gvr ResourceSyncStatusStop ''SynchroRemoved''
                  ''the resource synchro is moved'') (m g)"

definition cleanEvents ::
  "collaborators \<Rightarrow> (GroupVersionResource \<Rightarrow> GroupVersionResource list) \<Rightarrow> string \<Rightarrow>
   GroupVersionResource \<Rightarrow> event list" where
  "cleanEvents env m nm g =
     EvCleanClusterResource nm g #
     (case CleanClusterResource env nm g of
        None \<Rightarrow> []
      | Some err \<Rightarrow>
          (case Error err of
             None \<Rightarrow> []
           | Some message \<Rightarrow> map (\<lambda>gvr. EvUpdateSyncCondition gvr ResourceSyncStatusStop
                                           ''CleanResourceFailed'' message) (m g)))"

text \<open>Two synchros whose group/resource statuses carry the same sync GVRs.\<close>

definition sameKeys :: "ClusterSynchro \<Rightarrow> ClusterSynchro \<Rightarrow> bool" where
  "sameKeys s s' =
     (map_option (map fst) (groupResourceStatus s') = map_option (map fst) (groupResourceStatus s))"

text \<open>Every condition of the sync GVR carries the mark of a failed clean-up.\<close>

definition cleanFailedMark :: "GroupVersionResource \<Rightarrow> ClusterSynchro \<Rightarrow> bool" where
  "cleanFailedMark gvr s =
     (case groupResourceStatus s of
        None \<Rightarrow> False
      | Some grs \<Rightarrow> list_all (\<lambda>(k, c). k = gvr \<longrightarrow>
                      sc_Status c = ResourceSyncStatusStop \<and> sc_Reason c = ''CleanResourceFailed'') grs)"

text \<open>The refresh after its creation loop: the three remaining loops.\<close>

definition closeAndClean ::
  "collaborators \<Rightarrow> (GroupVersionResource \<Rightarrow> GroupVersionResource list) \<Rightarrow>
   (GroupVersionResource \<times> ResourceSyncConfig) list \<Rightarrow> GroupVersionResource list \<Rightarrow>
   ClusterSynchro \<Rightarrow> ClusterSynchro" where
  "closeAndClean env m plan deleted s1 =
     (case closeSynchros env m (removedStorageGVRs plan s1) s1 of
        (False, s2) \<Rightarrow> s2
      | (True, s2) \<Rightarrow>
          (case fold (cleanResource env m plan) (map fst (storageResourceVersions s2)) (s2, deleted) of
             (s3, deleted') \<Rightarrow> deleteVersions deleted' s3))"

section \<open>Scenarios\<close>

text \<open>Concrete collaborators and synchros on which the theorems below are instantiated:
  cluster \<open>c1\<close>, whose storage holds watermarks of deployments; every collaborator
  succeeds unless a scenario says otherwise.\<close>

definition gvrDeployments :: GroupVersionResource where
  "gvrDeployments = \<lparr>Group = ''apps'', Version = ''v1'', Resource = ''deployments''\<rparr>"

definition gvrPods :: GroupVersionResource where
  "gvrPods = \<lparr>Group = [], Version = ''v1'', Resource = ''pods''\<rparr>"

definition condFor :: "string \<Rightarrow> GroupVersionResource \<Rightarrow> ClusterResourceSyncCondition" where
  "condFor v storageGVR =
     \<lparr>sc_Version = v, sc_SyncVersion = [], sc_SyncResource = [], sc_StorageGVR = storageGVR,
      sc_Status = ResourceSyncStatusPending, sc_Reason = SynchroPendingReason, sc_Message = [],
      sc_InitialListPhase = [], sc_LastTransitionTime = 0\<rparr>"

definition syncConfigFor :: "string \<Rightarrow> GroupVersionResource \<Rightarrow> ResourceSyncConfig" where
  "syncConfigFor k gvr =
     \<lparr>kind = k, syncResource = gvr, syncEvents = False, convertor = [], resourceStorageConfig = Resource gvr\<rparr>"

definition env0 :: collaborators where
  "env0 =
     \<lparr>NewDynamicDiscoveryManager = (\<lambda>nm config. Inr ''discovery''),
      GetResourceVersions = (\<lambda>nm. Inr [(gvrDeployments, \<lparr>Resources = None, Events = Some [(''u1'', ''10'')]\<rparr>)]),
      NewDynamicListerWatcherFactory = (\<lambda>config. Inr ''lwfactory''),
      HealthCheckerWithStandaloneTCP = False,
      newHealthChecker = (\<lambda>config. Inr ''checker''),
      NewForConfig = (\<lambda>config. Inr ''client''),
      storageIsSynchroFactory = False,
      NegotiateSyncResources = (\<lambda>resources.
         ([(gvrPods, condFor ''v1'' gvrPods)], [(gvrPods, syncConfigFor ''Pod'' gvrPods)])),
      NewResourceStorage = (\<lambda>config. Inr config),
      GetMetricStore = (\<lambda>builder nm gvr. builder),
      ForResource = (\<lambda>factory gvr. factory),
      NewResourceSynchro = (\<lambda>factory nm config. Inr \<lparr>synchro_cluster = nm, synchro_Config = config\<rparr>),
      CloseCompletes = (\<lambda>gvr. True),
      CleanClusterResource = (\<lambda>nm gvr. None),
      ServerVersion = (\<lambda>discovery. ''v1.30.0''),
      LoadGroupResourcesStatuses = (\<lambda>grs. []),
      SynchroGroupVersionResource = (\<lambda>synchro. cfg_GroupVersionResource (synchro_Config synchro)),
      SynchroStatus = (\<lambda>synchro. condFor [] (cfg_GroupVersionResource (synchro_Config synchro))),
      Now = 0\<rparr>"

definition restConfig0 :: rest_Config where
  "restConfig0 = \<lparr>Host = ''https://c1'', Dial = None\<rparr>"

definition syncConfig0 :: ClusterSyncConfig where
  "syncConfig0 = \<lparr>MetricsStoreBuilder = None, PageSizeForResourceSync = 500\<rparr>"

definition synchro0 :: ClusterSynchro where
  "synchro0 =
     \<lparr>name = ''c1'', RESTConfig = restConfig0, resourceSynchroFactory = DefaultResourceSynchroFactory,
      syncConfig = syncConfig0, healthChecker = ''checker'', dynamicDiscovery = ''discovery'',
      listerWatcherFactory = ''lwfactory'', eventsListerWatcher = ''client'', closeOnce = False,
      closer = make_chan 0, closed = make_chan 0, updateStatusCh = make_chan 1,
      startRunnerCh = make_chan 0, stopRunnerCh = make_chan 0, waitGroup = 0, handlerStopCh = None,
      storageResourceVersions = [(gvrDeployments, \<lparr>Resources = Some [], Events = Some [(''u1'', ''10'')]\<rparr>)],
      storageResourceSynchros = [], syncResources = None, setSyncResourcesCh = make_chan 1,
      syncAllCustomResources = False, groupResourceStatus = None,
      runningCondition =
        \<lparr>Condition_Type = SynchroRunningCondition, Condition_Status = ConditionFalse,
         Condition_Reason = SynchroPendingReason,
         Condition_Message = ''cluster synchro is created, wait running'',
         Condition_LastTransitionTime = 0\<rparr>,
      healthyCondition =
        \<lparr>Condition_Type = ClusterHealthyCondition, Condition_Status = ConditionUnknown,
         Condition_Reason = ClusterMonitorStopReason,
         Condition_Message = ''wait cluster synchro's healthy monitor running'',
         Condition_LastTransitionTime = 0\<rparr>,
      statusUpdaters = 0, panicked = None, trace = [EvRegisterResourceSynchroMetrics]\<rparr>"

definition desiredPods :: "ClusterGroupResources list" where
  "desiredPods = [\<lparr>cgr_Group = [], cgr_Versions = [''v1''], cgr_Resources = [''pods'']\<rparr>]"

text \<open>The reconciler of pods, as an earlier refresh made it, and a synchro that runs it.\<close>

definition podSynchro :: Synchro where
  "podSynchro =
     \<lparr>synchro_cluster = ''c1'',
      synchro_Config = synchroConfig env0 synchro0 (syncConfigFor ''Pod'' gvrPods)
                         \<lparr>Resources = Some [], Events = Some []\<rparr> ''pods''\<rparr>"

definition synchroWithPods :: ClusterSynchro where
  "synchroWithPods =
     synchro0\<lparr>syncResources := Some desiredPods,
              storageResourceVersions :=
                [(gvrDeployments, \<lparr>Resources = Some [], Events = Some [(''u1'', ''10'')]\<rparr>),
                 (gvrPods, \<lparr>Resources = Some [], Events = Some []\<rparr>)],
              storageResourceSynchros := [(gvrPods, podSynchro)],
              groupResourceStatus := Some [(gvrPods, condFor ''v1'' gvrPods)]\<rparr>"

text \<open>The negotiator now returns another configuration for pods: events are synced too,
  through another convertor and storage configuration.\<close>

definition changedPodConfig :: ResourceSyncConfig where
  "changedPodConfig =
     \<lparr>kind = ''Pod'', syncResource = gvrPods, syncEvents = True, convertor = ''v2'',
      resourceStorageConfig = ''pods-v2''\<rparr>"

definition envChangedConfig :: collaborators where
  "envChangedConfig =
     env0\<lparr>NegotiateSyncResources := (\<lambda>resources.
            ([(gvrPods, condFor ''v1'' gvrPods)], [(gvrPods, changedPodConfig)]))\<rparr>"

text \<open>The synchro after \<^verbatim>\<open>Run\<close> has started and one status notification was sent.\<close>

definition synchroNotified :: ClusterSynchro where
  "synchroNotified =
     (startRun env0 synchro0)\<lparr>updateStatusCh := \<lparr>chan_cap = 1, chan_len = 1, chan_closed = False\<rparr>\<rparr>"

text \<open>The new synchro after \<^verbatim>\<open>SetResources\<close> with pods as the desired resources.\<close>

definition synchroDesiringPods :: ClusterSynchro where
  "synchroDesiringPods =
     synchro0\<lparr>syncResources := Some desiredPods,
              setSyncResourcesCh := \<lparr>chan_cap = 1, chan_len = 1, chan_closed = False\<rparr>\<rparr>"

text \<open>Collaborators whose list/watch factory, cluster client or discovery manager cannot be
  made.\<close>

definition envNoListerWatcher :: collaborators where
  "envNoListerWatcher = env0\<lparr>NewDynamicListerWatcherFactory := (\<lambda>config. Inl (errorString ''no transport''))\<rparr>"

definition envNoClient :: collaborators where
  "envNoClient = env0\<lparr>NewForConfig := (\<lambda>config. Inl (errorString ''bad config''))\<rparr>"

definition envNoDiscovery :: collaborators where
  "envNoDiscovery = env0\<lparr>NewDynamicDiscoveryManager := (\<lambda>nm config. Inl (errorString ''unreachable''))\<rparr>"

text \<open>Two versions of cron jobs that are stored as one: both sync GVRs have the storage
  GVR \<open>batch/v1/cronjobs\<close>, and the storage factory cannot make the resource storage.\<close>

definition gvrCronJobsV1 :: GroupVersionResource where
  "gvrCronJobsV1 = \<lparr>Group = ''batch'', Version = ''v1'', Resource = ''cronjobs''\<rparr>"

definition gvrCronJobsV1beta1 :: GroupVersionResource where
  "gvrCronJobsV1beta1 = \<lparr>Group = ''batch'', Version = ''v1beta1'', Resource = ''cronjobs''\<rparr>"

definition desiredCronJobs :: "ClusterGroupResources list" where
  "desiredCronJobs =
     [\<lparr>cgr_Group = ''batch'', cgr_Versions = [''v1beta1'', ''v1''], cgr_Resources = [''cronjobs'']\<rparr>]"

definition cronJobsStatus :: GroupResourceStatus where
  "cronJobsStatus =
     [(gvrCronJobsV1beta1, condFor ''v1beta1'' gvrCronJobsV1), (gvrCronJobsV1, condFor ''v1'' gvrCronJobsV1)]"

definition envCronJobsNoStorage :: collaborators where
  "envCronJobsNoStorage =
     env0\<lparr>GetResourceVersions := (\<lambda>nm. Inr []),
          NegotiateSyncResources := (\<lambda>resources.
            (cronJobsStatus, [(gvrCronJobsV1, syncConfigFor ''CronJob'' gvrCronJobsV1)])),
          NewResourceStorage := (\<lambda>config. Inl (errorString ''no table''))\<rparr>"

definition synchroDesiringCronJobs :: ClusterSynchro where
  "synchroDesiringCronJobs =
     synchro0\<lparr>syncResources := Some desiredCronJobs, storageResourceVersions := []\<rparr>"

text \<open>A synchro whose desired resources have shrunk to pods while it still runs the
  reconcilers of pods and deployments and tracks the watermarks of both; a storage whose
  \<open>CleanClusterResource\<close> fails; and a shutdown that arrives while the refresh waits for
  a reconciler to close.\<close>

definition deploymentSynchro :: Synchro where
  "deploymentSynchro =
     \<lparr>synchro_cluster = ''c1'',
      synchro_Config = synchroConfig env0 synchro0 (syncConfigFor ''Deployment'' gvrDeployments)
                         \<lparr>Resources = Some [], Events = Some [(''u1'', ''10'')]\<rparr> ''deployments''\<rparr>"

definition synchroWithDeployments :: ClusterSynchro where
  "synchroWithDeployments =
     synchro0\<lparr>syncResources := Some desiredPods,
              storageResourceVersions :=
                [(gvrDeployments, \<lparr>Resources = Some [], Events = Some [(''u1'', ''10'')]\<rparr>),
                 (gvrPods, \<lparr>Resources = Some [], Events = Some []\<rparr>)],
              storageResourceSynchros := [(gvrPods, podSynchro), (gvrDeployments, deploymentSynchro)],
              groupResourceStatus :=
                Some [(gvrPods, condFor ''v1'' gvrPods), (gvrDeployments, condFor ''v1'' gvrDeployments)]\<rparr>"

definition envCleanFails :: collaborators where
  "envCleanFails = env0\<lparr>CleanClusterResource := (\<lambda>nm gvr. Some (errorString ''db down''))\<rparr>"

definition envShutdownDuringClose :: collaborators where
  "envShutdownDuringClose = env0\<lparr>CloseCompletes := (\<lambda>gvr. False)\<rparr>"


definition envCronJobs :: collaborators where
  "envCronJobs =
     env0\<lparr>GetResourceVersions := (\<lambda>nm. Inr []),
          NegotiateSyncResources := (\<lambda>resources.
            (cronJobsStatus, [(gvrCronJobsV1, syncConfigFor ''CronJob'' gvrCronJobsV1)]))\<rparr>"

section \<open>Properties\<close>

subsection \<open>The recoverable marker is a type test\<close>

text \<open>
  Claim C9. For every error \<open>e\<close> (also \<^verbatim>\<open>nil\<close>),
  \<open>IsRecoverableException (NewRecoverableException e)\<close> is true, and
  \<open>IsRecoverableException\<close> is true of an error value exactly when that value is itself a
  \<open>storageRecoverableExceptionError\<close>: it is false of \<^verbatim>\<open>nil\<close>, of a leaf error whatever its
  text, and of a \<^verbatim>\<open>%w\<close> wrapper even when the wrapped error is recoverable or the texts
  agree.
\<close>

theorem IsRecoverableException_marker:
  "IsRecoverableException (NewRecoverableException e) \<and>
   IsRecoverableException x = (\<exists>inner. x = Some (storageRecoverableExceptionError inner)) \<and>
   \<not> IsRecoverableException None \<and>
   \<not> IsRecoverableException (Some (errorString text)) \<and>
   \<not> IsRecoverableException (Some (wrapError prefix (storageRecoverableExceptionError inner')))"
proof -
  have "IsRecoverableException (NewRecoverableException e)"
    by (simp add: NewRecoverableException_def)
  moreover have "IsRecoverableException x = (\<exists>inner. x = Some (storageRecoverableExceptionError inner))"
    by (cases x rule: IsRecoverableException.cases) simp_all
  ultimately show ?thesis by simp
qed


subsection \<open>Auxiliary facts\<close>

lemma New_env0: "New env0 ''c1'' restConfig0 syncConfig0 = Inr synchro0"
  by (simp add: New_def env0_def synchro0_def initWithResourceVersions_def initResourceVersions_def)

lemma genSyncCondition_publish_frame:
  "genSyncCondition env (s\<lparr>updateStatusCh := ch, trace := tr\<rparr>) = genSyncCondition env s"
  by (intro ext) (simp add: genSyncCondition_def)

lemma genClusterStatus_publish_frame:
  "genClusterStatus env (s\<lparr>updateStatusCh := ch, trace := tr\<rparr>) = genClusterStatus env s"
  by (simp add: genClusterStatus_def genSyncCondition_publish_frame Let_def split: option.splits)

lemma drainStatusCh_eq:
  "drainStatusCh env s =
     s\<lparr>updateStatusCh := (updateStatusCh s)\<lparr>chan_len := 0\<rparr>,
       trace := trace s @ replicate (chan_len (updateStatusCh s))
                  (EvUpdateClusterStatus (name s) (genClusterStatus env s))\<rparr>"
proof (induction env s rule: drainStatusCh.induct)
  case (1 env s)
  show ?case
  proof (cases "0 < chan_len (updateStatusCh s)")
    case True
    then obtain n where n: "chan_len (updateStatusCh s) = Suc n"
      by (cases "chan_len (updateStatusCh s)") auto
    have recv: "chan_recv (updateStatusCh s) = Return ((updateStatusCh s)\<lparr>chan_len := n\<rparr>, True)"
      using n by (simp add: chan_recv_def)
    have "drainStatusCh env s =
            drainStatusCh env
              (emit [EvUpdateClusterStatus (name s) (genClusterStatus env s)]
                 (s\<lparr>updateStatusCh := (updateStatusCh s)\<lparr>chan_len := n\<rparr>\<rparr>))"
      by (subst drainStatusCh.simps) (simp add: recv)
    also have "\<dots> = s\<lparr>updateStatusCh := (updateStatusCh s)\<lparr>chan_len := 0\<rparr>,
       trace := trace s @ replicate (chan_len (updateStatusCh s))
                  (EvUpdateClusterStatus (name s) (genClusterStatus env s))\<rparr>"
      using "1.IH"[OF recv refl refl] n
      by (simp add: emit_def genClusterStatus_publish_frame replicate_append_same)
    finally show ?thesis .
  next
    case False
    then have "drainStatusCh env s = s"
      by (subst drainStatusCh.simps) (simp add: chan_recv_def)
    with False show ?thesis by simp
  qed
qed


lemma emitsOnly_refl: "emitsOnly P s s"
  by (simp add: emitsOnly_def)

lemma emitsOnly_trans: "emitsOnly P s s' \<Longrightarrow> emitsOnly P s' s'' \<Longrightarrow> emitsOnly P s s''"
  by (auto simp: emitsOnly_def)

lemma emitsOnly_emit: "list_all P evs \<Longrightarrow> emitsOnly P s (emit evs s)"
  by (simp add: emitsOnly_def emit_def)

lemma fold_update_conds:
  "fold (\<lambda>gvr s'. emit [EvUpdateSyncCondition gvr status reason message]
             (s'\<lparr>groupResourceStatus :=
                   map_option (UpdateSyncCondition gvr status reason message) (groupResourceStatus s')\<rparr>)) xs s
   = s\<lparr>groupResourceStatus := map_option (fold (\<lambda>gvr. UpdateSyncCondition gvr status reason message) xs) (groupResourceStatus s),
        trace := trace s @ map (\<lambda>gvr. EvUpdateSyncCondition gvr status reason message) xs\<rparr>"
  by (induction xs arbitrary: s) (simp_all add: emit_def option.map_comp comp_def option.map_id)

lemma updateSyncConditions_eq:
  "updateSyncConditions m g status reason message s
   = s\<lparr>groupResourceStatus := map_option (fold (\<lambda>gvr. UpdateSyncCondition gvr status reason message) (m g)) (groupResourceStatus s),
        trace := trace s @ map (\<lambda>gvr. EvUpdateSyncCondition gvr status reason message) (m g)\<rparr>"
  unfolding updateSyncConditions_def by (rule fold_update_conds)

lemma fold_delete_versions:
  "fold (\<lambda>gvr s'. emit [EvDeleteVersion gvr]
           (s'\<lparr>groupResourceStatus := map_option (DeleteVersion gvr) (groupResourceStatus s')\<rparr>)) deleted s
   = s\<lparr>groupResourceStatus := map_option (fold DeleteVersion deleted) (groupResourceStatus s),
        trace := trace s @ map EvDeleteVersion deleted\<rparr>"
  by (induction deleted arbitrary: s) (simp_all add: emit_def option.map_comp comp_def option.map_id)

lemma deleteVersions_eq:
  "deleteVersions deleted s
   = (if panicked s \<noteq> None then s
      else s\<lparr>groupResourceStatus := map_option (fold DeleteVersion deleted) (groupResourceStatus s),
             trace := trace s @ map EvDeleteVersion deleted\<rparr>)"
  by (simp add: deleteVersions_def fold_delete_versions)

lemma createSynchro_keeps:
  assumes "map_of (storageResourceSynchros s) g = Some y"
  shows "map_of (storageResourceSynchros (createSynchro env m e s)) g = Some y"
  using assms
  by (auto simp: createSynchro_def updateSyncConditions_eq ensureResourceVersions_def
        startIfRunning_def emit_def update_conv' Let_def
      split: prod.splits option.splits sum.splits outcome.splits)

lemma createSynchro_no_lifecycle:
  assumes "map_of (storageResourceSynchros s) g = Some y"
  shows "emitsOnly (\<lambda>ev. \<not> lifecycleEvent g ev) s (createSynchro env m e s)"
  using assms
  by (auto simp: createSynchro_def updateSyncConditions_eq ensureResourceVersions_def
        startIfRunning_def emit_def update_conv' Let_def emitsOnly_def list_all_iff
      split: prod.splits option.splits sum.splits outcome.splits)


lemma fold_createSynchro_keeps:
  "map_of (storageResourceSynchros s) g = Some y \<Longrightarrow>
   map_of (storageResourceSynchros (fold (createSynchro env m) plan s)) g = Some y \<and>
   emitsOnly (\<lambda>ev. \<not> lifecycleEvent g ev) s (fold (createSynchro env m) plan s)"
proof (induction plan arbitrary: s)
  case Nil
  then show ?case by (simp add: emitsOnly_refl)
next
  case (Cons e plan)
  from Cons.prems have k: "map_of (storageResourceSynchros (createSynchro env m e s)) g = Some y"
    by (rule createSynchro_keeps)
  from Cons.IH[OF k] createSynchro_no_lifecycle[OF Cons.prems, where env = env and m = m and e = e]
  show ?case by (auto intro: emitsOnly_trans)
qed

lemma closeSynchros_other:
  "g \<notin> set gs \<Longrightarrow>
   map_of (storageResourceSynchros (snd (closeSynchros env m gs s))) g = map_of (storageResourceSynchros s) g \<and>
   emitsOnly (\<lambda>ev. \<not> lifecycleEvent g ev) s (snd (closeSynchros env m gs s))"
proof (induction gs arbitrary: s)
  case Nil
  then show ?case by (simp add: emitsOnly_refl)
next
  case (Cons a gs)
  then have ne: "a \<noteq> g" and notin: "g \<notin> set gs" by auto
  show ?case
  proof (cases "map_of (storageResourceSynchros s) a")
    case None
    with Cons.IH[OF notin, of s] show ?thesis by simp
  next
    case (Some synchro)
    show ?thesis
    proof (cases "CloseCompletes env a")
      case False
      with Some ne show ?thesis
        by (simp add: emit_def emitsOnly_def)
    next
      case True
      let ?s1 = "(updateSyncConditions m a ResourceSyncStatusStop ''SynchroRemoved''
                    ''the resource synchro is moved'' (emit [EvSynchroClose a, EvSynchroClosed a] s))
                 \<lparr>storageResourceSynchros := AList.delete a (storageResourceSynchros s)\<rparr>"
      have step: "map_of (storageResourceSynchros ?s1) g = map_of (storageResourceSynchros s) g"
        using ne by (simp add: delete_conv')
      have ev: "emitsOnly (\<lambda>ev. \<not> lifecycleEvent g ev) s ?s1"
        using ne by (simp add: updateSyncConditions_eq emit_def emitsOnly_def list_all_iff)
      from Cons.IH[OF notin, of ?s1] step ev Some True show ?thesis
        by (auto intro: emitsOnly_trans)
    qed
  qed
qed

lemma cleanResource_registry:
  "storageResourceSynchros (fst (cleanResource env m plan g st)) = storageResourceSynchros (fst st) \<and>
   emitsOnly (\<lambda>ev. \<not> lifecycleEvent g' ev) (fst st) (fst (cleanResource env m plan g st))"
  by (cases st)
     (auto simp: cleanResource_def updateSyncConditions_eq emit_def emitsOnly_def list_all_iff Let_def
           split: option.splits)

lemma fold_cleanResource_registry:
  "storageResourceSynchros (fst (fold (cleanResource env m plan) gs st)) = storageResourceSynchros (fst st) \<and>
   emitsOnly (\<lambda>ev. \<not> lifecycleEvent g' ev) (fst st) (fst (fold (cleanResource env m plan) gs st))"
proof (induction gs arbitrary: st)
  case Nil
  then show ?case by (simp add: emitsOnly_refl)
next
  case (Cons a gs)
  from Cons.IH[of "cleanResource env m plan a st"] cleanResource_registry[where env = env and m = m and plan = plan and g = a and st = st and g' = g']
  show ?case by (auto intro: emitsOnly_trans)
qed

lemma deleteVersions_registry:
  "storageResourceSynchros (deleteVersions deleted s) = storageResourceSynchros s \<and>
   emitsOnly (\<lambda>ev. \<not> lifecycleEvent g' ev) s (deleteVersions deleted s)"
  by (auto simp: deleteVersions_eq emitsOnly_def list_all_iff)

lemma removedStorageGVRs_planned:
  "map_of plan g = Some config \<Longrightarrow> g \<notin> set (removedStorageGVRs plan s)"
  by (simp add: removedStorageGVRs_def)

lemma refreshWith_preserves:
  assumes reg: "map_of (storageResourceSynchros s) g = Some y"
      and plan: "map_of plan g = Some config"
  shows "map_of (storageResourceSynchros (refreshWith env negotiated plan s)) g = Some y \<and>
         emitsOnly (\<lambda>ev. \<not> lifecycleEvent g ev) s (refreshWith env negotiated plan s)"
proof -
  obtain status deleted where mg: "Merge negotiated (groupResourceStatus s) = (status, deleted)"
    by (cases "Merge negotiated (groupResourceStatus s)")
  define m where "m = GetStorageGVRToSyncGVRs status"
  define s0 where "s0 = s\<lparr>groupResourceStatus := Some status\<rparr>"
  define s1 where "s1 = fold (createSynchro env m) plan s0"
  obtain fin s2 where cl: "closeSynchros env m (removedStorageGVRs plan s1) s1 = (fin, s2)"
    by (cases "closeSynchros env m (removedStorageGVRs plan s1) s1")
  obtain s3 deleted' where cn:
    "fold (cleanResource env m plan) (map fst (storageResourceVersions s2)) (s2, deleted) = (s3, deleted')"
    by (cases "fold (cleanResource env m plan) (map fst (storageResourceVersions s2)) (s2, deleted)")
  have r0: "map_of (storageResourceSynchros s0) g = Some y" and e0: "emitsOnly (\<lambda>ev. \<not> lifecycleEvent g ev) s s0"
    using reg by (simp_all add: s0_def emitsOnly_def)
  from fold_createSynchro_keeps[OF r0, where env = env and m = m and plan = plan]
  have r1: "map_of (storageResourceSynchros s1) g = Some y" and e1: "emitsOnly (\<lambda>ev. \<not> lifecycleEvent g ev) s0 s1"
    by (simp_all add: s1_def)
  from closeSynchros_other[OF removedStorageGVRs_planned[OF plan], where env = env and m = m and s = s1 and s1 = s1] cl r1
  have r2: "map_of (storageResourceSynchros s2) g = Some y" and e2: "emitsOnly (\<lambda>ev. \<not> lifecycleEvent g ev) s1 s2"
    by simp_all
  from fold_cleanResource_registry[where env = env and m = m and plan = plan and gs = "map fst (storageResourceVersions s2)" and st = "(s2, deleted)" and g' = g] cn r2
  have r3: "map_of (storageResourceSynchros s3) g = Some y" and e3: "emitsOnly (\<lambda>ev. \<not> lifecycleEvent g ev) s2 s3"
    by simp_all
  from deleteVersions_registry[where deleted = deleted' and s = s3 and g' = g] r3
  have r4: "map_of (storageResourceSynchros (deleteVersions deleted' s3)) g = Some y"
    and e4: "emitsOnly (\<lambda>ev. \<not> lifecycleEvent g ev) s3 (deleteVersions deleted' s3)"
    by simp_all
  have res: "refreshWith env negotiated plan s = (if fin then deleteVersions deleted' s3 else s2)"
    using mg cl cn by (simp add: refreshWith_def Let_def m_def s0_def s1_def)
  have e02: "emitsOnly (\<lambda>ev. \<not> lifecycleEvent g ev) s s2"
    by (rule emitsOnly_trans[OF emitsOnly_trans[OF e0 e1] e2])
  have e04: "emitsOnly (\<lambda>ev. \<not> lifecycleEvent g ev) s (deleteVersions deleted' s3)"
    by (rule emitsOnly_trans[OF emitsOnly_trans[OF e02 e3] e4])
  show ?thesis
  proof (cases fin)
    case True
    with res r4 e04 show ?thesis by simp
  next
    case False
    with res r2 e02 show ?thesis by simp
  qed
qed



lemma refreshFrame_refl: "refreshFrame s s"
  by (simp add: refreshFrame_def)

lemma refreshFrame_trans: "refreshFrame s s' \<Longrightarrow> refreshFrame s' s'' \<Longrightarrow> refreshFrame s s''"
  unfolding refreshFrame_def
proof -
  assume a: "s' = s\<lparr>waitGroup := waitGroup s', storageResourceVersions := storageResourceVersions s',
             storageResourceSynchros := storageResourceSynchros s',
             groupResourceStatus := groupResourceStatus s', panicked := panicked s',
             trace := trace s'\<rparr>"
    and b: "s'' = s'\<lparr>waitGroup := waitGroup s'', storageResourceVersions := storageResourceVersions s'',
             storageResourceSynchros := storageResourceSynchros s'',
             groupResourceStatus := groupResourceStatus s'', panicked := panicked s'',
             trace := trace s''\<rparr>"
  show "s'' = s\<lparr>waitGroup := waitGroup s'', storageResourceVersions := storageResourceVersions s'',
             storageResourceSynchros := storageResourceSynchros s'',
             groupResourceStatus := groupResourceStatus s'', panicked := panicked s'',
             trace := trace s''\<rparr>"
    by (subst b, subst a) simp
qed

lemma refreshFrame_createSynchro: "refreshFrame s (createSynchro env m e s)"
  by (auto simp: refreshFrame_def createSynchro_def updateSyncConditions_eq ensureResourceVersions_def
        startIfRunning_def emit_def Let_def
      split: prod.splits option.splits sum.splits outcome.splits)


lemma refreshFrame_fold_createSynchro: "refreshFrame s (fold (createSynchro env m) plan s)"
proof (induction plan arbitrary: s)
  case Nil
  show ?case by (simp add: refreshFrame_refl)
next
  case (Cons e plan)
  show ?case
    using refreshFrame_trans[OF refreshFrame_createSynchro Cons.IH] by simp
qed

lemma refreshFrame_closeSynchros: "refreshFrame s (snd (closeSynchros env m gs s))"
proof (induction gs arbitrary: s)
  case Nil
  show ?case by (simp add: refreshFrame_refl)
next
  case (Cons g gs)
  let ?s1 = "(updateSyncConditions m g ResourceSyncStatusStop ''SynchroRemoved''
                ''the resource synchro is moved'' (emit [EvSynchroClose g, EvSynchroClosed g] s))
             \<lparr>storageResourceSynchros := AList.delete g (storageResourceSynchros s)\<rparr>"
  have a: "refreshFrame s ?s1"
    by (simp add: refreshFrame_def updateSyncConditions_eq emit_def)
  have b: "refreshFrame s (emit [EvSynchroClose g] s)"
    by (simp add: refreshFrame_def emit_def)
  show ?case
    using Cons.IH[of s] refreshFrame_trans[OF a Cons.IH[of ?s1]] b
    by (simp split: option.splits)
qed

lemma refreshFrame_cleanResource: "refreshFrame (fst st) (fst (cleanResource env m plan g st))"
  by (cases st)
     (auto simp: refreshFrame_def cleanResource_def updateSyncConditions_eq emit_def Let_def
           split: option.splits)

lemma refreshFrame_fold_cleanResource: "refreshFrame (fst st) (fst (fold (cleanResource env m plan) gs st))"
proof (induction gs arbitrary: st)
  case Nil
  show ?case by (simp add: refreshFrame_refl)
next
  case (Cons g gs)
  show ?case
    using refreshFrame_trans[OF refreshFrame_cleanResource Cons.IH] by simp
qed

lemma refreshFrame_deleteVersions: "refreshFrame s (deleteVersions deleted s)"
  by (simp add: refreshFrame_def deleteVersions_eq)

lemma refreshFrame_refreshWith: "refreshFrame s (refreshWith env negotiated plan s)"
proof -
  obtain status deleted where mg: "Merge negotiated (groupResourceStatus s) = (status, deleted)"
    by (cases "Merge negotiated (groupResourceStatus s)")
  define m where "m = GetStorageGVRToSyncGVRs status"
  define s0 where "s0 = s\<lparr>groupResourceStatus := Some status\<rparr>"
  define s1 where "s1 = fold (createSynchro env m) plan s0"
  obtain fin s2 where cl: "closeSynchros env m (removedStorageGVRs plan s1) s1 = (fin, s2)"
    by (cases "closeSynchros env m (removedStorageGVRs plan s1) s1")
  obtain s3 deleted' where cn:
    "fold (cleanResource env m plan) (map fst (storageResourceVersions s2)) (s2, deleted) = (s3, deleted')"
    by (cases "fold (cleanResource env m plan) (map fst (storageResourceVersions s2)) (s2, deleted)")
  have f0: "refreshFrame s s0" by (simp add: refreshFrame_def s0_def)
  have f1: "refreshFrame s0 s1" unfolding s1_def by (rule refreshFrame_fold_createSynchro)
  have f2: "refreshFrame s1 s2"
    using refreshFrame_closeSynchros[where s = s1 and env = env and m = m and gs = "removedStorageGVRs plan s1"] cl
    by simp
  have f3: "refreshFrame s2 s3"
    using refreshFrame_fold_cleanResource[where st = "(s2, deleted)" and env = env and m = m and plan = plan
        and gs = "map fst (storageResourceVersions s2)"] cn
    by simp
  have f4: "refreshFrame s3 (deleteVersions deleted' s3)" by (rule refreshFrame_deleteVersions)
  have res: "refreshWith env negotiated plan s = (if fin then deleteVersions deleted' s3 else s2)"
    using mg cl cn by (simp add: refreshWith_def Let_def m_def s0_def s1_def)
  have f02: "refreshFrame s s2" by (rule refreshFrame_trans[OF refreshFrame_trans[OF f0 f1] f2])
  have f04: "refreshFrame s (deleteVersions deleted' s3)"
    by (rule refreshFrame_trans[OF refreshFrame_trans[OF f02 f3] f4])
  show ?thesis using res f02 f04 by simp
qed

lemma refreshFrame_refreshSyncResources: "refreshFrame s (refreshSyncResources env s)"
  by (auto simp: refreshSyncResources_def refreshFrame_refl refreshFrame_refreshWith split: option.splits prod.splits)

lemma refreshFrame_lifetime:
  assumes "refreshFrame s s'"
  shows "closeOnce s' = closeOnce s" "closer s' = closer s" "closed s' = closed s"
        "updateStatusCh s' = updateStatusCh s" "statusUpdaters s' = statusUpdaters s"
        "name s' = name s" "syncResources s' = syncResources s"
proof -
  from assms have eq: "s' = s\<lparr>waitGroup := waitGroup s', storageResourceVersions := storageResourceVersions s',
             storageResourceSynchros := storageResourceSynchros s',
             groupResourceStatus := groupResourceStatus s', panicked := panicked s',
             trace := trace s'\<rparr>"
    by (simp add: refreshFrame_def)
  show "closeOnce s' = closeOnce s" using arg_cong[OF eq, of closeOnce] by simp
  show "closer s' = closer s" using arg_cong[OF eq, of closer] by simp
  show "closed s' = closed s" using arg_cong[OF eq, of closed] by simp
  show "updateStatusCh s' = updateStatusCh s" using arg_cong[OF eq, of updateStatusCh] by simp
  show "statusUpdaters s' = statusUpdaters s" using arg_cong[OF eq, of statusUpdaters] by simp
  show "name s' = name s" using arg_cong[OF eq, of name] by simp
  show "syncResources s' = syncResources s" using arg_cong[OF eq, of syncResources] by simp
qed

lemma genSyncCondition_cong:
  "storageResourceSynchros s' = storageResourceSynchros s \<Longrightarrow> genSyncCondition env s' = genSyncCondition env s"
  by (intro ext) (simp add: genSyncCondition_def)

lemma genClusterStatus_cong:
  assumes "storageResourceSynchros s' = storageResourceSynchros s"
      and "dynamicDiscovery s' = dynamicDiscovery s"
      and "runningCondition s' = runningCondition s"
      and "healthyCondition s' = healthyCondition s"
      and "groupResourceStatus s' = groupResourceStatus s"
  shows "genClusterStatus env s' = genClusterStatus env s"
  using assms by (simp add: genClusterStatus_def genSyncCondition_cong[OF assms(1)] Let_def split: option.splits)

lemma lifetimeInv_New: "New env nm config syncCfg = Inr s \<Longrightarrow> lifetimeInv s"
  by (auto simp: New_def initWithResourceVersions_def lifetimeInv_def make_chan_def
           split: sum.splits if_splits)

lemma lifetimeInv_refresh: "lifetimeInv s \<Longrightarrow> lifetimeInv (refreshSyncResources env s)"
  using refreshFrame_lifetime[OF refreshFrame_refreshSyncResources[where s = s and env = env]]
  by (auto simp: lifetimeInv_def)

lemma lifetimeInv_SetResources: "lifetimeInv s \<Longrightarrow> SetResources r f s = Return s' \<Longrightarrow> lifetimeInv s'"
  by (auto simp: SetResources_def resetSyncResources_def lifetimeInv_def split: outcome.splits)

lemma lifetimeInv_startRun: "lifetimeInv s \<Longrightarrow> lifetimeInv (startRun env s)"
  by (auto simp: startRun_def lifetimeInv_def)

lemma lifetimeInv_updateStatus: "lifetimeInv s \<Longrightarrow> updateStatus s = Return s' \<Longrightarrow> lifetimeInv s'"
  by (auto simp: updateStatus_def chan_send_def lifetimeInv_def split: outcome.splits if_splits)

lemma exitStatusUpdaters_closed:
  "chan_closed (closed s) \<Longrightarrow> 0 < n \<Longrightarrow> exitStatusUpdaters n s = Panic ''close of closed channel''"
  by (cases n) (simp_all add: bind_outcome_def chan_close_def)

lemma exitStatusUpdaters_one:
  "\<not> chan_closed (closed s) \<Longrightarrow>
   exitStatusUpdaters (Suc 0) s =
     Return (emit [EvCloseClosed]
               (s\<lparr>closed := (closed s)\<lparr>chan_closed := True\<rparr>, statusUpdaters := statusUpdaters s - 1\<rparr>))"
  by (simp add: bind_outcome_def chan_close_def)

lemma exitStatusUpdaters_more:
  "exitStatusUpdaters (Suc (Suc n)) s = Panic ''close of closed channel''"
  by (simp add: bind_outcome_def chan_close_def emit_def)

lemma lifetimeInv_statusUpdaterRun: "lifetimeInv s \<Longrightarrow> statusUpdaterRun env s = Return s' \<Longrightarrow> lifetimeInv s'"
proof -
  assume inv: "lifetimeInv s" and ret: "statusUpdaterRun env s = Return s'"
  show ?thesis
  proof (cases "statusUpdaters s = 0")
    case True
    with ret inv show ?thesis by (simp add: statusUpdaterRun_def)
  next
    case False
    show ?thesis
    proof (cases "chan_closed (updateStatusCh s)")
      case True
      with inv have "chan_closed (closed (drainStatusCh env s))"
        by (auto simp: lifetimeInv_def drainStatusCh_eq)
      from exitStatusUpdaters_closed[OF this, of "statusUpdaters s"] False True ret
      show ?thesis by (simp add: statusUpdaterRun_def drainStatusCh_eq Let_def)
    next
      case op: False
      with False ret have "s' = drainStatusCh env s"
        by (simp add: statusUpdaterRun_def drainStatusCh_eq Let_def)
      with inv show ?thesis by (auto simp: lifetimeInv_def drainStatusCh_eq)
    qed
  qed
qed


lemma shutdownOnce_eq:
  assumes "lifetimeInv s" and "\<not> closeOnce s"
  shows "shutdownOnce env upd s =
    Return (s\<lparr>closer := (closer s)\<lparr>chan_closed := True\<rparr>, waitGroup := 0,
              runningCondition := shutdownCondition (Now env),
              updateStatusCh := (updateStatusCh s)\<lparr>chan_len := (if upd then 1 else chan_len (updateStatusCh s)),
                                                    chan_closed := True\<rparr>,
              trace := trace s @ [EvCloseCloser, EvWaitGroupWait, EvCloseUpdateStatusCh]\<rparr>)"
proof -
  from assms have op: "\<not> chan_closed (closer s)" "\<not> chan_closed (updateStatusCh s)"
    and cap: "chan_cap (updateStatusCh s) = 1" and len: "chan_len (updateStatusCh s) \<le> 1"
    by (auto simp: lifetimeInv_def)
  from len have "chan_len (updateStatusCh s) = 0 \<or> chan_len (updateStatusCh s) = 1" by auto
  then show ?thesis
  proof
    assume z: "chan_len (updateStatusCh s) = 0"
    show ?thesis using op cap z
      by (simp add: shutdownOnce_def bind_outcome_def chan_close_def updateStatus_def chan_send_def
            emit_def Let_def)
  next
    assume z: "chan_len (updateStatusCh s) = 1"
    have same: "(updateStatusCh s)\<lparr>chan_len := Suc 0\<rparr> = updateStatusCh s"
      using z by simp
    show ?thesis using op cap z
      by (simp add: shutdownOnce_def bind_outcome_def chan_close_def updateStatus_def chan_send_def
            emit_def Let_def same)
  qed
qed

text \<open>The outcome of \<open>Shutdown\<close>, by the once-flag and the number of status goroutines.\<close>

lemma Shutdown_first:
  assumes "lifetimeInv s" and "\<not> closeOnce s" and "statusUpdaters s = 1"
  shows "Shutdown env upd s = Return (terminalState env upd s)"
proof -
  let ?s1 = "s\<lparr>closer := (closer s)\<lparr>chan_closed := True\<rparr>, waitGroup := 0,
              runningCondition := shutdownCondition (Now env),
              updateStatusCh := (updateStatusCh s)\<lparr>chan_len := (if upd then 1 else chan_len (updateStatusCh s)),
                                                    chan_closed := True\<rparr>,
              trace := trace s @ [EvCloseCloser, EvWaitGroupWait, EvCloseUpdateStatusCh],
              closeOnce := True\<rparr>"
  from assms have op: "\<not> chan_closed (closed s)" and l0: "chan_len (closed s) = 0"
    by (auto simp: lifetimeInv_def)
  have g: "genClusterStatus env ?s1 = genClusterStatus env (s\<lparr>runningCondition := shutdownCondition (Now env)\<rparr>)"
    by (rule genClusterStatus_cong) simp_all
  have su: "statusUpdaterRun env ?s1 = Return (terminalState env upd s)"
    using assms(3) op
    by (simp add: statusUpdaterRun_def drainStatusCh_eq g[unfolded shutdownCondition_def] bind_outcome_def
          chan_close_def emit_def Let_def terminalState_def shutdownCondition_def)
  have rc: "chan_recv (closed (terminalState env upd s)) = Return (closed (terminalState env upd s), False)"
    using l0 by (simp add: chan_recv_def terminalState_def Let_def)
  show ?thesis
    using assms(2) shutdownOnce_eq[OF assms(1,2), of env upd] su rc
    by (simp add: Shutdown_def bind_outcome_def)
qed

lemma Shutdown_unstarted:
  assumes "lifetimeInv s" and "\<not> closeOnce s" and "statusUpdaters s = 0"
  shows "Shutdown env upd s = Block"
proof -
  from assms have nc: "\<not> chan_closed (closed s)" "chan_len (closed s) = 0"
    by (auto simp: lifetimeInv_def)
  show ?thesis
    using assms(2,3) nc shutdownOnce_eq[OF assms(1,2), of env upd]
    by (simp add: Shutdown_def bind_outcome_def statusUpdaterRun_def chan_recv_def)
qed

lemma Shutdown_many:
  assumes "lifetimeInv s" and "\<not> closeOnce s" and "1 < statusUpdaters s"
  shows "Shutdown env upd s = Panic ''close of closed channel''"
proof -
  from assms(3) obtain n where n: "statusUpdaters s = Suc (Suc n)"
    by (cases "statusUpdaters s") (auto simp: gr0_conv_Suc)
  show ?thesis
    using assms(2) n shutdownOnce_eq[OF assms(1,2), of env upd]
    by (simp add: Shutdown_def bind_outcome_def statusUpdaterRun_def drainStatusCh_eq Let_def
          chan_close_def emit_def)
qed

lemma Shutdown_again:
  assumes "lifetimeInv s" and "closeOnce s" and "statusUpdaters s = 0"
  shows "Shutdown env upd s = Return s"
  using assms
  by (auto simp: Shutdown_def bind_outcome_def statusUpdaterRun_def chan_recv_def lifetimeInv_def)

lemma Shutdown_restarted:
  assumes "lifetimeInv s" and "closeOnce s" and "0 < statusUpdaters s"
  shows "Shutdown env upd s = Panic ''close of closed channel''"
proof -
  from assms have c: "chan_closed (updateStatusCh s)" "chan_closed (closed (drainStatusCh env s))"
    by (auto simp: lifetimeInv_def drainStatusCh_eq)
  from exitStatusUpdaters_closed[OF c(2) assms(3)] assms(2,3) c(1)
  show ?thesis
    by (simp add: Shutdown_def bind_outcome_def statusUpdaterRun_def drainStatusCh_eq Let_def)
qed

lemma lifetimeInv_terminalState: "lifetimeInv s \<Longrightarrow> lifetimeInv (terminalState env upd s)"
  by (auto simp: lifetimeInv_def terminalState_def Let_def)

lemma Shutdown_returns:
  assumes inv: "lifetimeInv s" and ret: "Shutdown env upd s = Return s'"
  shows "lifetimeInv s' \<and> closeOnce s' \<and> statusUpdaters s' = 0 \<and> chan_closed (closed s') \<and>
         (if closeOnce s then s' = s else statusUpdaters s = 1 \<and> s' = terminalState env upd s)"
proof (cases "closeOnce s")
  case True
  show ?thesis
  proof (cases "statusUpdaters s = 0")
    case z: True
    from Shutdown_again[OF inv True z, of env upd] ret have "s' = s" by simp
    with inv True z show ?thesis by (auto simp: lifetimeInv_def)
  next
    case False
    then have "0 < statusUpdaters s" by simp
    from Shutdown_restarted[OF inv True this, of env upd] ret show ?thesis by simp
  qed
next
  case False
  consider "statusUpdaters s = 0" | "statusUpdaters s = 1" | "1 < statusUpdaters s"
    by linarith
  then show ?thesis
  proof cases
    case 1
    from Shutdown_unstarted[OF inv False 1, of env upd] ret show ?thesis by simp
  next
    case 2
    from Shutdown_first[OF inv False 2, of env upd] ret
    have eq: "s' = terminalState env upd s" by simp
    from lifetimeInv_terminalState[OF inv, of env upd] eq False 2 show ?thesis
      by (simp add: terminalState_def Let_def)
  next
    case 3
    from Shutdown_many[OF inv False 3, of env upd] ret show ?thesis by simp
  qed
qed

lemma reachable_lifetimeInv: "reachable s \<Longrightarrow> lifetimeInv s"
proof (induction rule: reachable.induct)
  case (reach_New env nm config syncCfg s)
  then show ?case by (rule lifetimeInv_New)
next
  case (reach_refresh s env)
  then show ?case by (simp add: lifetimeInv_refresh)
next
  case (reach_SetResources s resources flag s')
  then show ?case by (blast intro: lifetimeInv_SetResources)
next
  case (reach_startRun s env)
  then show ?case by (simp add: lifetimeInv_startRun)
next
  case (reach_updateStatus s s')
  then show ?case by (blast intro: lifetimeInv_updateStatus)
next
  case (reach_statusUpdater s env s')
  then show ?case by (blast intro: lifetimeInv_statusUpdaterRun)
next
  case (reach_Shutdown s env upd s')
  then show ?case using Shutdown_returns by blast
qed

lemma ShutdownTimes_again:
  assumes "lifetimeInv s" and "closeOnce s" and "statusUpdaters s = 0"
  shows "ShutdownTimes env upds s = Return s"
  by (induction upds) (simp_all add: Shutdown_again[OF assms] bind_outcome_def)

lemma initialised_initResourceVersions: "initialised (initResourceVersions rvs)"
  by (simp add: initialised_def initResourceVersions_def Let_def)

lemma fold_init_initialised:
  assumes "\<And>g r. map_of m g = Some r \<Longrightarrow> initialised r"
      and "map_of (fold (\<lambda>(gvr, rvs) m. AList.update gvr (initResourceVersions rvs) m) xs m) g = Some r"
  shows "initialised r"
  using assms
proof (induction xs arbitrary: m)
  case Nil
  then show ?case by simp
next
  case (Cons x xs)
  obtain k v where x: "x = (k, v)" by (cases x)
  show ?case
  proof (rule Cons.IH[of "AList.update k (initResourceVersions v) m"])
    fix g' r' assume "map_of (AList.update k (initResourceVersions v) m) g' = Some r'"
    then show "initialised r'"
      using Cons.prems(1)[of g' r'] initialised_initResourceVersions[of v]
      by (auto simp: update_conv' split: if_splits)
  next
    show "map_of (fold (\<lambda>(gvr, rvs). AList.update gvr (initResourceVersions rvs)) xs
            (AList.update k (initResourceVersions v) m)) g = Some r"
      using Cons.prems(2) x by simp
  qed
qed

lemma initWithResourceVersions_initialised:
  assumes "\<And>g r. map_of (storageResourceVersions s) g = Some r \<Longrightarrow> initialised r"
      and "map_of (storageResourceVersions (initWithResourceVersions loaded s)) g = Some rvs"
  shows "initialised rvs"
proof (cases "length loaded = 0")
  case True
  with assms show ?thesis by (simp add: initWithResourceVersions_def)
next
  case False
  with assms(2) have "map_of (fold (\<lambda>(gvr, rvs) m. AList.update gvr (initResourceVersions rvs) m)
                         loaded (storageResourceVersions s)) g = Some rvs"
    by (simp add: initWithResourceVersions_def)
  with assms(1) show ?thesis by (rule fold_init_initialised)
qed

lemma initWithResourceVersions_registry:
  "storageResourceSynchros (initWithResourceVersions loaded s) = storageResourceSynchros s"
  by (simp add: initWithResourceVersions_def)

lemma watermarksInv_New: "New env nm config syncCfg = Inr s \<Longrightarrow> watermarksInv s"
  unfolding watermarksInv_def
  by (auto simp: New_def initWithResourceVersions_registry
           elim!: initWithResourceVersions_initialised[rotated] split: sum.splits)

lemma watermarksInv_createSynchro: "watermarksInv s \<Longrightarrow> watermarksInv (createSynchro env m e s)"
  unfolding watermarksInv_def
  by (auto simp: createSynchro_def updateSyncConditions_eq ensureResourceVersions_def
        startIfRunning_def emit_def update_conv' Let_def initialised_def
      split: prod.splits option.splits sum.splits outcome.splits if_splits)


lemma watermarksInv_fold_createSynchro:
  "watermarksInv s \<Longrightarrow> watermarksInv (fold (createSynchro env m) plan s)"
  by (induction plan arbitrary: s) (simp_all add: watermarksInv_createSynchro)

lemma closeSynchros_shrinks:
  "storageResourceVersions (snd (closeSynchros env m gs s)) = storageResourceVersions s \<and>
   (\<forall>y. map_of (storageResourceSynchros (snd (closeSynchros env m gs s))) g = Some y \<longrightarrow>
      map_of (storageResourceSynchros s) g = Some y) \<and>
   (fst (closeSynchros env m gs s) \<longrightarrow> g \<in> set gs \<longrightarrow>
      map_of (storageResourceSynchros (snd (closeSynchros env m gs s))) g = None)"
proof (induction gs arbitrary: s)
  case Nil
  then show ?case by simp
next
  case (Cons a gs)
  let ?s1 = "(updateSyncConditions m a ResourceSyncStatusStop ''SynchroRemoved''
                ''the resource synchro is moved'' (emit [EvSynchroClose a, EvSynchroClosed a] s))
             \<lparr>storageResourceSynchros := AList.delete a (storageResourceSynchros s)\<rparr>"
  have wm1: "storageResourceVersions ?s1 = storageResourceVersions s"
    by (simp add: updateSyncConditions_eq emit_def)
  have reg1: "map_of (storageResourceSynchros ?s1) = (map_of (storageResourceSynchros s))(a := None)"
    by (simp add: delete_conv')
  show ?case
  proof (cases "map_of (storageResourceSynchros s) a")
    case None
    with Cons.IH[of s] show ?thesis by auto
  next
    case (Some synchro)
    show ?thesis
    proof (cases "CloseCompletes env a")
      case False
      with Some show ?thesis by (simp add: emit_def)
    next
      case True
      with Some Cons.IH[of ?s1] wm1 reg1 show ?thesis
        by (auto split: if_splits)
    qed
  qed
qed

lemma cleanResource_panicked:
  "panicked (fst st) \<noteq> None \<Longrightarrow> cleanResource env m plan g st = st"
  by (cases st) (simp add: cleanResource_def)

lemma fold_cleanResource_panicked:
  "panicked (fst st) \<noteq> None \<Longrightarrow> fold (cleanResource env m plan) gs st = st"
  by (induction gs) (simp_all add: cleanResource_panicked)

lemma fold_cleanResource_steps:
  assumes "panicked (fst (fold (cleanResource env m plan) (a # gs) st)) = None"
  shows "panicked (fst st) = None" "panicked (fst (cleanResource env m plan a st)) = None"
proof -
  show b: "panicked (fst (cleanResource env m plan a st)) = None"
  proof (rule ccontr)
    assume "panicked (fst (cleanResource env m plan a st)) \<noteq> None"
    from fold_cleanResource_panicked[OF this, of env m plan gs] this assms show False by simp
  qed
  show "panicked (fst st) = None"
  proof (rule ccontr)
    assume "panicked (fst st) \<noteq> None"
    from cleanResource_panicked[OF this, of env m plan a] this b show False by simp
  qed
qed

lemma cleanResource_watermarks:
  "map_of (storageResourceVersions (fst (cleanResource env m plan g st))) g' =
     (if panicked (fst st) = None \<and> g' = g \<and> map_of plan g = None then None
      else map_of (storageResourceVersions (fst st)) g')"
  by (cases st)
     (auto simp: cleanResource_def updateSyncConditions_eq emit_def delete_conv' Let_def
           split: option.splits)

lemma fold_cleanResource_shrinks:
  "map_of (storageResourceVersions (fst (fold (cleanResource env m plan) gs st))) g' =
     map_of (storageResourceVersions (fst st)) g' \<or>
   map_of (storageResourceVersions (fst (fold (cleanResource env m plan) gs st))) g' = None \<and>
   map_of plan g' = None"
proof (induction gs arbitrary: st)
  case Nil
  then show ?case by simp
next
  case (Cons a gs)
  show ?case
    using Cons.IH[of "cleanResource env m plan a st"]
      cleanResource_watermarks[where env = env and m = m and plan = plan and g = a and st = st and g' = g']
    by (auto split: if_splits)
qed

lemma fold_cleanResource_watermarks:
  "panicked (fst (fold (cleanResource env m plan) gs st)) = None \<Longrightarrow>
   map_of (storageResourceVersions (fst (fold (cleanResource env m plan) gs st))) g' =
     (if g' \<in> set gs \<and> map_of plan g' = None then None else map_of (storageResourceVersions (fst st)) g')"
proof (induction gs arbitrary: st)
  case Nil
  then show ?case by simp
next
  case (Cons a gs)
  from fold_cleanResource_steps[OF Cons.prems] have p: "panicked (fst st) = None" by simp
  from Cons.prems have "panicked (fst (fold (cleanResource env m plan) gs (cleanResource env m plan a st))) = None"
    by simp
  from Cons.IH[OF this]
    cleanResource_watermarks[where env = env and m = m and plan = plan and g = a and st = st and g' = g'] p
  show ?case by auto
qed

lemma deleteVersions_watermarks:
  "storageResourceVersions (deleteVersions deleted s) = storageResourceVersions s"
  by (simp add: deleteVersions_eq)

lemma removedStorageGVRs_mem:
  "map_of (storageResourceSynchros s) g = Some y \<Longrightarrow> map_of plan g = None \<Longrightarrow>
   g \<in> set (removedStorageGVRs plan s)"
  by (auto simp: removedStorageGVRs_def dest: map_of_SomeD intro: rev_image_eqI)

lemma watermarksInv_refreshWith:
  assumes inv: "watermarksInv s"
  shows "watermarksInv (refreshWith env negotiated plan s)"
proof -
  obtain status deleted where mg: "Merge negotiated (groupResourceStatus s) = (status, deleted)"
    by (cases "Merge negotiated (groupResourceStatus s)")
  define m where "m = GetStorageGVRToSyncGVRs status"
  define s0 where "s0 = s\<lparr>groupResourceStatus := Some status\<rparr>"
  define s1 where "s1 = fold (createSynchro env m) plan s0"
  obtain fin s2 where cl: "closeSynchros env m (removedStorageGVRs plan s1) s1 = (fin, s2)"
    by (cases "closeSynchros env m (removedStorageGVRs plan s1) s1")
  obtain s3 deleted' where cn:
    "fold (cleanResource env m plan) (map fst (storageResourceVersions s2)) (s2, deleted) = (s3, deleted')"
    by (cases "fold (cleanResource env m plan) (map fst (storageResourceVersions s2)) (s2, deleted)")
  have i0: "watermarksInv s0" using inv by (simp add: watermarksInv_def s0_def)
  have i1: "watermarksInv s1" unfolding s1_def by (rule watermarksInv_fold_createSynchro[OF i0])
  note sh = closeSynchros_shrinks[where env = env and m = m and gs = "removedStorageGVRs plan s1" and s = s1]
  have wm2: "storageResourceVersions s2 = storageResourceVersions s1"
    using sh[where g = undefined] cl by simp
  have reg2: "map_of (storageResourceSynchros s1) g = Some y"
    if "map_of (storageResourceSynchros s2) g = Some y" for g y
    using sh[where g = g] cl that by simp
  have i2: "watermarksInv s2"
    using i1 wm2 reg2 unfolding watermarksInv_def by metis
  have planned: "map_of plan g \<noteq> None"
    if fin and "map_of (storageResourceSynchros s2) g = Some y" for g y
  proof
    assume np: "map_of plan g = None"
    from reg2[OF that(2)] np have "g \<in> set (removedStorageGVRs plan s1)"
      by (rule removedStorageGVRs_mem)
    with sh[where g = g] cl that show False by simp
  qed
  have reg3: "storageResourceSynchros s3 = storageResourceSynchros s2"
    using fold_cleanResource_registry[where env = env and m = m and plan = plan
        and gs = "map fst (storageResourceVersions s2)" and st = "(s2, deleted)" and g' = undefined] cn
    by simp
  have wm3: "map_of (storageResourceVersions s3) g = map_of (storageResourceVersions s2) g \<or>
             map_of (storageResourceVersions s3) g = None \<and> map_of plan g = None" for g
    using fold_cleanResource_shrinks[where env = env and m = m and plan = plan
        and gs = "map fst (storageResourceVersions s2)" and st = "(s2, deleted)" and g' = g] cn
    by simp
  have i3: "watermarksInv s3" if fin
    unfolding watermarksInv_def
  proof (intro conjI allI impI)
    fix g rvs assume "map_of (storageResourceVersions s3) g = Some rvs"
    then have "map_of (storageResourceVersions s2) g = Some rvs"
      using wm3[of g] by auto
    with i2 show "initialised rvs" by (simp add: watermarksInv_def)
  next
    fix g synchro assume r: "map_of (storageResourceSynchros s3) g = Some synchro"
    then have r2: "map_of (storageResourceSynchros s2) g = Some synchro" by (simp add: reg3)
    from planned[OF that r2] have "map_of plan g \<noteq> None" .
    moreover from i2 r2 have "map_of (storageResourceVersions s2) g \<noteq> None"
      by (simp add: watermarksInv_def)
    ultimately show "map_of (storageResourceVersions s3) g \<noteq> None"
      using wm3[of g] by auto
  qed
  have i4: "watermarksInv (deleteVersions deleted' s3)" if fin
    using i3[OF that] by (simp add: watermarksInv_def deleteVersions_eq)
  have res: "refreshWith env negotiated plan s = (if fin then deleteVersions deleted' s3 else s2)"
    using mg cl cn by (simp add: refreshWith_def Let_def m_def s0_def s1_def)
  show ?thesis using res i2 i4 by simp
qed

lemma watermarksInv_refresh: "watermarksInv s \<Longrightarrow> watermarksInv (refreshSyncResources env s)"
  by (auto simp: refreshSyncResources_def watermarksInv_refreshWith split: option.splits prod.splits)


lemma watermarksInv_terminalState: "watermarksInv s \<Longrightarrow> watermarksInv (terminalState env upd s)"
  by (simp add: watermarksInv_def terminalState_def Let_def)

lemma exitStatusUpdaters_registries:
  "exitStatusUpdaters n s = Return s' \<Longrightarrow>
   storageResourceVersions s' = storageResourceVersions s \<and>
   storageResourceSynchros s' = storageResourceSynchros s \<and>
   syncResources s' = syncResources s \<and> groupResourceStatus s' = groupResourceStatus s"
proof (induction n arbitrary: s)
  case 0
  then show ?case by simp
next
  case (Suc n)
  show ?case
  proof (cases "chan_close (closed s)")
    case (Return c)
    with Suc.prems have "exitStatusUpdaters n
        (emit [EvCloseClosed] (s\<lparr>closed := c, statusUpdaters := statusUpdaters s - 1\<rparr>)) = Return s'"
      by (simp add: bind_outcome_def)
    from Suc.IH[OF this] show ?thesis by (simp add: emit_def)
  next
    case (Panic msg)
    with Suc.prems show ?thesis by (simp add: bind_outcome_def)
  next
    case Block
    with Suc.prems show ?thesis by (simp add: bind_outcome_def)
  qed
qed

lemma statusUpdaterRun_registries:
  "statusUpdaterRun env s = Return s' \<Longrightarrow>
   storageResourceVersions s' = storageResourceVersions s \<and>
   storageResourceSynchros s' = storageResourceSynchros s \<and>
   syncResources s' = syncResources s \<and> groupResourceStatus s' = groupResourceStatus s"
  using exitStatusUpdaters_registries[of "statusUpdaters (drainStatusCh env s)" "drainStatusCh env s" s']
  by (auto simp: statusUpdaterRun_def drainStatusCh_eq Let_def split: if_splits)

lemma reachable_watermarksInv: "reachable s \<Longrightarrow> watermarksInv s"
proof (induction rule: reachable.induct)
  case (reach_New env nm config syncCfg s)
  then show ?case by (rule watermarksInv_New)
next
  case (reach_refresh s env)
  then show ?case by (simp add: watermarksInv_refresh)
next
  case (reach_SetResources s resources flag s')
  then show ?case
    by (auto simp: SetResources_def resetSyncResources_def watermarksInv_def split: outcome.splits)
next
  case (reach_startRun s env)
  then show ?case by (simp add: startRun_def watermarksInv_def)
next
  case (reach_updateStatus s s')
  then show ?case by (auto simp: updateStatus_def watermarksInv_def split: outcome.splits)
next
  case (reach_statusUpdater s env s')
  from statusUpdaterRun_registries[OF reach_statusUpdater.hyps(3)] reach_statusUpdater.IH
  show ?case by (simp add: watermarksInv_def)
next
  case (reach_Shutdown s env upd s')
  from Shutdown_returns[OF reachable_lifetimeInv[OF reach_Shutdown.hyps(1)] reach_Shutdown.hyps(3)]
  have "s' = s \<or> s' = terminalState env upd s" by (auto split: if_splits)
  with reach_Shutdown.IH show ?case by (auto simp: watermarksInv_terminalState)
qed

lemma SetResources_synchro0: "SetResources (Some desiredPods) False synchro0 = Return synchroDesiringPods"
  by (simp add: SetResources_def resetSyncResources_def chan_send_def synchro0_def make_chan_def
        synchroDesiringPods_def)


lemmas refresh_eval =
  refreshSyncResources_def refreshWith_def Merge_def GetStorageGVRToSyncGVRs_def createSynchro_def
  ensureResourceVersions_def synchroConfig_def startIfRunning_def updateSyncConditions_def
  removedStorageGVRs_def cleanResource_def deleteVersions_def emit_def UpdateSyncCondition_def
  DeleteVersion_def Let_def

lemma map_fst_UpdateSyncCondition:
  "map fst (UpdateSyncCondition gvr status reason message grs) = map fst grs"
  by (induction grs) (auto simp: UpdateSyncCondition_def)

lemma map_fst_fold_UpdateSyncCondition:
  "map fst (fold (\<lambda>gvr. UpdateSyncCondition gvr status reason message) gvrs grs) = map fst grs"
  by (induction gvrs arbitrary: grs) (simp_all add: map_fst_UpdateSyncCondition)

lemma createSynchro_char:
  "\<exists>wg wmNew regNew conds evs.
     createSynchro env m (g, config) s =
       s\<lparr>waitGroup := wg, storageResourceVersions := wmNew, storageResourceSynchros := regNew,
         groupResourceStatus := map_option conds (groupResourceStatus s), trace := trace s @ evs\<rparr> \<and>
     (wmNew = storageResourceVersions s \<or>
        map_of (storageResourceVersions s) g = None \<and>
        wmNew = AList.update g \<lparr>Resources = Some [], Events = Some []\<rparr> (storageResourceVersions s)) \<and>
     (regNew = storageResourceSynchros s \<or>
        map_of (storageResourceSynchros s) g = None \<and> map_of wmNew g \<noteq> None \<and>
        (\<exists>synchro. regNew = AList.update g synchro (storageResourceSynchros s))) \<and>
     list_all (createEventOf g (m g)) evs \<and>
     (\<forall>grs. map fst (conds grs) = map fst grs) \<and>
     (map_of (storageResourceSynchros s) g \<noteq> None \<longrightarrow>
        evs = [] \<and> wmNew = storageResourceVersions s \<and> regNew = storageResourceSynchros s)"
proof (cases "map_of (storageResourceSynchros s) g")
  case (Some y)
  have "createSynchro env m (g, config) s = s" using Some by (simp add: createSynchro_def)
  then show ?thesis
    apply (intro exI[of _ "waitGroup s"] exI[of _ "storageResourceVersions s"]
                 exI[of _ "storageResourceSynchros s"] exI[of _ id] exI[of _ "[]"])
    by (simp add: option.map_id)
next
  case None
  show ?thesis
  proof (cases "NewResourceStorage env (resourceStorageConfig config)")
    case (Inl err)
    show ?thesis
      apply (intro exI[of _ "waitGroup s"] exI[of _ "storageResourceVersions s"]
                 exI[of _ "storageResourceSynchros s"]
                 exI[of _ "fold (\<lambda>gvr. UpdateSyncCondition gvr ResourceSyncStatusPending ''SynchroCreateFailed''
                              (''new resource storage failed: '' @ formatError ''s'' err)) (m g)"]
                 exI[of _ "EvNewResourceStorage g (resourceStorageConfig config) #
                           map (\<lambda>gvr. EvUpdateSyncCondition gvr ResourceSyncStatusPending ''SynchroCreateFailed''
                              (''new resource storage failed: '' @ formatError ''s'' err)) (m g)"])
      using None Inl
      by (simp add: createSynchro_def updateSyncConditions_eq emit_def list_all_iff map_fst_fold_UpdateSyncCondition)
  next
    case (Inr resourceStorage)
    obtain rvs s1 where en: "ensureResourceVersions g
          (emit [EvNewResourceStorage g (resourceStorageConfig config)] s) = (rvs, s1)"
      by (cases "ensureResourceVersions g (emit [EvNewResourceStorage g (resourceStorageConfig config)] s)")
    define wmNew where "wmNew = storageResourceVersions s1"
    have s1: "s1 = s\<lparr>storageResourceVersions := wmNew,
                      trace := trace s @ [EvNewResourceStorage g (resourceStorageConfig config)]\<rparr>"
      using en by (auto simp: ensureResourceVersions_def emit_def wmNew_def Let_def split: option.splits)
    have wm: "(wmNew = storageResourceVersions s \<or>
        map_of (storageResourceVersions s) g = None \<and>
        wmNew = AList.update g \<lparr>Resources = Some [], Events = Some []\<rparr> (storageResourceVersions s))"
      and wmg: "map_of wmNew g \<noteq> None"
      using en by (auto simp: ensureResourceVersions_def emit_def wmNew_def Let_def update_conv' split: option.splits)
    define cfg where "cfg = synchroConfig env s1 config rvs resourceStorage"
    show ?thesis
    proof (cases "NewResourceSynchro env (resourceSynchroFactory s1) (name s1) cfg")
      case (Inl err)
      have "createSynchro env m (g, config) s =
              updateSyncConditions m g ResourceSyncStatusPending ''SynchroCreateFailed''
                 (''new resource synchro failed: '' @ formatError ''s'' err) (emit [EvNewResourceSynchro g cfg] s1)"
        using None Inr en Inl by (simp add: createSynchro_def cfg_def)
      then show ?thesis
        apply (intro exI[of _ "waitGroup s"] exI[of _ wmNew] exI[of _ "storageResourceSynchros s"]
                 exI[of _ "fold (\<lambda>gvr. UpdateSyncCondition gvr ResourceSyncStatusPending ''SynchroCreateFailed''
                              (''new resource synchro failed: '' @ formatError ''s'' err)) (m g)"]
                 exI[of _ "[EvNewResourceStorage g (resourceStorageConfig config), EvNewResourceSynchro g cfg] @
                           map (\<lambda>gvr. EvUpdateSyncCondition gvr ResourceSyncStatusPending ''SynchroCreateFailed''
                              (''new resource synchro failed: '' @ formatError ''s'' err)) (m g)"])
        using wm None
        by (simp add: s1 updateSyncConditions_eq emit_def list_all_iff map_fst_fold_UpdateSyncCondition)
    next
      case (Inr synchro)
      define tail where "tail = (case handlerStopCh s of None \<Rightarrow> []
                                 | Some ch \<Rightarrow> (case chan_recv ch of Block \<Rightarrow> [EvSynchroStart g] | _ \<Rightarrow> []))"
      have "createSynchro env m (g, config) s =
              startIfRunning g
                (updateSyncConditions m g ResourceSyncStatusUnknown [] []
                   (emit [EvNewResourceSynchro g cfg, EvSynchroRun g]
                      (s1\<lparr>waitGroup := waitGroup s1 + 1,
                           storageResourceSynchros := AList.update g synchro (storageResourceSynchros s1)\<rparr>)))"
        using None \<open>NewResourceStorage env (resourceStorageConfig config) = Inr resourceStorage\<close> en Inr
        by (simp add: createSynchro_def cfg_def)
      then show ?thesis
        apply (intro exI[of _ "waitGroup s + 1"] exI[of _ wmNew]
                 exI[of _ "AList.update g synchro (storageResourceSynchros s)"]
                 exI[of _ "fold (\<lambda>gvr. UpdateSyncCondition gvr ResourceSyncStatusUnknown [] []) (m g)"]
                 exI[of _ "[EvNewResourceStorage g (resourceStorageConfig config), EvNewResourceSynchro g cfg,
                            EvSynchroRun g] @
                           map (\<lambda>gvr. EvUpdateSyncCondition gvr ResourceSyncStatusUnknown [] []) (m g) @ tail"])
        using wm wmg None
        by (auto simp: s1 updateSyncConditions_eq emit_def list_all_iff startIfRunning_def tail_def map_fst_fold_UpdateSyncCondition
                 split: option.splits outcome.splits)
    qed
  qed
qed

lemma emitsOnly_mono: "emitsOnly P s s' \<Longrightarrow> (\<And>ev. P ev \<Longrightarrow> Q ev) \<Longrightarrow> emitsOnly Q s s'"
  by (auto simp: emitsOnly_def list_all_iff)

lemma createEventOf_not_cleanup: "createEventOf g gvrs ev \<Longrightarrow> \<not> cleanupEvent ev"
  by (cases ev) simp_all

lemma createSynchro_emits:
  "emitsOnly (createEventOf g (m g)) s (createSynchro env m (g, config) s)"
proof -
  from createSynchro_char[of env m g config s]
  obtain wg wmNew regNew conds evs where
    "createSynchro env m (g, config) s =
       s\<lparr>waitGroup := wg, storageResourceVersions := wmNew, storageResourceSynchros := regNew,
         groupResourceStatus := map_option conds (groupResourceStatus s), trace := trace s @ evs\<rparr>"
    and "list_all (createEventOf g (m g)) evs"
    by blast
  then show ?thesis by (simp add: emitsOnly_def)
qed

lemma createSynchro_other:
  assumes "g' \<noteq> g"
  shows "map_of (storageResourceSynchros (createSynchro env m (g, config) s)) g' =
           map_of (storageResourceSynchros s) g' \<and>
         map_of (storageResourceVersions (createSynchro env m (g, config) s)) g' =
           map_of (storageResourceVersions s) g'"
proof -
  from createSynchro_char[of env m g config s]
  obtain wg wmNew regNew conds evs where
    eq: "createSynchro env m (g, config) s =
       s\<lparr>waitGroup := wg, storageResourceVersions := wmNew, storageResourceSynchros := regNew,
         groupResourceStatus := map_option conds (groupResourceStatus s), trace := trace s @ evs\<rparr>"
    and wm: "wmNew = storageResourceVersions s \<or>
        map_of (storageResourceVersions s) g = None \<and>
        wmNew = AList.update g \<lparr>Resources = Some [], Events = Some []\<rparr> (storageResourceVersions s)"
    and reg: "regNew = storageResourceSynchros s \<or>
        map_of (storageResourceSynchros s) g = None \<and> map_of wmNew g \<noteq> None \<and>
        (\<exists>synchro. regNew = AList.update g synchro (storageResourceSynchros s))"
    by blast
  from wm assms have "map_of wmNew g' = map_of (storageResourceVersions s) g'"
    by (auto simp: update_conv')
  moreover from reg assms have "map_of regNew g' = map_of (storageResourceSynchros s) g'"
    by (auto simp: update_conv')
  ultimately show ?thesis by (simp add: eq)
qed

lemma filter_update_planned:
  assumes "map_of plan g \<noteq> None"
  shows "filter (\<lambda>k. map_of plan k = None) (map fst (AList.update g v al)) =
         filter (\<lambda>k. map_of plan k = None) (map fst al)"
  using assms by (auto simp: update_keys)

lemma createSynchro_unplanned:
  assumes "map_of plan g \<noteq> None"
  shows "filter (\<lambda>k. map_of plan k = None) (map fst (storageResourceSynchros (createSynchro env m (g, config) s))) =
           filter (\<lambda>k. map_of plan k = None) (map fst (storageResourceSynchros s)) \<and>
         filter (\<lambda>k. map_of plan k = None) (map fst (storageResourceVersions (createSynchro env m (g, config) s))) =
           filter (\<lambda>k. map_of plan k = None) (map fst (storageResourceVersions s))"
proof -
  from createSynchro_char[of env m g config s]
  obtain wg wmNew regNew conds evs where
    eq: "createSynchro env m (g, config) s =
       s\<lparr>waitGroup := wg, storageResourceVersions := wmNew, storageResourceSynchros := regNew,
         groupResourceStatus := map_option conds (groupResourceStatus s), trace := trace s @ evs\<rparr>"
    and wm: "wmNew = storageResourceVersions s \<or>
        map_of (storageResourceVersions s) g = None \<and>
        wmNew = AList.update g \<lparr>Resources = Some [], Events = Some []\<rparr> (storageResourceVersions s)"
    and reg: "regNew = storageResourceSynchros s \<or>
        map_of (storageResourceSynchros s) g = None \<and> map_of wmNew g \<noteq> None \<and>
        (\<exists>synchro. regNew = AList.update g synchro (storageResourceSynchros s))"
    by blast
  from wm have "filter (\<lambda>k. map_of plan k = None) (map fst wmNew) =
                filter (\<lambda>k. map_of plan k = None) (map fst (storageResourceVersions s))"
    using filter_update_planned[OF assms] by auto
  moreover from reg have "filter (\<lambda>k. map_of plan k = None) (map fst regNew) =
                filter (\<lambda>k. map_of plan k = None) (map fst (storageResourceSynchros s))"
    using filter_update_planned[OF assms] by auto
  ultimately show ?thesis by (simp add: eq)
qed

lemma fold_createSynchro_emits:
  "emitsOnly (\<lambda>ev. \<not> cleanupEvent ev) s (fold (createSynchro env m) plan s)"
proof (induction plan arbitrary: s)
  case Nil
  show ?case by (simp add: emitsOnly_refl)
next
  case (Cons e plan)
  obtain g config where e: "e = (g, config)" by (cases e)
  have "emitsOnly (\<lambda>ev. \<not> cleanupEvent ev) s (createSynchro env m e s)"
    unfolding e by (rule emitsOnly_mono[OF createSynchro_emits]) (rule createEventOf_not_cleanup)
  from emitsOnly_trans[OF this Cons.IH] show ?case by simp
qed

lemma fold_createSynchro_other:
  "g' \<notin> fst ` set plan \<Longrightarrow>
   map_of (storageResourceSynchros (fold (createSynchro env m) plan s)) g' =
     map_of (storageResourceSynchros s) g' \<and>
   map_of (storageResourceVersions (fold (createSynchro env m) plan s)) g' =
     map_of (storageResourceVersions s) g'"
proof (induction plan arbitrary: s)
  case Nil
  show ?case by simp
next
  case (Cons e plan)
  obtain g config where e: "e = (g, config)" by (cases e)
  from Cons.prems e have ne: "g' \<noteq> g" and rest: "g' \<notin> fst ` set plan" by auto
  from Cons.IH[OF rest, of "createSynchro env m e s"] createSynchro_other[OF ne, of env m config s]
  show ?case by (simp add: e)
qed

lemma fold_createSynchro_unplanned:
  "(\<And>e. e \<in> set es \<Longrightarrow> map_of plan (fst e) \<noteq> None) \<Longrightarrow>
   filter (\<lambda>k. map_of plan k = None) (map fst (storageResourceSynchros (fold (createSynchro env m) es s))) =
     filter (\<lambda>k. map_of plan k = None) (map fst (storageResourceSynchros s)) \<and>
   filter (\<lambda>k. map_of plan k = None) (map fst (storageResourceVersions (fold (createSynchro env m) es s))) =
     filter (\<lambda>k. map_of plan k = None) (map fst (storageResourceVersions s))"
proof (induction es arbitrary: s)
  case Nil
  show ?case by simp
next
  case (Cons e es)
  obtain g config where e: "e = (g, config)" by (cases e)
  have p: "map_of plan g \<noteq> None" using Cons.prems[of e] e by simp
  have rest: "\<And>e'. e' \<in> set es \<Longrightarrow> map_of plan (fst e') \<noteq> None" using Cons.prems by simp
  from Cons.IH[OF rest, of "createSynchro env m e s"] createSynchro_unplanned[OF p, of env m config s]
  show ?case by (simp add: e)
qed

lemma plan_entries_planned: "e \<in> set plan \<Longrightarrow> map_of plan (fst e) \<noteq> None"
  by (metis domIff dom_map_of_conv_image_fst imageI)

lemma closeStep_trace:
  "trace ((updateSyncConditions m a ResourceSyncStatusStop ''SynchroRemoved''
                ''the resource synchro is moved'' (emit [EvSynchroClose a, EvSynchroClosed a] s))
             \<lparr>storageResourceSynchros := AList.delete a (storageResourceSynchros s)\<rparr>)
   = trace s @ closeSegment m a"
  by (simp add: updateSyncConditions_eq emit_def closeSegment_def)

lemma closeStep_registry:
  "map_of (storageResourceSynchros ((updateSyncConditions m a ResourceSyncStatusStop ''SynchroRemoved''
                ''the resource synchro is moved'' (emit [EvSynchroClose a, EvSynchroClosed a] s))
             \<lparr>storageResourceSynchros := AList.delete a (storageResourceSynchros s)\<rparr>))
   = (map_of (storageResourceSynchros s))(a := None)"
  by (simp add: delete_conv')

lemma closeSynchros_emits:
  "emitsOnly (\<lambda>ev. \<not> cleanupEvent ev) s (snd (closeSynchros env m gs s))"
proof (induction gs arbitrary: s)
  case Nil
  show ?case by (simp add: emitsOnly_refl)
next
  case (Cons a gs)
  let ?s1 = "(updateSyncConditions m a ResourceSyncStatusStop ''SynchroRemoved''
                ''the resource synchro is moved'' (emit [EvSynchroClose a, EvSynchroClosed a] s))
             \<lparr>storageResourceSynchros := AList.delete a (storageResourceSynchros s)\<rparr>"
  have a: "emitsOnly (\<lambda>ev. \<not> cleanupEvent ev) s ?s1"
    by (auto simp: emitsOnly_def closeStep_trace closeSegment_def list_all_iff)
  have b: "emitsOnly (\<lambda>ev. \<not> cleanupEvent ev) s (emit [EvSynchroClose a] s)"
    by (simp add: emitsOnly_def emit_def)
  show ?case
    using Cons.IH[of s] emitsOnly_trans[OF a Cons.IH[of ?s1]] b
    by (simp split: option.splits)
qed

lemma closeSynchros_segment:
  "g \<in> set (takeWhile (CloseCompletes env) gs) \<Longrightarrow> map_of (storageResourceSynchros s) g = Some y \<Longrightarrow>
   (\<exists>pre post. trace (snd (closeSynchros env m gs s)) = trace s @ pre @ closeSegment m g @ post) \<and>
   map_of (storageResourceSynchros (snd (closeSynchros env m gs s))) g = None"
proof (induction gs arbitrary: s)
  case Nil
  then show ?case by simp
next
  case (Cons a gs)
  let ?s1 = "(updateSyncConditions m a ResourceSyncStatusStop ''SynchroRemoved''
                ''the resource synchro is moved'' (emit [EvSynchroClose a, EvSynchroClosed a] s))
             \<lparr>storageResourceSynchros := AList.delete a (storageResourceSynchros s)\<rparr>"
  from Cons.prems(1) have ca: "CloseCompletes env a"
    by (auto split: if_splits)
  show ?case
  proof (cases "a = g")
    case True
    from closeSynchros_emits[of ?s1 env m gs]
    obtain post where post: "trace (snd (closeSynchros env m gs ?s1)) = trace ?s1 @ post"
      by (auto simp: emitsOnly_def)
    have gone: "map_of (storageResourceSynchros ?s1) g = None"
      using True by (simp add: delete_conv')
    have stays: "map_of (storageResourceSynchros (snd (closeSynchros env m gs ?s1))) g = None"
    proof (cases "map_of (storageResourceSynchros (snd (closeSynchros env m gs ?s1))) g")
      case (Some z)
      with closeSynchros_shrinks[of env m gs ?s1 g] gone show ?thesis by simp
    qed simp
    have "trace (snd (closeSynchros env m gs ?s1)) = trace s @ [] @ closeSegment m g @ post"
      using post True by (simp add: closeStep_trace)
    then have "\<exists>pre post. trace (snd (closeSynchros env m gs ?s1)) = trace s @ pre @ closeSegment m g @ post"
      by blast
    with stays ca Cons.prems(2) True show ?thesis by simp
  next
    case False
    with Cons.prems(1) ca have mem: "g \<in> set (takeWhile (CloseCompletes env) gs)" by simp
    show ?thesis
    proof (cases "map_of (storageResourceSynchros s) a")
      case None
      with Cons.IH[OF mem Cons.prems(2)] show ?thesis by simp
    next
      case (Some synchro)
      have keep: "map_of (storageResourceSynchros ?s1) g = Some y"
        using False Cons.prems(2) by (simp add: delete_conv')
      from Cons.IH[OF mem keep]
      obtain pre post where
        tr: "trace (snd (closeSynchros env m gs ?s1)) = trace ?s1 @ pre @ closeSegment m g @ post"
        and gone: "map_of (storageResourceSynchros (snd (closeSynchros env m gs ?s1))) g = None"
        by blast
      have "trace (snd (closeSynchros env m gs ?s1)) = trace s @ (closeSegment m a @ pre) @ closeSegment m g @ post"
        using tr by (simp add: closeStep_trace)
      then have "\<exists>pre post. trace (snd (closeSynchros env m gs ?s1)) = trace s @ pre @ closeSegment m g @ post"
        by blast
      with gone Some ca show ?thesis by simp
    qed
  qed
qed

lemma closeSynchros_fst:
  "(\<And>g. g \<in> set gs \<Longrightarrow> map_of (storageResourceSynchros s) g \<noteq> None \<or> CloseCompletes env g) \<Longrightarrow>
   fst (closeSynchros env m gs s) = list_all (CloseCompletes env) gs \<and>
   (\<not> list_all (CloseCompletes env) gs \<longrightarrow>
      (\<exists>pre g'. g' \<in> set gs \<and> \<not> CloseCompletes env g' \<and>
         trace (snd (closeSynchros env m gs s)) = trace s @ pre @ [EvSynchroClose g'] \<and>
         map_of (storageResourceSynchros (snd (closeSynchros env m gs s))) g' \<noteq> None))"
proof (induction gs arbitrary: s)
  case Nil
  show ?case by simp
next
  case (Cons a gs)
  let ?s1 = "(updateSyncConditions m a ResourceSyncStatusStop ''SynchroRemoved''
                ''the resource synchro is moved'' (emit [EvSynchroClose a, EvSynchroClosed a] s))
             \<lparr>storageResourceSynchros := AList.delete a (storageResourceSynchros s)\<rparr>"
  show ?case
  proof (cases "map_of (storageResourceSynchros s) a")
    case None
    with Cons.prems[of a] have ca: "CloseCompletes env a" by simp
    have "\<And>g. g \<in> set gs \<Longrightarrow> map_of (storageResourceSynchros s) g \<noteq> None \<or> CloseCompletes env g"
      using Cons.prems by simp
    from Cons.IH[OF this] None ca show ?thesis by auto
  next
    case (Some synchro)
    show ?thesis
    proof (cases "CloseCompletes env a")
      case False
      have "trace (emit [EvSynchroClose a] s) = trace s @ [] @ [EvSynchroClose a]"
        by (simp add: emit_def)
      moreover have "map_of (storageResourceSynchros (emit [EvSynchroClose a] s)) a \<noteq> None"
        using Some by (simp add: emit_def)
      ultimately show ?thesis using Some False by auto
    next
      case True
      have pre1: "\<And>g. g \<in> set gs \<Longrightarrow> map_of (storageResourceSynchros ?s1) g \<noteq> None \<or> CloseCompletes env g"
        using Cons.prems True by (auto simp: delete_conv')
      note ih = Cons.IH[OF pre1]
      have res: "closeSynchros env m (a # gs) s = closeSynchros env m gs ?s1"
        using Some True by simp
      show ?thesis
      proof (cases "list_all (CloseCompletes env) gs")
        case all: True
        with ih True res show ?thesis by simp
      next
        case notall: False
        with ih obtain pre g' where g': "g' \<in> set gs" "\<not> CloseCompletes env g'"
          and tr: "trace (snd (closeSynchros env m gs ?s1)) = trace ?s1 @ pre @ [EvSynchroClose g']"
          and rg: "map_of (storageResourceSynchros (snd (closeSynchros env m gs ?s1))) g' \<noteq> None"
          by blast
        have "trace (snd (closeSynchros env m gs ?s1)) = trace s @ (closeSegment m a @ pre) @ [EvSynchroClose g']"
          using tr by (simp add: closeStep_trace)
        with g' rg have "\<exists>pre g'. g' \<in> set (a # gs) \<and> \<not> CloseCompletes env g' \<and>
             trace (snd (closeSynchros env m gs ?s1)) = trace s @ pre @ [EvSynchroClose g'] \<and>
             map_of (storageResourceSynchros (snd (closeSynchros env m gs ?s1))) g' \<noteq> None"
          by (metis list.set_intros(2))
        with ih notall True res show ?thesis by simp
      qed
    qed
  qed
qed

lemma fold_removeAll: "fold removeAll xs d = filter (\<lambda>x. x \<notin> set xs) d"
proof (induction xs arbitrary: d)
  case Nil
  show ?case by simp
next
  case (Cons a xs)
  have "fold removeAll (a # xs) d = filter (\<lambda>x. x \<notin> set xs) (removeAll a d)"
    using Cons.IH[of "removeAll a d"] by simp
  also have "\<dots> = filter (\<lambda>x. x \<notin> set (a # xs)) d"
    by (induction d) auto
  finally show ?case .
qed

lemma cleanResource_step:
  "map_of plan g = None \<Longrightarrow> panicked (fst (cleanResource env m plan g (s, d))) = None \<Longrightarrow>
   trace (fst (cleanResource env m plan g (s, d))) = trace s @ cleanEvents env m (name s) g \<and>
   name (fst (cleanResource env m plan g (s, d))) = name s \<and>
   snd (cleanResource env m plan g (s, d)) =
     filter (\<lambda>gvr. CleanClusterResource env (name s) g \<noteq> None \<longrightarrow> gvr \<notin> set (m g)) d"
  by (auto simp: cleanResource_def updateSyncConditions_eq emit_def cleanEvents_def fold_removeAll Let_def
           split: option.splits if_splits)

lemma cleanResource_skip:
  "map_of plan g \<noteq> None \<Longrightarrow> cleanResource env m plan g (s, d) = (s, d)"
  by (auto simp: cleanResource_def)

lemma cleanResource_name: "name (fst (cleanResource env m plan g st)) = name (fst st)"
  by (cases st)
     (auto simp: cleanResource_def updateSyncConditions_eq emit_def Let_def split: option.splits)

lemma fold_cleanResource_eq:
  "panicked (fst (fold (cleanResource env m plan) gs (s, d))) = None \<Longrightarrow>
   trace (fst (fold (cleanResource env m plan) gs (s, d))) =
     trace s @ concat (map (cleanEvents env m (name s)) (filter (\<lambda>g. map_of plan g = None) gs)) \<and>
   name (fst (fold (cleanResource env m plan) gs (s, d))) = name s \<and>
   snd (fold (cleanResource env m plan) gs (s, d)) =
     filter (\<lambda>gvr. \<forall>g\<in>set gs. map_of plan g = None \<and> CleanClusterResource env (name s) g \<noteq> None
                        \<longrightarrow> gvr \<notin> set (m g)) d"
proof (induction gs arbitrary: s d)
  case Nil
  show ?case by simp
next
  case (Cons a gs)
  show ?case
  proof (cases "map_of plan a = None")
    case False
    then obtain c where c: "map_of plan a = Some c" by auto
    have sk: "cleanResource env m plan a (s, d) = (s, d)"
      using False by (rule cleanResource_skip)
    from Cons.prems sk have "panicked (fst (fold (cleanResource env m plan) gs (s, d))) = None" by simp
    from Cons.IH[OF this] c sk show ?thesis by simp
  next
    case True
    obtain s1 d1 where st: "cleanResource env m plan a (s, d) = (s1, d1)"
      by (cases "cleanResource env m plan a (s, d)")
    from fold_cleanResource_steps(2)[OF Cons.prems] st have p1: "panicked s1 = None" by simp
    from cleanResource_step[OF True, of env m s d] st p1
    have t1: "trace s1 = trace s @ cleanEvents env m (name s) a" and n1: "name s1 = name s"
      and d1: "d1 = filter (\<lambda>gvr. CleanClusterResource env (name s) a \<noteq> None \<longrightarrow> gvr \<notin> set (m a)) d"
      by simp_all
    from Cons.prems st have "panicked (fst (fold (cleanResource env m plan) gs (s1, d1))) = None" by simp
    from Cons.IH[OF this] st
    have t2: "trace (fst (fold (cleanResource env m plan) (a # gs) (s, d))) =
                trace s1 @ concat (map (cleanEvents env m (name s1)) (filter (\<lambda>g. map_of plan g = None) gs))"
      and n2: "name (fst (fold (cleanResource env m plan) (a # gs) (s, d))) = name s1"
      and d2: "snd (fold (cleanResource env m plan) (a # gs) (s, d)) =
                filter (\<lambda>gvr. \<forall>g\<in>set gs. map_of plan g = None \<and> CleanClusterResource env (name s1) g \<noteq> None
                        \<longrightarrow> gvr \<notin> set (m g)) d1"
      by simp_all
    have d3: "filter (\<lambda>gvr. \<forall>g\<in>set gs. map_of plan g = None \<and> CleanClusterResource env (name s) g \<noteq> None
                        \<longrightarrow> gvr \<notin> set (m g))
                (filter (\<lambda>gvr. CleanClusterResource env (name s) a \<noteq> None \<longrightarrow> gvr \<notin> set (m a)) d) =
              filter (\<lambda>gvr. \<forall>g\<in>set (a # gs). map_of plan g = None \<and> CleanClusterResource env (name s) g \<noteq> None
                        \<longrightarrow> gvr \<notin> set (m g)) d"
      using True by (induction d) auto
    show ?thesis
      using t2 n2 d2 d3 t1 n1 d1 True by simp
  qed
qed

text \<open>The clean-up loop does not panic when no error of \<open>CleanClusterResource\<close> has an
  \<^verbatim>\<open>Error()\<close> that panics.\<close>

lemma fold_cleanResource_no_panic:
  "panicked s = None \<Longrightarrow>
   (\<And>g err. g \<in> set gs \<Longrightarrow> map_of plan g = None \<Longrightarrow> CleanClusterResource env (name s) g = Some err \<Longrightarrow>
      Error err \<noteq> None) \<Longrightarrow>
   panicked (fst (fold (cleanResource env m plan) gs (s, d))) = None"
proof (induction gs arbitrary: s d)
  case Nil
  then show ?case by simp
next
  case (Cons a gs)
  obtain s1 d1 where st: "cleanResource env m plan a (s, d) = (s1, d1)"
    by (cases "cleanResource env m plan a (s, d)")
  have n1: "name s1 = name s"
    using cleanResource_name[of env m plan a "(s, d)"] st by simp
  have p1: "panicked s1 = None"
    using st Cons.prems(1) Cons.prems(2)[of a]
    by (auto simp: cleanResource_def updateSyncConditions_eq emit_def Let_def split: option.splits)
  have "\<And>g err. g \<in> set gs \<Longrightarrow> map_of plan g = None \<Longrightarrow> CleanClusterResource env (name s1) g = Some err \<Longrightarrow>
          Error err \<noteq> None"
    using Cons.prems(2) n1 by (metis list.set_intros(2))
  from Cons.IH[OF p1 this, where d = d1] st show ?case by simp
qed

lemma map_of_split:
  "map_of xs k = Some v \<Longrightarrow> \<exists>ys zs. xs = ys @ (k, v) # zs \<and> k \<notin> fst ` set ys"
proof (induction xs)
  case Nil
  then show ?case by simp
next
  case (Cons x xs)
  obtain k' v' where x: "x = (k', v')" by (cases x)
  show ?case
  proof (cases "k' = k")
    case True
    with Cons.prems x have "x # xs = [] @ (k, v) # xs \<and> k \<notin> fst ` set []" by simp
    then show ?thesis by blast
  next
    case False
    with Cons.prems x have "map_of xs k = Some v" by simp
    from Cons.IH[OF this] obtain ys zs where "xs = ys @ (k, v) # zs" "k \<notin> fst ` set ys" by blast
    with False x have "x # xs = (x # ys) @ (k, v) # zs \<and> k \<notin> fst ` set (x # ys)" by auto
    then show ?thesis by blast
  qed
qed

lemma sameKeys_refl: "sameKeys s s"
  by (simp add: sameKeys_def)

lemma sameKeys_trans: "sameKeys s s' \<Longrightarrow> sameKeys s' s'' \<Longrightarrow> sameKeys s s''"
  by (simp add: sameKeys_def)

lemma sameKeys_updateSyncConditions:
  "sameKeys s (updateSyncConditions m g status reason message s)"
  by (cases "groupResourceStatus s")
     (simp_all add: sameKeys_def updateSyncConditions_eq map_fst_fold_UpdateSyncCondition)

lemma sameKeys_createSynchro: "sameKeys s (createSynchro env m e s)"
proof -
  obtain g config where e: "e = (g, config)" by (cases e)
  from createSynchro_char[of env m g config s]
  obtain wg wmNew regNew conds evs where
    "createSynchro env m (g, config) s =
       s\<lparr>waitGroup := wg, storageResourceVersions := wmNew, storageResourceSynchros := regNew,
         groupResourceStatus := map_option conds (groupResourceStatus s), trace := trace s @ evs\<rparr>"
    and "\<forall>grs. map fst (conds grs) = map fst grs"
    by blast
  then show ?thesis
    by (cases "groupResourceStatus s") (simp_all add: sameKeys_def e)
qed

lemma sameKeys_fold_createSynchro: "sameKeys s (fold (createSynchro env m) plan s)"
proof (induction plan arbitrary: s)
  case Nil
  show ?case by (simp add: sameKeys_refl)
next
  case (Cons e plan)
  from sameKeys_trans[OF sameKeys_createSynchro Cons.IH] show ?case by simp
qed

lemma sameKeys_closeSynchros: "sameKeys s (snd (closeSynchros env m gs s))"
proof (induction gs arbitrary: s)
  case Nil
  show ?case by (simp add: sameKeys_refl)
next
  case (Cons a gs)
  let ?s1 = "(updateSyncConditions m a ResourceSyncStatusStop ''SynchroRemoved''
                ''the resource synchro is moved'' (emit [EvSynchroClose a, EvSynchroClosed a] s))
             \<lparr>storageResourceSynchros := AList.delete a (storageResourceSynchros s)\<rparr>"
  have a: "sameKeys s ?s1"
    by (cases "groupResourceStatus s")
       (simp_all add: sameKeys_def updateSyncConditions_eq emit_def map_fst_fold_UpdateSyncCondition)
  have b: "sameKeys s (emit [EvSynchroClose a] s)"
    by (simp add: sameKeys_def emit_def)
  show ?case
    using Cons.IH[of s] sameKeys_trans[OF a Cons.IH[of ?s1]] b
    by (simp split: option.splits)
qed

lemma UpdateSyncCondition_mark:
  "list_all (\<lambda>(k, c). k = gvr \<longrightarrow> sc_Status c = st \<and> sc_Reason c = r) grs \<Longrightarrow>
   list_all (\<lambda>(k, c). k = gvr \<longrightarrow> sc_Status c = st \<and> sc_Reason c = r) (UpdateSyncCondition gvr' st r msg grs)"
  by (auto simp: UpdateSyncCondition_def list_all_iff split: if_splits)

lemma UpdateSyncCondition_marks:
  "list_all (\<lambda>(k, c). k = gvr \<longrightarrow> sc_Status c = st \<and> sc_Reason c = r) (UpdateSyncCondition gvr st r msg grs)"
  by (auto simp: UpdateSyncCondition_def list_all_iff split: if_splits)

lemma fold_UpdateSyncCondition_mark:
  "list_all (\<lambda>(k, c). k = gvr \<longrightarrow> sc_Status c = st \<and> sc_Reason c = r) grs \<or> gvr \<in> set gvrs \<Longrightarrow>
   list_all (\<lambda>(k, c). k = gvr \<longrightarrow> sc_Status c = st \<and> sc_Reason c = r)
     (fold (\<lambda>gvr'. UpdateSyncCondition gvr' st r msg) gvrs grs)"
proof (induction gvrs arbitrary: grs)
  case Nil
  then show ?case by simp
next
  case (Cons a gvrs)
  show ?case
  proof (cases "a = gvr")
    case True
    have "list_all (\<lambda>(k, c). k = gvr \<longrightarrow> sc_Status c = st \<and> sc_Reason c = r) (UpdateSyncCondition a st r msg grs)"
      unfolding True by (rule UpdateSyncCondition_marks)
    then show ?thesis using Cons.IH[of "UpdateSyncCondition a st r msg grs"] by simp
  next
    case False
    with Cons.prems have "list_all (\<lambda>(k, c). k = gvr \<longrightarrow> sc_Status c = st \<and> sc_Reason c = r) grs \<or> gvr \<in> set gvrs"
      by auto
    then have "list_all (\<lambda>(k, c). k = gvr \<longrightarrow> sc_Status c = st \<and> sc_Reason c = r) (UpdateSyncCondition a st r msg grs)
               \<or> gvr \<in> set gvrs"
      using UpdateSyncCondition_mark by blast
    then show ?thesis using Cons.IH[of "UpdateSyncCondition a st r msg grs"] by simp
  qed
qed

lemma cleanResource_mark_keep:
  "cleanFailedMark gvr s \<Longrightarrow> cleanFailedMark gvr (fst (cleanResource env m plan g (s, d)))"
  by (cases "groupResourceStatus s")
     (auto simp: cleanFailedMark_def cleanResource_def updateSyncConditions_eq emit_def Let_def
        intro!: fold_UpdateSyncCondition_mark split: option.splits)

lemma cleanResource_mark_set:
  assumes "map_of plan g = None" and "CleanClusterResource env (name s) g = Some err"
      and "gvr \<in> set (m g)" and "groupResourceStatus s \<noteq> None"
      and "panicked (fst (cleanResource env m plan g (s, d))) = None"
  shows "cleanFailedMark gvr (fst (cleanResource env m plan g (s, d)))"
  using assms
  by (auto simp: cleanFailedMark_def cleanResource_def updateSyncConditions_eq emit_def Let_def
        intro!: fold_UpdateSyncCondition_mark split: option.splits if_splits)

lemma cleanResource_sameKeys: "sameKeys s (fst (cleanResource env m plan g (s, d)))"
  by (cases "groupResourceStatus s")
     (auto simp: sameKeys_def cleanResource_def updateSyncConditions_eq emit_def Let_def
        map_fst_fold_UpdateSyncCondition split: option.splits)

lemma fold_cleanResource_sameKeys: "sameKeys s (fst (fold (cleanResource env m plan) gs (s, d)))"
proof (induction gs arbitrary: s d)
  case Nil
  show ?case by (simp add: sameKeys_refl)
next
  case (Cons a gs)
  obtain s1 d1 where st: "cleanResource env m plan a (s, d) = (s1, d1)"
    by (cases "cleanResource env m plan a (s, d)")
  from cleanResource_sameKeys[of s env m plan a d] st have "sameKeys s s1" by simp
  from sameKeys_trans[OF this Cons.IH[of s1 d1]] st show ?case by simp
qed

lemma fold_cleanResource_mark_keep:
  "cleanFailedMark gvr s \<Longrightarrow> cleanFailedMark gvr (fst (fold (cleanResource env m plan) gs (s, d)))"
proof (induction gs arbitrary: s d)
  case Nil
  then show ?case by simp
next
  case (Cons a gs)
  obtain s1 d1 where st: "cleanResource env m plan a (s, d) = (s1, d1)"
    by (cases "cleanResource env m plan a (s, d)")
  from cleanResource_mark_keep[OF Cons.prems, of env m plan a d] st have "cleanFailedMark gvr s1" by simp
  from Cons.IH[OF this, of d1] st show ?case by simp
qed

lemma fold_cleanResource_mark_set:
  assumes "g \<in> set gs" and "map_of plan g = None" and "CleanClusterResource env (name s) g = Some err"
      and "gvr \<in> set (m g)" and "groupResourceStatus s \<noteq> None"
      and "panicked (fst (fold (cleanResource env m plan) gs (s, d))) = None"
  shows "cleanFailedMark gvr (fst (fold (cleanResource env m plan) gs (s, d)))"
  using assms
proof (induction gs arbitrary: s d)
  case Nil
  then show ?case by simp
next
  case (Cons a gs)
  obtain s1 d1 where st: "cleanResource env m plan a (s, d) = (s1, d1)"
    by (cases "cleanResource env m plan a (s, d)")
  from fold_cleanResource_steps(2)[OF Cons.prems(6)] st have p1: "panicked s1 = None" by simp
  from Cons.prems(6) st have pf: "panicked (fst (fold (cleanResource env m plan) gs (s1, d1))) = None"
    by simp
  have n1: "name s1 = name s"
    using cleanResource_name[of env m plan a "(s, d)"] st by simp
  have k1: "groupResourceStatus s1 \<noteq> None"
    using cleanResource_sameKeys[of s env m plan a d] st Cons.prems(5)
    by (auto simp: sameKeys_def)
  show ?case
  proof (cases "a = g")
    case True
    from cleanResource_mark_set[where m = m and g = g and gvr = gvr and plan = plan and env = env and s = s and err = err and d = d]
      Cons.prems(2,3,4,5) st True p1 have "cleanFailedMark gvr s1" by simp
    from fold_cleanResource_mark_keep[OF this, of env m plan gs d1] st show ?thesis by simp
  next
    case False
    with Cons.prems(1) have "g \<in> set gs" by simp
    from Cons.IH[where s = s1 and d = d1] this Cons.prems(2,3,4) k1 n1 st pf
    show ?thesis by simp
  qed
qed

lemma delete_eq_filter: "AList.delete a grs = filter (\<lambda>(k, c). k \<noteq> a) grs"
  by (induction grs) auto

lemma fold_delete_eq_filter: "fold AList.delete ds grs = filter (\<lambda>(k, c). k \<notin> set ds) grs"
proof (induction ds arbitrary: grs)
  case Nil
  show ?case by simp
next
  case (Cons a ds)
  have "fold AList.delete (a # ds) grs = fold AList.delete ds (AList.delete a grs)"
    by simp
  also have "\<dots> = filter (\<lambda>(k, c). k \<notin> set ds) (AList.delete a grs)"
    by (rule Cons.IH)
  also have "\<dots> = filter (\<lambda>(k, c). k \<notin> set ds) (filter (\<lambda>(k, c). k \<noteq> a) grs)"
    by (simp only: delete_eq_filter)
  also have "\<dots> = filter (\<lambda>(k, c). k \<notin> set (a # ds)) grs"
    by (induction grs) auto
  finally show ?case .
qed

lemma fold_DeleteVersion: "fold DeleteVersion ds grs = filter (\<lambda>(k, c). k \<notin> set ds) grs"
proof -
  have "DeleteVersion = AList.delete" by (intro ext) (simp add: DeleteVersion_def)
  then show ?thesis by (simp add: fold_delete_eq_filter)
qed

lemma deleteVersions_mark:
  assumes "cleanFailedMark gvr s" and "gvr \<notin> set ds"
      and "gvr \<in> set (map fst grs)" and "groupResourceStatus s = Some grs"
      and "panicked s = None"
  shows "\<exists>final. groupResourceStatus (deleteVersions ds s) = Some final \<and>
           gvr \<in> fst ` set final \<and>
           (\<forall>c. (gvr, c) \<in> set final \<longrightarrow>
              sc_Status c = ResourceSyncStatusStop \<and> sc_Reason c = ''CleanResourceFailed'')"
proof -
  have g: "groupResourceStatus (deleteVersions ds s) = Some (filter (\<lambda>(k, c). k \<notin> set ds) grs)"
    using assms(4,5) by (simp add: deleteVersions_eq fold_DeleteVersion)
  have a: "gvr \<in> fst ` set (filter (\<lambda>(k, c). k \<notin> set ds) grs)"
    using assms(2,3) by force
  have b: "\<forall>c. (gvr, c) \<in> set (filter (\<lambda>(k, c). k \<notin> set ds) grs) \<longrightarrow>
              sc_Status c = ResourceSyncStatusStop \<and> sc_Reason c = ''CleanResourceFailed''"
    using assms(1,4) by (auto simp: cleanFailedMark_def list_all_iff)
  from g a b show ?thesis by blast
qed

lemma refreshWith_unfold:
  "Merge negotiated (groupResourceStatus s) = (status, deleted) \<Longrightarrow>
   refreshWith env negotiated plan s =
     closeAndClean env (GetStorageGVRToSyncGVRs status) plan deleted
       (fold (createSynchro env (GetStorageGVRToSyncGVRs status)) plan
          (s\<lparr>groupResourceStatus := Some status\<rparr>))"
  by (simp add: refreshWith_def closeAndClean_def Let_def)

lemma closeAndClean_extends: "\<exists>evs. trace (closeAndClean env m plan deleted s1) = trace s1 @ evs"
proof -
  obtain fin s2 where cl: "closeSynchros env m (removedStorageGVRs plan s1) s1 = (fin, s2)"
    by (cases "closeSynchros env m (removedStorageGVRs plan s1) s1")
  obtain s3 deleted' where cn:
    "fold (cleanResource env m plan) (map fst (storageResourceVersions s2)) (s2, deleted) = (s3, deleted')"
    by (cases "fold (cleanResource env m plan) (map fst (storageResourceVersions s2)) (s2, deleted)")
  from closeSynchros_emits[of s1 env m "removedStorageGVRs plan s1"] cl
  obtain e2 where e2: "trace s2 = trace s1 @ e2" by (auto simp: emitsOnly_def)
  from fold_cleanResource_registry[where env = env and m = m and plan = plan
        and gs = "map fst (storageResourceVersions s2)" and st = "(s2, deleted)" and g' = undefined] cn
  obtain e3 where e3: "trace s3 = trace s2 @ e3" by (auto simp: emitsOnly_def)
  have e4: "\<exists>e4. trace (deleteVersions deleted' s3) = trace s3 @ e4"
    by (simp add: deleteVersions_eq)
  have "closeAndClean env m plan deleted s1 = (if fin then deleteVersions deleted' s3 else s2)"
    using cl cn by (simp add: closeAndClean_def)
  with e2 e3 e4 show ?thesis by auto
qed

lemma fold_UpdateSyncCondition_eq:
  "fold (\<lambda>gvr. UpdateSyncCondition gvr st r msg) gvrs grs =
     map (\<lambda>(k, c). if k \<in> set gvrs then (k, c\<lparr>sc_Status := st, sc_Reason := r, sc_Message := msg\<rparr>)
                    else (k, c)) grs"
proof (induction gvrs arbitrary: grs)
  case Nil
  show ?case by (induction grs) auto
next
  case (Cons a gvrs)
  have "fold (\<lambda>gvr. UpdateSyncCondition gvr st r msg) (a # gvrs) grs =
          map (\<lambda>(k, c). if k \<in> set gvrs then (k, c\<lparr>sc_Status := st, sc_Reason := r, sc_Message := msg\<rparr>)
                         else (k, c)) (UpdateSyncCondition a st r msg grs)"
    using Cons.IH[of "UpdateSyncCondition a st r msg grs"] by simp
  also have "\<dots> = map (\<lambda>(k, c). if k \<in> set (a # gvrs)
                         then (k, c\<lparr>sc_Status := st, sc_Reason := r, sc_Message := msg\<rparr>)
                         else (k, c)) grs"
    by (induction grs) (auto simp: UpdateSyncCondition_def)
  finally show ?case .
qed

lemma createSynchro_storage_fails:
  assumes "map_of (storageResourceSynchros s) g = None"
      and "NewResourceStorage env (resourceStorageConfig config) = Inl err"
  shows "trace (createSynchro env m (g, config) s) =
           trace s @ EvNewResourceStorage g (resourceStorageConfig config) #
             map (\<lambda>gvr. EvUpdateSyncCondition gvr ResourceSyncStatusPending ''SynchroCreateFailed''
                          (''new resource storage failed: '' @ formatError ''s'' err)) (m g)"
  using assms by (simp add: createSynchro_def updateSyncConditions_eq emit_def)

lemma createSynchro_synchro_fails:
  assumes "map_of (storageResourceSynchros s) g = None"
      and "NewResourceStorage env (resourceStorageConfig config) = Inr resourceStorage"
      and "NewResourceSynchro env (resourceSynchroFactory s) (name s)
             (synchroConfig env s config (fst (ensureResourceVersions g s)) resourceStorage) = Inl err"
  shows "trace (createSynchro env m (g, config) s) =
           trace s @ [EvNewResourceStorage g (resourceStorageConfig config),
                      EvNewResourceSynchro g
                        (synchroConfig env s config (fst (ensureResourceVersions g s)) resourceStorage)] @
             map (\<lambda>gvr. EvUpdateSyncCondition gvr ResourceSyncStatusPending ''SynchroCreateFailed''
                          (''new resource synchro failed: '' @ formatError ''s'' err)) (m g)"
proof -
  obtain rvs s1 where en: "ensureResourceVersions g
          (emit [EvNewResourceStorage g (resourceStorageConfig config)] s) = (rvs, s1)"
    by (cases "ensureResourceVersions g (emit [EvNewResourceStorage g (resourceStorageConfig config)] s)")
  have rvs: "rvs = fst (ensureResourceVersions g s)"
    using en by (auto simp: ensureResourceVersions_def emit_def Let_def split: option.splits)
  have fr: "resourceSynchroFactory s1 = resourceSynchroFactory s" "name s1 = name s"
           "trace s1 = trace s @ [EvNewResourceStorage g (resourceStorageConfig config)]"
    using en by (auto simp: ensureResourceVersions_def emit_def Let_def split: option.splits)
  have cfg: "synchroConfig env s1 config rvs resourceStorage =
             synchroConfig env s config (fst (ensureResourceVersions g s)) resourceStorage"
    using en rvs by (auto simp: ensureResourceVersions_def emit_def Let_def synchroConfig_def split: option.splits)
  have "createSynchro env m (g, config) s =
          updateSyncConditions m g ResourceSyncStatusPending ''SynchroCreateFailed''
             (''new resource synchro failed: '' @ formatError ''s'' err)
             (emit [EvNewResourceSynchro g
                     (synchroConfig env s config (fst (ensureResourceVersions g s)) resourceStorage)] s1)"
    using assms en by (simp add: createSynchro_def cfg fr)
  then show ?thesis by (simp add: updateSyncConditions_eq emit_def fr)
qed



lemma refreshFrame_config:
  assumes "refreshFrame s s'"
  shows "resourceSynchroFactory s' = resourceSynchroFactory s" "name s' = name s"
        "synchroConfig env s' = synchroConfig env s"
proof -
  from assms have eq: "s' = s\<lparr>waitGroup := waitGroup s', storageResourceVersions := storageResourceVersions s',
             storageResourceSynchros := storageResourceSynchros s',
             groupResourceStatus := groupResourceStatus s', panicked := panicked s',
             trace := trace s'\<rparr>"
    by (simp add: refreshFrame_def)
  show "resourceSynchroFactory s' = resourceSynchroFactory s"
    using arg_cong[OF eq, of resourceSynchroFactory] by simp
  show "name s' = name s" using arg_cong[OF eq, of name] by simp
  have "listerWatcherFactory s' = listerWatcherFactory s" "syncConfig s' = syncConfig s"
       "eventsListerWatcher s' = eventsListerWatcher s" "name s' = name s"
    using arg_cong[OF eq, of listerWatcherFactory] arg_cong[OF eq, of syncConfig]
          arg_cong[OF eq, of eventsListerWatcher] arg_cong[OF eq, of name] by simp_all
  then show "synchroConfig env s' = synchroConfig env s"
    by (intro ext) (simp add: synchroConfig_def split: option.splits)
qed

lemma ensureResourceVersions_fst_cong:
  "map_of (storageResourceVersions s') g = map_of (storageResourceVersions s) g \<Longrightarrow>
   fst (ensureResourceVersions g s') = fst (ensureResourceVersions g s)"
  by (auto simp: ensureResourceVersions_def Let_def split: option.splits)

text \<open>The refresh passes through the iteration of the creation loop for a planned storage
  GVR that has no reconciler: the state before it has the registry and watermark entries
  of \<open>g\<close> and the configuration fields of the state at the start.\<close>

lemma refreshWith_creation_step:
  assumes mg: "Merge negotiated (groupResourceStatus s) = (status, deleted)"
      and plan: "map_of plan g = Some config"
      and reg: "map_of (storageResourceSynchros s) g = None"
  shows "\<exists>sA pre post.
           trace sA = trace s @ pre \<and>
           trace (refreshWith env negotiated plan s) =
             trace (createSynchro env (GetStorageGVRToSyncGVRs status) (g, config) sA) @ post \<and>
           map_of (storageResourceSynchros sA) g = None \<and>
           map_of (storageResourceVersions sA) g = map_of (storageResourceVersions s) g \<and>
           refreshFrame s sA"
proof -
  define m where "m = GetStorageGVRToSyncGVRs status"
  define s0 where "s0 = s\<lparr>groupResourceStatus := Some status\<rparr>"
  from map_of_split[OF plan] obtain ys zs where
    sp: "plan = ys @ (g, config) # zs" and fresh: "g \<notin> fst ` set ys" by blast
  define sA where "sA = fold (createSynchro env m) ys s0"
  define sB where "sB = createSynchro env m (g, config) sA"
  define sC where "sC = fold (createSynchro env m) zs sB"
  have fold: "fold (createSynchro env m) plan s0 = sC"
    by (simp add: sp sA_def sB_def sC_def)
  from fold_createSynchro_other[OF fresh, of env m s0]
  have rA: "map_of (storageResourceSynchros sA) g = None"
    and wA: "map_of (storageResourceVersions sA) g = map_of (storageResourceVersions s) g"
    using reg by (simp_all add: sA_def s0_def)
  have f0: "refreshFrame s s0" by (simp add: refreshFrame_def s0_def)
  have fA: "refreshFrame s sA"
    unfolding sA_def by (rule refreshFrame_trans[OF f0 refreshFrame_fold_createSynchro])
  from fold_createSynchro_emits[of s0 env m ys]
  obtain pre where pre: "trace sA = trace s @ pre" by (auto simp: emitsOnly_def sA_def s0_def)
  from fold_createSynchro_emits[of sB env m zs]
  obtain p1 where p1: "trace sC = trace sB @ p1" by (auto simp: emitsOnly_def sC_def)
  from closeAndClean_extends[of env m plan deleted sC]
  obtain p2 where p2: "trace (closeAndClean env m plan deleted sC) = trace sC @ p2" by blast
  have "refreshWith env negotiated plan s = closeAndClean env m plan deleted sC"
    using refreshWith_unfold[OF mg, of env plan] fold by (simp add: m_def s0_def)
  then have "trace (refreshWith env negotiated plan s) = trace sB @ (p1 @ p2)"
    using p1 p2 by simp
  with pre rA wA fA show ?thesis unfolding sB_def m_def by blast
qed

lemmas scenario_eval =
  env0_def synchro0_def gvrPods_def gvrDeployments_def syncConfigFor_def condFor_def syncConfig0_def
  desiredPods_def restConfig0_def

lemma removedStorageGVRs_set:
  "set (removedStorageGVRs plan s) =
     {g. map_of (storageResourceSynchros s) g \<noteq> None \<and> map_of plan g = None}"
  by (auto simp: removedStorageGVRs_def map_of_eq_None_iff)

lemma createSynchro_panicked: "panicked (createSynchro env m e s) = panicked s"
proof -
  obtain g config where e: "e = (g, config)" by (cases e)
  from createSynchro_char[of env m g config s]
  obtain wg wmNew regNew conds evs where
    "createSynchro env m (g, config) s =
       s\<lparr>waitGroup := wg, storageResourceVersions := wmNew, storageResourceSynchros := regNew,
         groupResourceStatus := map_option conds (groupResourceStatus s), trace := trace s @ evs\<rparr>"
    by blast
  then show ?thesis by (simp add: e)
qed

lemma fold_createSynchro_panicked: "panicked (fold (createSynchro env m) plan s) = panicked s"
  by (induction plan arbitrary: s) (simp_all add: createSynchro_panicked)

lemma closeSynchros_panicked: "panicked (snd (closeSynchros env m gs s)) = panicked s"
proof (induction gs arbitrary: s)
  case Nil
  show ?case by simp
next
  case (Cons a gs)
  let ?s1 = "(updateSyncConditions m a ResourceSyncStatusStop ''SynchroRemoved''
                ''the resource synchro is moved'' (emit [EvSynchroClose a, EvSynchroClosed a] s))
             \<lparr>storageResourceSynchros := AList.delete a (storageResourceSynchros s)\<rparr>"
  have p1: "panicked ?s1 = panicked s"
    by (simp add: updateSyncConditions_eq emit_def)
  show ?case
    using Cons.IH[of s] Cons.IH[of ?s1] p1
    by (simp add: emit_def split: option.splits)
qed

text \<open>The state of a refresh between its creation loop and its closing loop.\<close>

lemma refreshWith_after_creation:
  assumes mg: "Merge negotiated (groupResourceStatus s) = (status, deleted)"
  shows "\<exists>s1 pre.
           refreshWith env negotiated plan s =
             closeAndClean env (GetStorageGVRToSyncGVRs status) plan deleted s1 \<and>
           trace s1 = trace s @ pre \<and> list_all (\<lambda>ev. \<not> cleanupEvent ev) pre \<and>
           removedStorageGVRs plan s1 = removedStorageGVRs plan s \<and>
           filter (\<lambda>k. map_of plan k = None) (map fst (storageResourceVersions s1)) =
             filter (\<lambda>k. map_of plan k = None) (map fst (storageResourceVersions s)) \<and>
           (\<forall>g. map_of plan g = None \<longrightarrow>
              map_of (storageResourceSynchros s1) g = map_of (storageResourceSynchros s) g) \<and>
           (\<exists>grs. groupResourceStatus s1 = Some grs \<and> map fst grs = map fst status) \<and>
           refreshFrame s s1 \<and> panicked s1 = panicked s"
proof -
  define m where "m = GetStorageGVRToSyncGVRs status"
  define s0 where "s0 = s\<lparr>groupResourceStatus := Some status\<rparr>"
  define s1 where "s1 = fold (createSynchro env m) plan s0"
  have ps: "panicked s1 = panicked s"
    by (simp add: s1_def s0_def fold_createSynchro_panicked)
  have a: "refreshWith env negotiated plan s = closeAndClean env m plan deleted s1"
    using refreshWith_unfold[OF mg, of env plan] by (simp add: m_def s0_def s1_def)
  from fold_createSynchro_emits[of s0 env m plan]
  obtain pre where pre: "trace s1 = trace s @ pre" "list_all (\<lambda>ev. \<not> cleanupEvent ev) pre"
    by (auto simp: emitsOnly_def s1_def s0_def)
  from fold_createSynchro_unplanned[of plan plan env m s0] plan_entries_planned[of _ plan]
  have un: "filter (\<lambda>k. map_of plan k = None) (map fst (storageResourceSynchros s1)) =
              filter (\<lambda>k. map_of plan k = None) (map fst (storageResourceSynchros s))"
           "filter (\<lambda>k. map_of plan k = None) (map fst (storageResourceVersions s1)) =
              filter (\<lambda>k. map_of plan k = None) (map fst (storageResourceVersions s))"
    by (simp_all add: s1_def s0_def)
  have rm: "removedStorageGVRs plan s1 = removedStorageGVRs plan s"
    using un(1) by (simp add: removedStorageGVRs_def)
  have other: "map_of (storageResourceSynchros s1) g = map_of (storageResourceSynchros s) g"
    if "map_of plan g = None" for g
  proof -
    from that have "g \<notin> fst ` set plan" by (simp add: map_of_eq_None_iff)
    from fold_createSynchro_other[OF this, of env m s0] show ?thesis by (simp add: s1_def s0_def)
  qed
  from sameKeys_fold_createSynchro[of s0 env m plan]
  have keys: "\<exists>grs. groupResourceStatus s1 = Some grs \<and> map fst grs = map fst status"
    by (cases "groupResourceStatus s1") (auto simp: sameKeys_def s1_def s0_def)
  have f0: "refreshFrame s s0" by (simp add: refreshFrame_def s0_def)
  have fr: "refreshFrame s s1"
    unfolding s1_def by (rule refreshFrame_trans[OF f0 refreshFrame_fold_createSynchro])
  from a pre rm un(2) other keys fr ps show ?thesis unfolding m_def by blast
qed

lemma closeAndClean_registry:
  assumes "closeSynchros env m (removedStorageGVRs plan s1) s1 = (fin, s2)"
  shows "storageResourceSynchros (closeAndClean env m plan deleted s1) = storageResourceSynchros s2 \<and>
         (\<exists>post. trace (closeAndClean env m plan deleted s1) = trace s2 @ post) \<and>
         (\<not> fin \<longrightarrow> closeAndClean env m plan deleted s1 = s2)"
proof -
  obtain s3 deleted' where cn:
    "fold (cleanResource env m plan) (map fst (storageResourceVersions s2)) (s2, deleted) = (s3, deleted')"
    by (cases "fold (cleanResource env m plan) (map fst (storageResourceVersions s2)) (s2, deleted)")
  have res: "closeAndClean env m plan deleted s1 = (if fin then deleteVersions deleted' s3 else s2)"
    using assms cn by (simp add: closeAndClean_def)
  have reg3: "storageResourceSynchros s3 = storageResourceSynchros s2"
    using fold_cleanResource_registry[where env = env and m = m and plan = plan
        and gs = "map fst (storageResourceVersions s2)" and st = "(s2, deleted)" and g' = undefined] cn
    by simp
  from fold_cleanResource_registry[where env = env and m = m and plan = plan
        and gs = "map fst (storageResourceVersions s2)" and st = "(s2, deleted)" and g' = undefined] cn
  obtain e3 where e3: "trace s3 = trace s2 @ e3" by (auto simp: emitsOnly_def)
  show ?thesis
    using res reg3 e3 by (auto simp: deleteVersions_eq)
qed

lemmas removal_eval =
  refresh_eval scenario_eval synchroWithDeployments_def podSynchro_def deploymentSynchro_def
  ResourceSyncStatusStop_def ResourceSyncStatusPending_def SynchroPendingReason_def

lemma not_cleanup_set:
  "list_all (\<lambda>ev. \<not> cleanupEvent ev) pre \<Longrightarrow>
   (\<forall>nm g. EvCleanClusterResource nm g \<notin> set pre) \<and> (\<forall>gvr. EvDeleteVersion gvr \<notin> set pre)"
  by (force simp: list_all_iff)

lemma GetStorageGVRToSyncGVRs_keys:
  "gvr \<in> set (GetStorageGVRToSyncGVRs status g) \<Longrightarrow> gvr \<in> set (map fst status)"
  by (auto simp: GetStorageGVRToSyncGVRs_def)

lemma unset_fields: "unset s \<Longrightarrow> syncResources s = None \<and> groupResourceStatus s = None"
proof (induction rule: unset.induct)
  case (unset_New env nm config syncCfg s)
  then show ?case
    by (auto simp: New_def initWithResourceVersions_def split: sum.splits if_splits)
next
  case (unset_refresh s env)
  then show ?case by (simp add: refreshSyncResources_def)
next
  case (unset_SetResources s flag s')
  then show ?case
    by (auto simp: SetResources_def resetSyncResources_def split: outcome.splits)
next
  case (unset_startRun s env)
  then show ?case by (simp add: startRun_def)
next
  case (unset_updateStatus s s')
  then show ?case by (auto simp: updateStatus_def split: outcome.splits)
next
  case (unset_statusUpdater s env s')
  from statusUpdaterRun_registries[OF unset_statusUpdater.hyps(2)] unset_statusUpdater.IH
  show ?case by simp
qed

lemma New_fails_retryable: "New env nm config syncCfg = Inl err \<Longrightarrow> isRetryableError (Some err)"
  by (auto simp: New_def isRetryableError_def RetryableError_def split: sum.splits)

lemma createSynchro_succeeds:
  assumes "map_of (storageResourceSynchros s) g = None"
      and "NewResourceStorage env (resourceStorageConfig config) = Inr resourceStorage"
      and "NewResourceSynchro env (resourceSynchroFactory s) (name s)
             (synchroConfig env s config (fst (ensureResourceVersions g s)) resourceStorage) = Inr synchro"
  shows "\<exists>started. trace (createSynchro env m (g, config) s) =
           trace s @ [EvNewResourceStorage g (resourceStorageConfig config),
                      EvNewResourceSynchro g
                        (synchroConfig env s config (fst (ensureResourceVersions g s)) resourceStorage),
                      EvSynchroRun g] @
             map (\<lambda>gvr. EvUpdateSyncCondition gvr ResourceSyncStatusUnknown [] []) (m g) @ started"
proof -
  obtain rvs s1 where en: "ensureResourceVersions g
          (emit [EvNewResourceStorage g (resourceStorageConfig config)] s) = (rvs, s1)"
    by (cases "ensureResourceVersions g (emit [EvNewResourceStorage g (resourceStorageConfig config)] s)")
  have rvs: "rvs = fst (ensureResourceVersions g s)"
    using en by (auto simp: ensureResourceVersions_def emit_def Let_def split: option.splits)
  have fr: "resourceSynchroFactory s1 = resourceSynchroFactory s" "name s1 = name s"
           "trace s1 = trace s @ [EvNewResourceStorage g (resourceStorageConfig config)]"
    using en by (auto simp: ensureResourceVersions_def emit_def Let_def split: option.splits)
  have cfg: "synchroConfig env s1 config rvs resourceStorage =
             synchroConfig env s config (fst (ensureResourceVersions g s)) resourceStorage"
    using en rvs by (auto simp: ensureResourceVersions_def emit_def Let_def synchroConfig_def split: option.splits)
  let ?cfg = "synchroConfig env s config (fst (ensureResourceVersions g s)) resourceStorage"
  let ?s2 = "updateSyncConditions m g ResourceSyncStatusUnknown [] []
               (emit [EvNewResourceSynchro g ?cfg, EvSynchroRun g]
                  (s1\<lparr>waitGroup := waitGroup s1 + 1,
                       storageResourceSynchros := AList.update g synchro (storageResourceSynchros s1)\<rparr>))"
  have c: "createSynchro env m (g, config) s = startIfRunning g ?s2"
    using assms en by (simp add: createSynchro_def cfg fr)
  have t2: "trace ?s2 = trace s @ [EvNewResourceStorage g (resourceStorageConfig config),
                      EvNewResourceSynchro g ?cfg, EvSynchroRun g] @
             map (\<lambda>gvr. EvUpdateSyncCondition gvr ResourceSyncStatusUnknown [] []) (m g)"
    by (simp add: updateSyncConditions_eq emit_def fr)
  have "\<exists>started. trace (startIfRunning g ?s2) = trace ?s2 @ started"
    by (auto simp: startIfRunning_def emit_def split: option.splits outcome.splits)
  then obtain started where "trace (startIfRunning g ?s2) = trace ?s2 @ started" by blast
  with c t2 have "trace (createSynchro env m (g, config) s) =
           trace s @ [EvNewResourceStorage g (resourceStorageConfig config),
                      EvNewResourceSynchro g ?cfg, EvSynchroRun g] @
             map (\<lambda>gvr. EvUpdateSyncCondition gvr ResourceSyncStatusUnknown [] []) (m g) @ started"
    by simp
  then show ?thesis by blast
qed

text \<open>The closing loop of a refresh.\<close>

lemma refresh_closes_removed:
  assumes "syncResources s = Some resources"
      and "NegotiateSyncResources env resources = (negotiated, plan)"
      and "Merge negotiated (groupResourceStatus s) = (status, deleted)"
  shows "set (removedStorageGVRs plan s) =
           {g. map_of (storageResourceSynchros s) g \<noteq> None \<and> map_of plan g = None} \<and>
         (\<forall>g \<in> set (takeWhile (CloseCompletes env) (removedStorageGVRs plan s)).
            map_of (storageResourceSynchros (refreshSyncResources env s)) g = None \<and>
            (\<exists>pre post. trace (refreshSyncResources env s) =
               trace s @ pre @ [EvSynchroClose g, EvSynchroClosed g] @
               map (\<lambda>gvr. EvUpdateSyncCondition gvr ResourceSyncStatusStop ''SynchroRemoved''
                            ''the resource synchro is moved'')
                 (GetStorageGVRToSyncGVRs status g) @ post)) \<and>
         (list_all (CloseCompletes env) (removedStorageGVRs plan s) \<longrightarrow>
            takeWhile (CloseCompletes env) (removedStorageGVRs plan s) = removedStorageGVRs plan s) \<and>
         (\<not> list_all (CloseCompletes env) (removedStorageGVRs plan s) \<longrightarrow>
            (\<exists>pre g'. g' \<in> set (removedStorageGVRs plan s) \<and> \<not> CloseCompletes env g' \<and>
               trace (refreshSyncResources env s) = trace s @ pre @ [EvSynchroClose g'] \<and>
               map_of (storageResourceSynchros (refreshSyncResources env s)) g' \<noteq> None))"
proof -
  define m where "m = GetStorageGVRToSyncGVRs status"
  have eq: "refreshSyncResources env s = refreshWith env negotiated plan s"
    using assms(1,2) by (simp add: refreshSyncResources_def)
  from refreshWith_after_creation[OF assms(3), of env plan]
  obtain s1 pre0 where
    r: "refreshWith env negotiated plan s = closeAndClean env m plan deleted s1"
    and t1: "trace s1 = trace s @ pre0"
    and rm: "removedStorageGVRs plan s1 = removedStorageGVRs plan s"
    and other: "\<And>g. map_of plan g = None \<Longrightarrow>
                  map_of (storageResourceSynchros s1) g = map_of (storageResourceSynchros s) g"
    unfolding m_def by blast
  obtain fin s2 where cl: "closeSynchros env m (removedStorageGVRs plan s) s1 = (fin, s2)"
    by (cases "closeSynchros env m (removedStorageGVRs plan s) s1")
  from closeAndClean_registry[of env m plan s1 fin s2 deleted] cl rm
  obtain post0 where
    reg': "storageResourceSynchros (closeAndClean env m plan deleted s1) = storageResourceSynchros s2"
    and tr': "trace (closeAndClean env m plan deleted s1) = trace s2 @ post0"
    and ab: "\<not> fin \<Longrightarrow> closeAndClean env m plan deleted s1 = s2"
    by auto
  have present: "map_of (storageResourceSynchros s1) g \<noteq> None"
    if "g \<in> set (removedStorageGVRs plan s)" for g
    using that other[of g] by (simp add: removedStorageGVRs_set)
  have A: "map_of (storageResourceSynchros (refreshSyncResources env s)) g = None \<and>
            (\<exists>pre post. trace (refreshSyncResources env s) =
               trace s @ pre @ [EvSynchroClose g, EvSynchroClosed g] @
               map (\<lambda>gvr. EvUpdateSyncCondition gvr ResourceSyncStatusStop ''SynchroRemoved''
                            ''the resource synchro is moved'') (m g) @ post)"
    if mem: "g \<in> set (takeWhile (CloseCompletes env) (removedStorageGVRs plan s))" for g
  proof -
    from mem have "g \<in> set (removedStorageGVRs plan s)" by (auto dest: set_takeWhileD)
    from present[OF this] obtain y where y: "map_of (storageResourceSynchros s1) g = Some y" by auto
    from closeSynchros_segment[OF mem y, of m] cl
    obtain pre post where
      tr: "trace s2 = trace s1 @ pre @ closeSegment m g @ post"
      and gone: "map_of (storageResourceSynchros s2) g = None"
      by auto
    have "trace (refreshSyncResources env s) =
            trace s @ (pre0 @ pre) @ [EvSynchroClose g, EvSynchroClosed g] @
               map (\<lambda>gvr. EvUpdateSyncCondition gvr ResourceSyncStatusStop ''SynchroRemoved''
                            ''the resource synchro is moved'') (m g) @ (post @ post0)"
      using eq r tr' tr t1 by (simp add: closeSegment_def)
    then have "\<exists>pre post. trace (refreshSyncResources env s) =
               trace s @ pre @ [EvSynchroClose g, EvSynchroClosed g] @
               map (\<lambda>gvr. EvUpdateSyncCondition gvr ResourceSyncStatusStop ''SynchroRemoved''
                            ''the resource synchro is moved'') (m g) @ post"
      by blast
    moreover have "map_of (storageResourceSynchros (refreshSyncResources env s)) g = None"
      using eq r reg' gone by simp
    ultimately show ?thesis by simp
  qed
  have B: "takeWhile (CloseCompletes env) (removedStorageGVRs plan s) = removedStorageGVRs plan s"
    if "list_all (CloseCompletes env) (removedStorageGVRs plan s)"
    using that by (simp add: list_all_iff)
  have C: "\<exists>pre g'. g' \<in> set (removedStorageGVRs plan s) \<and> \<not> CloseCompletes env g' \<and>
               trace (refreshSyncResources env s) = trace s @ pre @ [EvSynchroClose g'] \<and>
               map_of (storageResourceSynchros (refreshSyncResources env s)) g' \<noteq> None"
    if na: "\<not> list_all (CloseCompletes env) (removedStorageGVRs plan s)"
  proof -
    from closeSynchros_fst[of "removedStorageGVRs plan s" s1 env m] present cl na
    obtain pre g' where nf: "\<not> fin" and g': "g' \<in> set (removedStorageGVRs plan s)" "\<not> CloseCompletes env g'"
      and tr: "trace s2 = trace s1 @ pre @ [EvSynchroClose g']"
      and rg: "map_of (storageResourceSynchros s2) g' \<noteq> None"
      by auto
    have "trace (refreshSyncResources env s) = trace s @ (pre0 @ pre) @ [EvSynchroClose g']"
      using eq r ab[OF nf] tr t1 by simp
    moreover have "map_of (storageResourceSynchros (refreshSyncResources env s)) g' \<noteq> None"
      using eq r ab[OF nf] rg by simp
    ultimately show ?thesis using g' by blast
  qed
  from removedStorageGVRs_set[of plan s] A B C show ?thesis unfolding m_def by blast
qed

text \<open>The clean-up loop of a refresh that reaches it and does not panic in it.\<close>

lemma refresh_cleans_unplanned:
  assumes "syncResources s = Some resources"
      and "NegotiateSyncResources env resources = (negotiated, plan)"
      and "Merge negotiated (groupResourceStatus s) = (status, deleted)"
      and "list_all (CloseCompletes env) (removedStorageGVRs plan s)"
      and "panicked s = None"
      and "\<forall>g err. map_of (storageResourceVersions s) g \<noteq> None \<and> map_of plan g = None \<and>
                   CleanClusterResource env (name s) g = Some err \<longrightarrow> Error err \<noteq> None"
  shows "panicked (refreshSyncResources env s) = None \<and>
         (\<forall>g. map_of plan g = None \<longrightarrow>
            map_of (storageResourceVersions (refreshSyncResources env s)) g = None) \<and>
         (\<exists>pre. (\<forall>nm g. EvCleanClusterResource nm g \<notin> set pre) \<and> (\<forall>gvr. EvDeleteVersion gvr \<notin> set pre) \<and>
            trace (refreshSyncResources env s) =
              trace s @ pre @
              concat (map (\<lambda>g. EvCleanClusterResource (name s) g #
                               (case CleanClusterResource env (name s) g of
                                  None \<Rightarrow> []
                                | Some err \<Rightarrow>
                                    (case Error err of
                                       None \<Rightarrow> []
                                     | Some message \<Rightarrow>
                                         map (\<lambda>gvr. EvUpdateSyncCondition gvr ResourceSyncStatusStop
                                                      ''CleanResourceFailed'' message)
                                           (GetStorageGVRToSyncGVRs status g))))
                        (filter (\<lambda>g. map_of plan g = None) (map fst (storageResourceVersions s)))) @
              map EvDeleteVersion
                (filter (\<lambda>gvr. \<forall>g\<in>set (filter (\<lambda>g. map_of plan g = None) (map fst (storageResourceVersions s))).
                                  CleanClusterResource env (name s) g \<noteq> None \<longrightarrow>
                                  gvr \<notin> set (GetStorageGVRToSyncGVRs status g))
                   deleted)) \<and>
         (\<forall>g err message.
            map_of (storageResourceVersions s) g \<noteq> None \<and> map_of plan g = None \<and>
            CleanClusterResource env (name s) g = Some err \<and> Error err = Some message \<longrightarrow>
            (\<exists>pre post. trace (refreshSyncResources env s) =
               trace s @ pre @
               EvCleanClusterResource (name s) g #
               map (\<lambda>gvr. EvUpdateSyncCondition gvr ResourceSyncStatusStop ''CleanResourceFailed'' message)
                 (GetStorageGVRToSyncGVRs status g) @ post)) \<and>
         (\<forall>g gvr err.
            map_of (storageResourceVersions s) g \<noteq> None \<and> map_of plan g = None \<and>
            CleanClusterResource env (name s) g = Some err \<and>
            gvr \<in> set (GetStorageGVRToSyncGVRs status g) \<longrightarrow>
            (\<exists>final. groupResourceStatus (refreshSyncResources env s) = Some final \<and>
               gvr \<in> fst ` set final \<and>
               (\<forall>c. (gvr, c) \<in> set final \<longrightarrow>
                  sc_Status c = ResourceSyncStatusStop \<and> sc_Reason c = ''CleanResourceFailed'')))"
proof -
  define m where "m = GetStorageGVRToSyncGVRs status"
  define unplanned where "unplanned = filter (\<lambda>g. map_of plan g = None) (map fst (storageResourceVersions s))"
  have eq: "refreshSyncResources env s = refreshWith env negotiated plan s"
    using assms(1,2) by (simp add: refreshSyncResources_def)
  from refreshWith_after_creation[OF assms(3), of env plan]
  obtain s1 pre0 grs1 where
    r: "refreshWith env negotiated plan s = closeAndClean env m plan deleted s1"
    and t1: "trace s1 = trace s @ pre0" and p0: "list_all (\<lambda>ev. \<not> cleanupEvent ev) pre0"
    and rm: "removedStorageGVRs plan s1 = removedStorageGVRs plan s"
    and un1: "filter (\<lambda>k. map_of plan k = None) (map fst (storageResourceVersions s1)) = unplanned"
    and other: "\<And>g. map_of plan g = None \<Longrightarrow>
                  map_of (storageResourceSynchros s1) g = map_of (storageResourceSynchros s) g"
    and k1: "groupResourceStatus s1 = Some grs1" "map fst grs1 = map fst status"
    and f1: "refreshFrame s s1" and ps1: "panicked s1 = panicked s"
    unfolding m_def unplanned_def by blast
  obtain fin s2 where cl: "closeSynchros env m (removedStorageGVRs plan s) s1 = (fin, s2)"
    by (cases "closeSynchros env m (removedStorageGVRs plan s) s1")
  have present: "map_of (storageResourceSynchros s1) g \<noteq> None \<or> CloseCompletes env g"
    if "g \<in> set (removedStorageGVRs plan s)" for g
    using that assms(4) by (simp add: list_all_iff)
  from closeSynchros_fst[of "removedStorageGVRs plan s" s1 env m] present cl assms(4)
  have fin: fin by simp
  from closeSynchros_emits[of s1 env m "removedStorageGVRs plan s"] cl
  obtain pre1 where t2: "trace s2 = trace s1 @ pre1" and p1: "list_all (\<lambda>ev. \<not> cleanupEvent ev) pre1"
    by (auto simp: emitsOnly_def)
  from closeSynchros_shrinks[of env m "removedStorageGVRs plan s" s1 undefined] cl
  have wm2: "storageResourceVersions s2 = storageResourceVersions s1" by simp
  have f2: "refreshFrame s s2"
    using refreshFrame_trans[OF f1 refreshFrame_closeSynchros[of s1 env m "removedStorageGVRs plan s"]] cl
    by simp
  have n2: "name s2 = name s" by (rule refreshFrame_lifetime(6)[OF f2])
  have ps2: "panicked s2 = None"
    using closeSynchros_panicked[of env m "removedStorageGVRs plan s" s1] cl ps1 assms(5) by simp
  from sameKeys_closeSynchros[of s1 env m "removedStorageGVRs plan s"] cl k1
  obtain grs2 where k2: "groupResourceStatus s2 = Some grs2" "map fst grs2 = map fst status"
    by (cases "groupResourceStatus s2") (auto simp: sameKeys_def)
  define gs where "gs = map fst (storageResourceVersions s2)"
  have ugs: "filter (\<lambda>g. map_of plan g = None) gs = unplanned"
    using un1 by (simp add: gs_def wm2)
  have tracked: "map_of (storageResourceVersions s) g \<noteq> None" if "g \<in> set unplanned" for g
    using that by (auto simp: unplanned_def map_of_eq_None_iff)
  have safe: "Error err \<noteq> None"
    if "g \<in> set gs" "map_of plan g = None" "CleanClusterResource env (name s2) g = Some err" for g err
  proof -
    from that(1,2) have "g \<in> set (filter (\<lambda>g. map_of plan g = None) gs)" by simp
    then have "g \<in> set unplanned" by (simp only: ugs)
    from tracked[OF this] that(2,3) assms(6) show ?thesis by (simp add: n2)
  qed
  have nf: "panicked (fst (fold (cleanResource env m plan) gs (s2, deleted))) = None"
    by (rule fold_cleanResource_no_panic[OF ps2]) (rule safe)
  obtain s3 deleted' where cn: "fold (cleanResource env m plan) gs (s2, deleted) = (s3, deleted')"
    by (cases "fold (cleanResource env m plan) gs (s2, deleted)")
  from nf cn have ps3: "panicked s3 = None" by simp
  have res: "refreshSyncResources env s = deleteVersions deleted' s3"
    using eq r cl cn fin rm by (simp add: closeAndClean_def gs_def)
  from fold_cleanResource_eq[OF nf] cn
  have t3: "trace s3 = trace s2 @ concat (map (cleanEvents env m (name s)) unplanned)"
    and d3: "deleted' = filter (\<lambda>gvr. \<forall>g\<in>set gs. map_of plan g = None \<and>
                 CleanClusterResource env (name s) g \<noteq> None \<longrightarrow> gvr \<notin> set (m g)) deleted"
    by (simp_all add: n2 ugs)
  have "(\<lambda>gvr. \<forall>g\<in>set gs. map_of plan g = None \<and>
                 CleanClusterResource env (name s) g \<noteq> None \<longrightarrow> gvr \<notin> set (m g)) =
        (\<lambda>gvr. \<forall>g\<in>set (filter (\<lambda>g. map_of plan g = None) gs).
                 CleanClusterResource env (name s) g \<noteq> None \<longrightarrow> gvr \<notin> set (m g))"
    by (intro ext) auto
  with d3 have d3': "deleted' = filter (\<lambda>gvr. \<forall>g\<in>set unplanned.
                 CleanClusterResource env (name s) g \<noteq> None \<longrightarrow> gvr \<notin> set (m g)) deleted"
    by (simp add: ugs)
  have ce: "cleanEvents env m (name s) =
              (\<lambda>g. EvCleanClusterResource (name s) g #
                               (case CleanClusterResource env (name s) g of
                                  None \<Rightarrow> []
                                | Some err \<Rightarrow>
                                    (case Error err of
                                       None \<Rightarrow> []
                                     | Some message \<Rightarrow>
                                         map (\<lambda>gvr. EvUpdateSyncCondition gvr ResourceSyncStatusStop
                                                      ''CleanResourceFailed'' message) (m g))))"
    by (intro ext) (simp add: cleanEvents_def)
  have P: "panicked (refreshSyncResources env s) = None"
    by (simp add: res deleteVersions_eq ps3)
  have A: "map_of (storageResourceVersions (refreshSyncResources env s)) g = None"
    if np: "map_of plan g = None" for g
  proof -
    from fold_cleanResource_watermarks[OF nf, where g' = g] cn
    have "map_of (storageResourceVersions s3) g =
            (if g \<in> set gs \<and> map_of plan g = None then None else map_of (storageResourceVersions s2) g)"
      by simp
    moreover have "map_of (storageResourceVersions s2) g = None" if "g \<notin> set gs"
      using that by (simp add: gs_def map_of_eq_None_iff)
    ultimately have "map_of (storageResourceVersions s3) g = None" using np by auto
    then show ?thesis by (simp add: res deleteVersions_eq ps3)
  qed
  have tr: "trace (refreshSyncResources env s) =
              trace s @ (pre0 @ pre1) @ concat (map (cleanEvents env m (name s)) unplanned) @
              map EvDeleteVersion deleted'"
    by (simp add: res deleteVersions_eq ps3 t3 t2 t1)
  have pp: "list_all (\<lambda>ev. \<not> cleanupEvent ev) (pre0 @ pre1)"
    using p0 p1 by simp
  have B: "\<exists>pre. (\<forall>nm g. EvCleanClusterResource nm g \<notin> set pre) \<and> (\<forall>gvr. EvDeleteVersion gvr \<notin> set pre) \<and>
            trace (refreshSyncResources env s) =
              trace s @ pre @ concat (map (cleanEvents env m (name s)) unplanned) @
              map EvDeleteVersion
                (filter (\<lambda>gvr. \<forall>g\<in>set unplanned.
                                  CleanClusterResource env (name s) g \<noteq> None \<longrightarrow> gvr \<notin> set (m g))
                   deleted)"
    using tr not_cleanup_set[OF pp] d3' by blast
  have S: "\<exists>pre post. trace (refreshSyncResources env s) =
               trace s @ pre @
               EvCleanClusterResource (name s) g #
               map (\<lambda>gvr. EvUpdateSyncCondition gvr ResourceSyncStatusStop ''CleanResourceFailed'' message)
                 (m g) @ post"
    if tk: "map_of (storageResourceVersions s) g \<noteq> None" and np: "map_of plan g = None"
      and fails: "CleanClusterResource env (name s) g = Some err" and msg: "Error err = Some message"
    for g err message
  proof -
    from tk have "g \<in> set (map fst (storageResourceVersions s))"
      by (simp add: map_of_eq_None_iff)
    with np have "g \<in> set unplanned" by (simp add: unplanned_def)
    from split_list[OF this] obtain xs ys where sp: "unplanned = xs @ g # ys" by blast
    have cg: "cleanEvents env m (name s) g =
                EvCleanClusterResource (name s) g #
                map (\<lambda>gvr. EvUpdateSyncCondition gvr ResourceSyncStatusStop ''CleanResourceFailed'' message) (m g)"
      using fails msg by (simp add: cleanEvents_def)
    have "trace (refreshSyncResources env s) =
            trace s @ ((pre0 @ pre1) @ concat (map (cleanEvents env m (name s)) xs)) @
            EvCleanClusterResource (name s) g #
            map (\<lambda>gvr. EvUpdateSyncCondition gvr ResourceSyncStatusStop ''CleanResourceFailed'' message) (m g) @
            (concat (map (cleanEvents env m (name s)) ys) @ map EvDeleteVersion deleted')"
      using tr by (simp add: sp cg)
    then show ?thesis by blast
  qed
  have C: "\<exists>final. groupResourceStatus (refreshSyncResources env s) = Some final \<and>
               gvr \<in> fst ` set final \<and>
               (\<forall>c. (gvr, c) \<in> set final \<longrightarrow>
                  sc_Status c = ResourceSyncStatusStop \<and> sc_Reason c = ''CleanResourceFailed'')"
    if tk: "map_of (storageResourceVersions s) g \<noteq> None" and np: "map_of plan g = None"
      and fails: "CleanClusterResource env (name s) g = Some err" and mapped: "gvr \<in> set (m g)"
    for g gvr err
  proof -
    from tk have "g \<in> set (map fst (storageResourceVersions s))"
      by (simp add: map_of_eq_None_iff)
    with np have gu: "g \<in> set unplanned" by (simp add: unplanned_def)
    then have ggs: "g \<in> set gs" using ugs by (metis filter_is_subset subsetD)
    have ne: "groupResourceStatus s2 \<noteq> None" using k2 by simp
    from fold_cleanResource_mark_set[where g = g and gs = gs and plan = plan and env = env and s = s2
        and err = err and gvr = gvr and m = m and d = deleted] ggs np fails mapped ne nf cn
    have mark: "cleanFailedMark gvr s3" by (simp add: n2)
    from fold_cleanResource_sameKeys[of s2 env m plan gs deleted] cn k2
    obtain grs3 where k3: "groupResourceStatus s3 = Some grs3" "map fst grs3 = map fst status"
      by (cases "groupResourceStatus s3") (auto simp: sameKeys_def)
    have inkeys: "gvr \<in> set (map fst grs3)"
      using GetStorageGVRToSyncGVRs_keys[of gvr status g] mapped by (simp add: k3 m_def)
    have nd: "gvr \<notin> set deleted'"
      using gu fails mapped by (auto simp: d3')
    from deleteVersions_mark[OF mark nd inkeys k3(1) ps3] show ?thesis by (simp add: res)
  qed
  from P A B[unfolded ce] S C show ?thesis unfolding m_def unplanned_def by blast
qed

text \<open>The refreshes of the scenarios.\<close>

lemma refresh_removal:
  "refreshSyncResources env0 synchroWithDeployments =
     synchroWithDeployments
       \<lparr>storageResourceVersions := [(gvrPods, \<lparr>Resources = Some [], Events = Some []\<rparr>)],
        storageResourceSynchros := [(gvrPods, podSynchro)],
        groupResourceStatus := Some [(gvrPods, condFor ''v1'' gvrPods)],
        trace := [EvRegisterResourceSynchroMetrics,
                  EvSynchroClose gvrDeployments, EvSynchroClosed gvrDeployments,
                  EvUpdateSyncCondition gvrDeployments ''Stop'' ''SynchroRemoved''
                    ''the resource synchro is moved'',
                  EvCleanClusterResource ''c1'' gvrDeployments,
                  EvDeleteVersion gvrDeployments]\<rparr>"
  by (simp add: removal_eval)

lemma refresh_removal_aborted:
  "refreshSyncResources envShutdownDuringClose synchroWithDeployments =
     synchroWithDeployments\<lparr>trace := [EvRegisterResourceSynchroMetrics, EvSynchroClose gvrDeployments]\<rparr>"
  by (simp add: removal_eval envShutdownDuringClose_def)



lemmas cronJobs_eval =
  refresh_eval scenario_eval synchroDesiringCronJobs_def cronJobsStatus_def desiredCronJobs_def
  gvrCronJobsV1_def gvrCronJobsV1beta1_def ResourceSyncStatusPending_def ResourceSyncStatusUnknown_def
  SynchroPendingReason_def

lemma refresh_cronJobs_no_storage:
  "refreshSyncResources envCronJobsNoStorage synchroDesiringCronJobs =
     synchroDesiringCronJobs
       \<lparr>groupResourceStatus :=
          Some [(gvrCronJobsV1beta1, (condFor ''v1beta1'' gvrCronJobsV1)
                   \<lparr>sc_Status := ''Pending'', sc_Reason := ''SynchroCreateFailed'',
                    sc_Message := ''new resource storage failed: no table''\<rparr>),
                (gvrCronJobsV1, (condFor ''v1'' gvrCronJobsV1)
                   \<lparr>sc_Status := ''Pending'', sc_Reason := ''SynchroCreateFailed'',
                    sc_Message := ''new resource storage failed: no table''\<rparr>)],
        trace := [EvRegisterResourceSynchroMetrics,
                  EvNewResourceStorage gvrCronJobsV1 ''cronjobs'',
                  EvUpdateSyncCondition gvrCronJobsV1beta1 ''Pending'' ''SynchroCreateFailed''
                    ''new resource storage failed: no table'',
                  EvUpdateSyncCondition gvrCronJobsV1 ''Pending'' ''SynchroCreateFailed''
                    ''new resource storage failed: no table'']\<rparr>"
  by (simp add: cronJobs_eval envCronJobsNoStorage_def formatError_def)

lemma refresh_cronJobs:
  "refreshSyncResources envCronJobs synchroDesiringCronJobs =
     synchroDesiringCronJobs
       \<lparr>waitGroup := 1,
        storageResourceVersions := [(gvrCronJobsV1, \<lparr>Resources = Some [], Events = Some []\<rparr>)],
        storageResourceSynchros :=
          [(gvrCronJobsV1,
            \<lparr>synchro_cluster = ''c1'',
             synchro_Config = synchroConfig envCronJobs synchroDesiringCronJobs
                                (syncConfigFor ''CronJob'' gvrCronJobsV1)
                                \<lparr>Resources = Some [], Events = Some []\<rparr> ''cronjobs''\<rparr>)],
        groupResourceStatus :=
          Some [(gvrCronJobsV1beta1, (condFor ''v1beta1'' gvrCronJobsV1)
                   \<lparr>sc_Status := ''Unknown'', sc_Reason := [], sc_Message := []\<rparr>),
                (gvrCronJobsV1, (condFor ''v1'' gvrCronJobsV1)
                   \<lparr>sc_Status := ''Unknown'', sc_Reason := [], sc_Message := []\<rparr>)],
        trace := [EvRegisterResourceSynchroMetrics,
                  EvNewResourceStorage gvrCronJobsV1 ''cronjobs'',
                  EvNewResourceSynchro gvrCronJobsV1
                    (synchroConfig envCronJobs synchroDesiringCronJobs
                       (syncConfigFor ''CronJob'' gvrCronJobsV1)
                       \<lparr>Resources = Some [], Events = Some []\<rparr> ''cronjobs''),
                  EvSynchroRun gvrCronJobsV1,
                  EvUpdateSyncCondition gvrCronJobsV1beta1 ''Unknown'' [] [],
                  EvUpdateSyncCondition gvrCronJobsV1 ''Unknown'' [] []]\<rparr>"
  by (simp add: cronJobs_eval envCronJobs_def)

subsection \<open>Errors of the constructor\<close>

text \<open>
  Claim C5. The constructor is to fail with a Retryable-marked error exactly when the
  discovery manager or the initial watermark load fails, and with a plain error when the
  list/watch factory or the client cannot be made. On cluster \<open>c1\<close>, a failing list/watch
  factory and a failing client build each make \<open>New\<close> return a \<^verbatim>\<open>%w\<close> wrapper, as a
  failing discovery manager does; all three values pass the test for the marker, since
  \<open>RetryableError\<close> is an interface type that every error value implements and the
  conversion leaves the value as it is.
\<close>

theorem New_plain_failure_passes_RetryableError:
  "New envNoListerWatcher ''c1'' restConfig0 syncConfig0
     = Inl (wrapError ''failed to create lister watcher factory: '' (errorString ''no transport'')) \<and>
   isRetryableError (Some (wrapError ''failed to create lister watcher factory: '' (errorString ''no transport''))) \<and>
   New envNoClient ''c1'' restConfig0 syncConfig0
     = Inl (wrapError ''failed to create cluster client: '' (errorString ''bad config'')) \<and>
   isRetryableError (Some (wrapError ''failed to create cluster client: '' (errorString ''bad config''))) \<and>
   New envNoDiscovery ''c1'' restConfig0 syncConfig0
     = Inl (wrapError ''failed to create dynamic discovery manager: '' (errorString ''unreachable'')) \<and>
   isRetryableError (Some (wrapError ''failed to create dynamic discovery manager: '' (errorString ''unreachable'')))"
  by (simp add: New_def env0_def envNoListerWatcher_def envNoClient_def envNoDiscovery_def
        isRetryableError_def RetryableError_def)

subsection \<open>An existing reconciler survives a refresh\<close>

text \<open>
  Claim C7. Let the registry hold a reconciler for the storage GVR \<open>g\<close>, and let the new
  plan have an entry for \<open>g\<close>, with whatever configuration. Then after the refresh the
  registry holds the same reconciler for \<open>g\<close>, and none of the events that the refresh
  has added makes a resource storage or a reconciler for \<open>g\<close>, or runs, starts or closes
  one.
\<close>

theorem refreshSyncResources_preserves_existing:
  assumes "syncResources s = Some resources"
      and "NegotiateSyncResources env resources = (negotiated, plan)"
      and "map_of (storageResourceSynchros s) g = Some synchro"
      and "map_of plan g = Some config"
  shows "map_of (storageResourceSynchros (refreshSyncResources env s)) g = Some synchro \<and>
         (\<exists>evs. trace (refreshSyncResources env s) = trace s @ evs \<and>
                (\<forall>c. EvNewResourceStorage g c \<notin> set evs) \<and>
                (\<forall>c. EvNewResourceSynchro g c \<notin> set evs) \<and>
                EvSynchroRun g \<notin> set evs \<and> EvSynchroStart g \<notin> set evs \<and>
                EvSynchroClose g \<notin> set evs)"
proof -
  have eq: "refreshSyncResources env s = refreshWith env negotiated plan s"
    using assms(1,2) by (simp add: refreshSyncResources_def)
  from refreshWith_preserves[OF assms(3,4), where env = env and negotiated = negotiated]
  obtain evs where reg: "map_of (storageResourceSynchros (refreshWith env negotiated plan s)) g = Some synchro"
    and tr: "trace (refreshWith env negotiated plan s) = trace s @ evs"
    and none: "list_all (\<lambda>ev. \<not> lifecycleEvent g ev) evs"
    by (auto simp: emitsOnly_def)
  have "\<not> lifecycleEvent g ev" if "ev \<in> set evs" for ev
    using none that by (simp add: list_all_iff)
  then have "(\<forall>c. EvNewResourceStorage g c \<notin> set evs) \<and>
             (\<forall>c. EvNewResourceSynchro g c \<notin> set evs) \<and>
             EvSynchroRun g \<notin> set evs \<and> EvSynchroStart g \<notin> set evs \<and>
             EvSynchroClose g \<notin> set evs"
    by fastforce
  with reg tr eq show ?thesis by auto
qed

theorem refreshSyncResources_preserves_existing_witness:
  "map_of (storageResourceSynchros (refreshSyncResources envChangedConfig synchroWithPods)) gvrPods
     = Some podSynchro \<and>
   synchro_Config podSynchro \<noteq>
     synchroConfig envChangedConfig synchroWithPods changedPodConfig
       \<lparr>Resources = Some [], Events = Some []\<rparr> ''pods-v2'' \<and>
   (\<exists>evs. trace (refreshSyncResources envChangedConfig synchroWithPods) = trace synchroWithPods @ evs \<and>
          (\<forall>c. EvNewResourceStorage gvrPods c \<notin> set evs) \<and>
          (\<forall>c. EvNewResourceSynchro gvrPods c \<notin> set evs) \<and>
          EvSynchroRun gvrPods \<notin> set evs \<and> EvSynchroStart gvrPods \<notin> set evs \<and>
          EvSynchroClose gvrPods \<notin> set evs)"
proof -
  have h1: "syncResources synchroWithPods = Some desiredPods"
    by (simp add: synchroWithPods_def)
  have h2: "NegotiateSyncResources envChangedConfig desiredPods
              = ([(gvrPods, condFor ''v1'' gvrPods)], [(gvrPods, changedPodConfig)])"
    by (simp add: envChangedConfig_def)
  have h3: "map_of (storageResourceSynchros synchroWithPods) gvrPods = Some podSynchro"
    by (simp add: synchroWithPods_def)
  have h4: "map_of [(gvrPods, changedPodConfig)] gvrPods = Some changedPodConfig"
    by simp
  have differs: "synchro_Config podSynchro \<noteq>
     synchroConfig envChangedConfig synchroWithPods changedPodConfig
       \<lparr>Resources = Some [], Events = Some []\<rparr> ''pods-v2''"
    by (simp add: podSynchro_def synchroConfig_def changedPodConfig_def syncConfigFor_def)
  from refreshSyncResources_preserves_existing[OF h1 h2 h3 h4] differs show ?thesis by simp
qed

subsection \<open>Before any resources are set\<close>

text \<open>
  Claim C10. On a synchro on which \<^verbatim>\<open>SetResources\<close> has not yet stored a resource list
  other than \<^verbatim>\<open>nil\<close>, \<open>refreshSyncResources\<close> returns the synchro as it is (registry,
  watermarks, group/resource status and trace included), whatever the collaborators
  would answer, and \<open>genClusterStatus\<close> gives the server version, the two conditions
  Running and Healthy, and no sync resources.
\<close>

theorem refresh_before_SetResources:
  assumes "unset s"
  shows "refreshSyncResources env s = s \<and>
         genClusterStatus env' s =
           \<lparr>cs_Version = ServerVersion env' (dynamicDiscovery s),
            cs_Conditions = [runningCondition s, healthyCondition s],
            cs_SyncResources = None\<rparr>"
  using unset_fields[OF assms]
  by (simp add: refreshSyncResources_def genClusterStatus_def)

theorem refresh_before_SetResources_witness:
  "unset synchro0 \<and>
   refreshSyncResources envChangedConfig synchro0 = synchro0 \<and>
   genClusterStatus env0 synchro0 =
     \<lparr>cs_Version = ''v1.30.0'',
      cs_Conditions = [runningCondition synchro0, healthyCondition synchro0],
      cs_SyncResources = None\<rparr>"
proof -
  have u: "unset synchro0"
    by (rule unset_New[OF New_env0])
  from refresh_before_SetResources[OF u, of envChangedConfig env0] u show ?thesis
    by (simp add: env0_def)
qed

subsection \<open>Shutdown happens once\<close>

text \<open>
  Claim C1. On every synchro that comes about, a number N \<open>\<ge>\<close> 1 of calls of \<open>Shutdown\<close>,
  with whatever flags, behave as the first call alone. A call that returns leaves
  \<open>closed\<close> closed, and every call after it returns at once with the synchro as it is,
  trace included. Only the call that finds the once-flag unset does the work: it closes
  \<open>closer\<close>, waits for the wait group, stores the running condition with status
  \<open>ConditionFalse\<close> and reason \<open>SynchroShutdownReason\<close>, notifies the status channel if
  its flag is set, and closes the status channel; the status that is then published at
  most once carries that condition, and the call returns when \<open>closed\<close> has been closed.
  The outcome of a call is fixed by the once-flag and the number of status goroutines:
  the first call returns when \<^verbatim>\<open>Run\<close> has started one; it never returns when \<^verbatim>\<open>Run\<close> was
  never called, since nothing closes \<open>closed\<close>; and it panics when \<^verbatim>\<open>Run\<close> was called
  more than once, or again after a shutdown, since then \<open>closed\<close> is closed twice.
\<close>

theorem Shutdown_idempotent:
  assumes "reachable s"
  shows "ShutdownTimes env (upd # upds) s = Shutdown env upd s \<and>
         (\<forall>s'. Shutdown env upd s = Return s' \<longrightarrow>
            chan_closed (closed s') \<and>
            (\<forall>env' upd'. Shutdown env' upd' s' = Return s') \<and>
            (if closeOnce s then s' = s
             else s' = terminalState env upd s \<and>
                  closeOnce s' \<and> chan_closed (closer s') \<and> chan_closed (updateStatusCh s') \<and>
                  waitGroup s' = 0 \<and>
                  runningCondition s' =
                    \<lparr>Condition_Type = SynchroRunningCondition, Condition_Status = ConditionFalse,
                     Condition_Reason = SynchroShutdownReason,
                     Condition_Message = ''cluster synchro is shutdown'',
                     Condition_LastTransitionTime = Now env\<rparr> \<and>
                  trace s' =
                    trace s @ [EvCloseCloser, EvWaitGroupWait, EvCloseUpdateStatusCh] @
                    replicate (if upd then 1 else chan_len (updateStatusCh s))
                      (EvUpdateClusterStatus (name s)
                         (genClusterStatus env
                            (s\<lparr>runningCondition :=
                                 \<lparr>Condition_Type = SynchroRunningCondition, Condition_Status = ConditionFalse,
                                  Condition_Reason = SynchroShutdownReason,
                                  Condition_Message = ''cluster synchro is shutdown'',
                                  Condition_LastTransitionTime = Now env\<rparr>\<rparr>))) @
                    [EvCloseClosed])) \<and>
         Shutdown env upd s =
           (if closeOnce s
            then if statusUpdaters s = 0 then Return s else Panic ''close of closed channel''
            else if statusUpdaters s = 0 then Block
            else if statusUpdaters s = 1 then Return (terminalState env upd s)
            else Panic ''close of closed channel'')"
proof -
  have inv: "lifetimeInv s" using assms by (rule reachable_lifetimeInv)
  have later: "chan_closed (closed s') \<and> (\<forall>env' upd'. Shutdown env' upd' s' = Return s') \<and>
               (if closeOnce s then s' = s else s' = terminalState env upd s) \<and>
               ShutdownTimes env upds s' = Return s'"
    if ret: "Shutdown env upd s = Return s'" for s'
  proof -
    from Shutdown_returns[OF inv ret]
    have i': "lifetimeInv s'" and c: "closeOnce s'" and e: "statusUpdaters s' = 0"
      and cl: "chan_closed (closed s')"
      and st: "if closeOnce s then s' = s else statusUpdaters s = 1 \<and> s' = terminalState env upd s"
      by simp_all
    from st have st': "if closeOnce s then s' = s else s' = terminalState env upd s"
      by (simp split: if_splits)
    show ?thesis
      using cl st' Shutdown_again[OF i' c e] ShutdownTimes_again[OF i' c e] by simp
  qed
  have times: "ShutdownTimes env (upd # upds) s = Shutdown env upd s"
  proof (cases "Shutdown env upd s")
    case (Return s')
    with later[OF Return] show ?thesis by (simp add: bind_outcome_def)
  qed (simp_all add: bind_outcome_def)
  have terminal: "closeOnce (terminalState env upd s) \<and> chan_closed (closer (terminalState env upd s)) \<and>
                  chan_closed (updateStatusCh (terminalState env upd s)) \<and>
                  waitGroup (terminalState env upd s) = 0 \<and>
                  runningCondition (terminalState env upd s) =
                    \<lparr>Condition_Type = SynchroRunningCondition, Condition_Status = ConditionFalse,
                     Condition_Reason = SynchroShutdownReason,
                     Condition_Message = ''cluster synchro is shutdown'',
                     Condition_LastTransitionTime = Now env\<rparr> \<and>
                  trace (terminalState env upd s) =
                    trace s @ [EvCloseCloser, EvWaitGroupWait, EvCloseUpdateStatusCh] @
                    replicate (if upd then 1 else chan_len (updateStatusCh s))
                      (EvUpdateClusterStatus (name s)
                         (genClusterStatus env
                            (s\<lparr>runningCondition :=
                                 \<lparr>Condition_Type = SynchroRunningCondition, Condition_Status = ConditionFalse,
                                  Condition_Reason = SynchroShutdownReason,
                                  Condition_Message = ''cluster synchro is shutdown'',
                                  Condition_LastTransitionTime = Now env\<rparr>\<rparr>))) @
                    [EvCloseClosed]"
    by (simp add: terminalState_def Let_def)
  have outcome: "Shutdown env upd s =
           (if closeOnce s
            then if statusUpdaters s = 0 then Return s else Panic ''close of closed channel''
            else if statusUpdaters s = 0 then Block
            else if statusUpdaters s = 1 then Return (terminalState env upd s)
            else Panic ''close of closed channel'')"
  proof (cases "closeOnce s")
    case True
    show ?thesis
    proof (cases "statusUpdaters s = 0")
      case z: True
      with True Shutdown_again[OF inv True z, of env upd] show ?thesis by simp
    next
      case False
      then have "0 < statusUpdaters s" by simp
      from Shutdown_restarted[OF inv True this, of env upd] True False show ?thesis by simp
    qed
  next
    case False
    consider "statusUpdaters s = 0" | "statusUpdaters s = 1" | "1 < statusUpdaters s"
      by linarith
    then show ?thesis
    proof cases
      case 1
      with False Shutdown_unstarted[OF inv False 1, of env upd] show ?thesis by simp
    next
      case 2
      with False Shutdown_first[OF inv False 2, of env upd] show ?thesis by simp
    next
      case 3
      with False Shutdown_many[OF inv False 3, of env upd] show ?thesis by simp
    qed
  qed
  have ret: "chan_closed (closed s') \<and>
            (\<forall>env' upd'. Shutdown env' upd' s' = Return s') \<and>
            (if closeOnce s then s' = s
             else s' = terminalState env upd s \<and>
                  closeOnce s' \<and> chan_closed (closer s') \<and> chan_closed (updateStatusCh s') \<and>
                  waitGroup s' = 0 \<and>
                  runningCondition s' =
                    \<lparr>Condition_Type = SynchroRunningCondition, Condition_Status = ConditionFalse,
                     Condition_Reason = SynchroShutdownReason,
                     Condition_Message = ''cluster synchro is shutdown'',
                     Condition_LastTransitionTime = Now env\<rparr> \<and>
                  trace s' =
                    trace s @ [EvCloseCloser, EvWaitGroupWait, EvCloseUpdateStatusCh] @
                    replicate (if upd then 1 else chan_len (updateStatusCh s))
                      (EvUpdateClusterStatus (name s)
                         (genClusterStatus env
                            (s\<lparr>runningCondition :=
                                 \<lparr>Condition_Type = SynchroRunningCondition, Condition_Status = ConditionFalse,
                                  Condition_Reason = SynchroShutdownReason,
                                  Condition_Message = ''cluster synchro is shutdown'',
                                  Condition_LastTransitionTime = Now env\<rparr>\<rparr>))) @
                    [EvCloseClosed])"
    if r: "Shutdown env upd s = Return s'" for s'
  proof (cases "closeOnce s")
    case True
    with later[OF r] show ?thesis by auto
  next
    case False
    with later[OF r] have eq: "s' = terminalState env upd s" by simp
    from later[OF r] False terminal show ?thesis unfolding eq by auto
  qed
  from times ret outcome show ?thesis by blast
qed

text \<open>One call of \<^verbatim>\<open>Run\<close>, then three calls of \<open>Shutdown\<close>; a \<open>Shutdown\<close> before any
  \<^verbatim>\<open>Run\<close>; and a \<open>Shutdown\<close> after two calls of \<^verbatim>\<open>Run\<close>.\<close>

theorem Shutdown_idempotent_witness:
  "reachable (startRun env0 synchro0) \<and>
   ShutdownTimes env0 [True, False, True] (startRun env0 synchro0)
     = Return (terminalState env0 True (startRun env0 synchro0)) \<and>
   chan_closed (closed (terminalState env0 True (startRun env0 synchro0))) \<and>
   Shutdown env0 False (terminalState env0 True (startRun env0 synchro0))
     = Return (terminalState env0 True (startRun env0 synchro0)) \<and>
   Shutdown env0 True synchro0 = Block \<and>
   reachable (startRun env0 (startRun env0 synchro0)) \<and>
   Shutdown env0 True (startRun env0 (startRun env0 synchro0)) = Panic ''close of closed channel'' \<and>
   runningCondition (terminalState env0 True (startRun env0 synchro0)) =
     \<lparr>Condition_Type = ''SynchroRunning'', Condition_Status = ''False'',
      Condition_Reason = ''SynchroShutdown'', Condition_Message = ''cluster synchro is shutdown'',
      Condition_LastTransitionTime = 0\<rparr> \<and>
   trace (terminalState env0 True (startRun env0 synchro0)) =
     [EvRegisterResourceSynchroMetrics, EvCloseCloser, EvWaitGroupWait, EvCloseUpdateStatusCh,
      EvUpdateClusterStatus ''c1''
        \<lparr>cs_Version = ''v1.30.0'',
         cs_Conditions =
           [\<lparr>Condition_Type = ''SynchroRunning'', Condition_Status = ''False'',
             Condition_Reason = ''SynchroShutdown'', Condition_Message = ''cluster synchro is shutdown'',
             Condition_LastTransitionTime = 0\<rparr>,
            healthyCondition synchro0],
         cs_SyncResources = None\<rparr>,
      EvCloseClosed]"
proof -
  have r0: "reachable synchro0" by (rule reach_New[OF New_env0])
  have p0: "panicked synchro0 = None" by (simp add: synchro0_def)
  have r: "reachable (startRun env0 synchro0)" by (rule reach_startRun[OF r0 p0])
  have p1: "panicked (startRun env0 synchro0) = None" by (simp add: startRun_def synchro0_def)
  have r2: "reachable (startRun env0 (startRun env0 synchro0))" by (rule reach_startRun[OF r p1])
  have h: "\<not> closeOnce (startRun env0 synchro0)" "statusUpdaters (startRun env0 synchro0) = 1"
    by (simp_all add: startRun_def synchro0_def)
  have n: "\<not> closeOnce synchro0" "statusUpdaters synchro0 = 0" by (simp_all add: synchro0_def)
  have h2: "\<not> closeOnce (startRun env0 (startRun env0 synchro0))"
           "statusUpdaters (startRun env0 (startRun env0 synchro0)) = 2"
    by (simp_all add: startRun_def synchro0_def)
  note T = Shutdown_idempotent[OF r, of env0 True "[False, True]"]
  have b: "Shutdown env0 True (startRun env0 synchro0) = Return (terminalState env0 True (startRun env0 synchro0))"
    using T[THEN conjunct2, THEN conjunct2] h by simp
  have a: "ShutdownTimes env0 [True, False, True] (startRun env0 synchro0)
             = Return (terminalState env0 True (startRun env0 synchro0))"
    using T[THEN conjunct1] b by (rule trans)
  from T[THEN conjunct2, THEN conjunct1] b
  have later: "chan_closed (closed (terminalState env0 True (startRun env0 synchro0))) \<and>
            (\<forall>env' upd'. Shutdown env' upd' (terminalState env0 True (startRun env0 synchro0))
                            = Return (terminalState env0 True (startRun env0 synchro0)))"
    by blast
  have c: "chan_closed (closed (terminalState env0 True (startRun env0 synchro0)))"
    using later by blast
  have d: "Shutdown env0 False (terminalState env0 True (startRun env0 synchro0))
              = Return (terminalState env0 True (startRun env0 synchro0))"
    using later by blast
  have e: "Shutdown env0 True synchro0 = Block"
    using Shutdown_idempotent[OF r0, of env0 True "[]", THEN conjunct2, THEN conjunct2] n by simp
  have f: "Shutdown env0 True (startRun env0 (startRun env0 synchro0)) = Panic ''close of closed channel''"
    using Shutdown_idempotent[OF r2, of env0 True "[]", THEN conjunct2, THEN conjunct2] h2 by simp
  have g: "runningCondition (terminalState env0 True (startRun env0 synchro0)) =
     \<lparr>Condition_Type = ''SynchroRunning'', Condition_Status = ''False'',
      Condition_Reason = ''SynchroShutdown'', Condition_Message = ''cluster synchro is shutdown'',
      Condition_LastTransitionTime = 0\<rparr>"
    by (simp add: terminalState_def Let_def env0_def SynchroRunningCondition_def ConditionFalse_def
          SynchroShutdownReason_def)
  have t: "trace (terminalState env0 True (startRun env0 synchro0)) =
     [EvRegisterResourceSynchroMetrics, EvCloseCloser, EvWaitGroupWait, EvCloseUpdateStatusCh,
      EvUpdateClusterStatus ''c1''
        \<lparr>cs_Version = ''v1.30.0'',
         cs_Conditions =
           [\<lparr>Condition_Type = ''SynchroRunning'', Condition_Status = ''False'',
             Condition_Reason = ''SynchroShutdown'', Condition_Message = ''cluster synchro is shutdown'',
             Condition_LastTransitionTime = 0\<rparr>,
            healthyCondition synchro0],
         cs_SyncResources = None\<rparr>,
      EvCloseClosed]"
    by (simp add: terminalState_def Let_def startRun_def genClusterStatus_def synchro0_def env0_def
          SynchroRunningCondition_def ConditionFalse_def SynchroShutdownReason_def)
  from r a c d e r2 f g t show ?thesis by blast
qed

subsection \<open>One pending status notification\<close>

text \<open>
  Claim C8. On every synchro that comes about, the status channel has capacity one and
  holds at most one notification. \<open>updateStatus\<close> never blocks: on an open channel it
  leaves exactly one notification pending, so a notification sent while one is pending is
  dropped. Before \<open>Run\<close> nothing consumes the channel; \<open>Run\<close> starts a status goroutine,
  and the status goroutines take every pending notification off the channel and call the
  status updater once for each, with the status generated at that time.
\<close>

theorem updateStatusCh_single_slot:
  assumes "reachable s"
  shows "chan_cap (updateStatusCh s) = 1 \<and> chan_len (updateStatusCh s) \<le> 1 \<and>
         updateStatus s \<noteq> Block \<and>
         (\<not> chan_closed (updateStatusCh s) \<longrightarrow>
            updateStatus s = Return (s\<lparr>updateStatusCh := (updateStatusCh s)\<lparr>chan_len := 1\<rparr>\<rparr>)) \<and>
         (\<not> chan_closed (updateStatusCh s) \<and> chan_len (updateStatusCh s) = 1 \<longrightarrow>
            updateStatus s = Return s) \<and>
         (statusUpdaters s = 0 \<longrightarrow> statusUpdaterRun env s = Return s) \<and>
         statusUpdaters (startRun env s) = statusUpdaters s + 1 \<and>
         (0 < statusUpdaters s \<and> \<not> chan_closed (updateStatusCh s) \<longrightarrow>
            statusUpdaterRun env s =
              Return (s\<lparr>updateStatusCh := (updateStatusCh s)\<lparr>chan_len := 0\<rparr>,
                        trace := trace s @ replicate (chan_len (updateStatusCh s))
                                   (EvUpdateClusterStatus (name s) (genClusterStatus env s))\<rparr>))"
proof -
  from reachable_lifetimeInv[OF assms]
  have cap: "chan_cap (updateStatusCh s) = 1" and len: "chan_len (updateStatusCh s) \<le> 1"
    by (simp_all add: lifetimeInv_def)
  have nb: "updateStatus s \<noteq> Block"
    by (simp add: updateStatus_def chan_send_def)
  have send: "updateStatus s = Return (s\<lparr>updateStatusCh := (updateStatusCh s)\<lparr>chan_len := 1\<rparr>\<rparr>)"
    if op: "\<not> chan_closed (updateStatusCh s)"
  proof (cases "chan_len (updateStatusCh s) = 0")
    case True
    with op cap show ?thesis by (simp add: updateStatus_def chan_send_def)
  next
    case False
    with len have one: "chan_len (updateStatusCh s) = 1" by simp
    then have "(updateStatusCh s)\<lparr>chan_len := 1\<rparr> = updateStatusCh s" by simp
    with op cap one show ?thesis by (simp add: updateStatus_def chan_send_def)
  qed
  have drop: "updateStatus s = Return s"
    if "\<not> chan_closed (updateStatusCh s)" "chan_len (updateStatusCh s) = 1"
    using that cap by (simp add: updateStatus_def chan_send_def)
  have idle: "statusUpdaterRun env s = Return s" if "statusUpdaters s = 0"
    using that by (simp add: statusUpdaterRun_def)
  have started: "statusUpdaters (startRun env s) = statusUpdaters s + 1"
    by (simp add: startRun_def)
  have consume: "statusUpdaterRun env s =
              Return (s\<lparr>updateStatusCh := (updateStatusCh s)\<lparr>chan_len := 0\<rparr>,
                        trace := trace s @ replicate (chan_len (updateStatusCh s))
                                   (EvUpdateClusterStatus (name s) (genClusterStatus env s))\<rparr>)"
    if "0 < statusUpdaters s" "\<not> chan_closed (updateStatusCh s)"
    using that by (simp add: statusUpdaterRun_def drainStatusCh_eq Let_def)
  from cap len nb send drop idle started consume show ?thesis by blast
qed

theorem updateStatusCh_single_slot_witness:
  "reachable synchroNotified \<and>
   updateStatus synchroNotified = Return synchroNotified \<and>
   statusUpdaterRun env0 synchroNotified
     = Return (synchroNotified
         \<lparr>updateStatusCh := \<lparr>chan_cap = 1, chan_len = 0, chan_closed = False\<rparr>,
          trace := [EvRegisterResourceSynchroMetrics,
                    EvUpdateClusterStatus ''c1''
                      \<lparr>cs_Version = ''v1.30.0'',
                       cs_Conditions = [runningCondition synchroNotified, healthyCondition synchroNotified],
                       cs_SyncResources = None\<rparr>]\<rparr>)"
proof -
  have p0: "panicked synchro0 = None" by (simp add: synchro0_def)
  have r1: "reachable (startRun env0 synchro0)"
    by (rule reach_startRun[OF reach_New[OF New_env0] p0])
  have p1: "panicked (startRun env0 synchro0) = None" by (simp add: startRun_def synchro0_def)
  have u: "updateStatus (startRun env0 synchro0) = Return synchroNotified"
    by (simp add: updateStatus_def chan_send_def startRun_def synchro0_def make_chan_def synchroNotified_def)
  have r: "reachable synchroNotified" by (rule reach_updateStatus[OF r1 p1 u])
  have h: "\<not> chan_closed (updateStatusCh synchroNotified) \<and> chan_len (updateStatusCh synchroNotified) = 1 \<and>
           0 < statusUpdaters synchroNotified"
    by (simp add: startRun_def synchroNotified_def synchro0_def)
  note T = updateStatusCh_single_slot[OF r, of env0]
  have a: "updateStatus synchroNotified = Return synchroNotified" using T h by blast
  have "statusUpdaterRun env0 synchroNotified =
          Return (synchroNotified\<lparr>updateStatusCh := (updateStatusCh synchroNotified)\<lparr>chan_len := 0\<rparr>,
                    trace := trace synchroNotified @ replicate (chan_len (updateStatusCh synchroNotified))
                               (EvUpdateClusterStatus (name synchroNotified)
                                  (genClusterStatus env0 synchroNotified))\<rparr>)"
    using T h by blast
  then have b: "statusUpdaterRun env0 synchroNotified
     = Return (synchroNotified
         \<lparr>updateStatusCh := \<lparr>chan_cap = 1, chan_len = 0, chan_closed = False\<rparr>,
          trace := [EvRegisterResourceSynchroMetrics,
                    EvUpdateClusterStatus ''c1''
                      \<lparr>cs_Version = ''v1.30.0'',
                       cs_Conditions = [runningCondition synchroNotified, healthyCondition synchroNotified],
                       cs_SyncResources = None\<rparr>]\<rparr>)"
    by (simp add: synchroNotified_def startRun_def synchro0_def env0_def genClusterStatus_def)
  from r a b show ?thesis by blast
qed

subsection \<open>Watermarks of the live reconcilers\<close>

text \<open>
  Claim C2. On every synchro that comes about, each storage GVR of the reconciler registry
  has an entry in the watermark map, and both maps of the entry are other than \<^verbatim>\<open>nil\<close>.
  This holds of every entry of the watermark map: those loaded from storage have had
  their \<^verbatim>\<open>nil\<close> maps replaced by empty ones, and the entry that the refresh looks up
  or makes before it constructs a reconciler (lines 385 to 392) is in the map and
  initialised.
\<close>

theorem registry_watermarks_initialised:
  assumes "reachable s"
  shows "(\<forall>g synchro. map_of (storageResourceSynchros s) g = Some synchro \<longrightarrow>
            (\<exists>rvs. map_of (storageResourceVersions s) g = Some rvs \<and>
                   Resources rvs \<noteq> None \<and> Events rvs \<noteq> None)) \<and>
         (\<forall>g rvs. map_of (storageResourceVersions s) g = Some rvs \<longrightarrow>
            Resources rvs \<noteq> None \<and> Events rvs \<noteq> None) \<and>
         (\<forall>g rvs s1. ensureResourceVersions g s = (rvs, s1) \<longrightarrow>
            map_of (storageResourceVersions s1) g = Some rvs \<and>
            Resources rvs \<noteq> None \<and> Events rvs \<noteq> None) \<and>
         (\<forall>r. Resources (initResourceVersions r) = Some (case Resources r of None \<Rightarrow> [] | Some x \<Rightarrow> x) \<and>
              Events (initResourceVersions r) = Some (case Events r of None \<Rightarrow> [] | Some x \<Rightarrow> x))"
proof -
  from reachable_watermarksInv[OF assms]
  have ini: "\<And>g rvs. map_of (storageResourceVersions s) g = Some rvs \<Longrightarrow>
               Resources rvs \<noteq> None \<and> Events rvs \<noteq> None"
    and tracked: "\<And>g synchro. map_of (storageResourceSynchros s) g = Some synchro \<Longrightarrow>
               map_of (storageResourceVersions s) g \<noteq> None"
    by (auto simp: watermarksInv_def initialised_def)
  have a: "\<exists>rvs. map_of (storageResourceVersions s) g = Some rvs \<and>
                 Resources rvs \<noteq> None \<and> Events rvs \<noteq> None"
    if "map_of (storageResourceSynchros s) g = Some synchro" for g synchro
    using tracked[OF that] ini[of g] by auto
  have c: "map_of (storageResourceVersions s1) g = Some rvs \<and>
           Resources rvs \<noteq> None \<and> Events rvs \<noteq> None"
    if "ensureResourceVersions g s = (rvs, s1)" for g rvs s1
    using that ini[of g]
    by (auto simp: ensureResourceVersions_def update_conv' Let_def split: option.splits)
  have d: "Resources (initResourceVersions r) = Some (case Resources r of None \<Rightarrow> [] | Some x \<Rightarrow> x) \<and>
           Events (initResourceVersions r) = Some (case Events r of None \<Rightarrow> [] | Some x \<Rightarrow> x)" for r
    by (auto simp: initResourceVersions_def Let_def split: option.splits)
  from a ini c d show ?thesis by blast
qed

theorem registry_watermarks_initialised_witness:
  "reachable (refreshSyncResources env0 synchroDesiringPods) \<and>
   map_of (storageResourceSynchros (refreshSyncResources env0 synchroDesiringPods)) gvrPods = Some podSynchro \<and>
   (\<exists>rvs. map_of (storageResourceVersions (refreshSyncResources env0 synchroDesiringPods)) gvrPods = Some rvs \<and>
          Resources rvs \<noteq> None \<and> Events rvs \<noteq> None) \<and>
   map_of (storageResourceVersions (refreshSyncResources env0 synchroDesiringPods)) gvrPods
     = Some \<lparr>Resources = Some [], Events = Some []\<rparr> \<and>
   GetResourceVersions env0 ''c1'' = Inr [(gvrDeployments, \<lparr>Resources = None, Events = Some [(''u1'', ''10'')]\<rparr>)] \<and>
   map_of (storageResourceVersions synchro0) gvrDeployments
     = Some \<lparr>Resources = Some [], Events = Some [(''u1'', ''10'')]\<rparr>"
proof -
  have r0: "reachable synchro0" by (rule reach_New[OF New_env0])
  have p0: "panicked synchro0 = None" by (simp add: synchro0_def)
  have r1: "reachable synchroDesiringPods" by (rule reach_SetResources[OF r0 p0 SetResources_synchro0])
  have p1: "panicked synchroDesiringPods = None" by (simp add: synchroDesiringPods_def synchro0_def)
  have r: "reachable (refreshSyncResources env0 synchroDesiringPods)" by (rule reach_refresh[OF r1 p1])
  have reg: "map_of (storageResourceSynchros (refreshSyncResources env0 synchroDesiringPods)) gvrPods
               = Some podSynchro"
    by (simp add: refresh_eval env0_def synchroDesiringPods_def synchro0_def podSynchro_def
          gvrPods_def gvrDeployments_def syncConfigFor_def condFor_def syncConfig0_def desiredPods_def)
  have wm: "map_of (storageResourceVersions (refreshSyncResources env0 synchroDesiringPods)) gvrPods
              = Some \<lparr>Resources = Some [], Events = Some []\<rparr>"
    by (simp add: refresh_eval env0_def synchroDesiringPods_def synchro0_def
          gvrPods_def gvrDeployments_def syncConfigFor_def condFor_def syncConfig0_def desiredPods_def)
  have ex: "\<exists>rvs. map_of (storageResourceVersions (refreshSyncResources env0 synchroDesiringPods)) gvrPods = Some rvs \<and>
          Resources rvs \<noteq> None \<and> Events rvs \<noteq> None"
    using registry_watermarks_initialised[OF r] reg by blast
  have ld: "GetResourceVersions env0 ''c1'' = Inr [(gvrDeployments, \<lparr>Resources = None, Events = Some [(''u1'', ''10'')]\<rparr>)]"
    by (simp add: env0_def)
  have w0: "map_of (storageResourceVersions synchro0) gvrDeployments
     = Some \<lparr>Resources = Some [], Events = Some [(''u1'', ''10'')]\<rparr>"
    by (simp add: synchro0_def)
  from r reg ex wm ld w0 show ?thesis by blast
qed

subsection \<open>Condition updates reach every sync GVR of a storage GVR\<close>

text \<open>
  Claim C6. A call of \<open>updateSyncConditions\<close> for a storage GVR calls
  \<open>UpdateSyncCondition\<close> once for each sync GVR that the mapping gives for it, in the
  order of the mapping, with the same status, reason and message; in the status, every
  condition of such a sync GVR gets the three texts and every other condition stays as it
  is. The mapping of the refresh gives for a storage GVR the sync GVRs whose condition
  names it. Each of the five updates of a refresh reaches all sync GVRs of its storage
  GVR \<open>g\<close>. For a \<open>g\<close> of the plan that has no reconciler yet: when \<open>NewResourceStorage\<close>
  fails, the call is followed at once by the updates of all sync GVRs of \<open>g\<close> to Pending
  with reason SynchroCreateFailed and the formatted error; when \<open>NewResourceSynchro\<close>
  fails, the two calls are followed by those updates likewise; when both succeed, the
  start of the reconciler is followed by the updates of all of them to Unknown with empty
  reason and message. For a \<open>g\<close> whose reconciler the closing loop closes, the completed
  \<open>Close\<close> is followed by the updates of all of them to Stop with reason SynchroRemoved.
  For a tracked \<open>g\<close> outside the plan whose clean-up fails, in a refresh that reaches the
  clean-up loop and does not panic in it, the call of \<open>CleanClusterResource\<close> is followed
  by the updates of all of them to Stop with reason CleanResourceFailed and the error's
  text.
\<close>

theorem updateSyncConditions_fans_out:
  assumes "syncResources s = Some resources"
      and "NegotiateSyncResources env resources = (negotiated, plan)"
      and "Merge negotiated (groupResourceStatus s) = (status, deleted)"
  shows "trace (updateSyncConditions m' g' st r msg s') =
           trace s' @ map (\<lambda>gvr. EvUpdateSyncCondition gvr st r msg) (m' g') \<and>
         groupResourceStatus (updateSyncConditions m' g' st r msg s') =
           map_option (map (\<lambda>(k, c). if k \<in> set (m' g')
                                      then (k, c\<lparr>sc_Status := st, sc_Reason := r, sc_Message := msg\<rparr>)
                                      else (k, c)))
             (groupResourceStatus s') \<and>
         (\<forall>g. set (GetStorageGVRToSyncGVRs status g) =
                {gvr. \<exists>c. (gvr, c) \<in> set status \<and> sc_StorageGVR c = g}) \<and>
         (\<forall>g config err.
            map_of plan g = Some config \<and> map_of (storageResourceSynchros s) g = None \<and>
            NewResourceStorage env (resourceStorageConfig config) = Inl err \<longrightarrow>
            (\<exists>pre post. trace (refreshSyncResources env s) =
               trace s @ pre @
               EvNewResourceStorage g (resourceStorageConfig config) #
               map (\<lambda>gvr. EvUpdateSyncCondition gvr ResourceSyncStatusPending ''SynchroCreateFailed''
                            (''new resource storage failed: '' @ formatError ''s'' err))
                 (GetStorageGVRToSyncGVRs status g) @ post)) \<and>
         (\<forall>g config resourceStorage err.
            map_of plan g = Some config \<and> map_of (storageResourceSynchros s) g = None \<and>
            NewResourceStorage env (resourceStorageConfig config) = Inr resourceStorage \<and>
            NewResourceSynchro env (resourceSynchroFactory s) (name s)
              (synchroConfig env s config (fst (ensureResourceVersions g s)) resourceStorage) = Inl err \<longrightarrow>
            (\<exists>pre post. trace (refreshSyncResources env s) =
               trace s @ pre @
               [EvNewResourceStorage g (resourceStorageConfig config),
                EvNewResourceSynchro g
                  (synchroConfig env s config (fst (ensureResourceVersions g s)) resourceStorage)] @
               map (\<lambda>gvr. EvUpdateSyncCondition gvr ResourceSyncStatusPending ''SynchroCreateFailed''
                            (''new resource synchro failed: '' @ formatError ''s'' err))
                 (GetStorageGVRToSyncGVRs status g) @ post)) \<and>
         (\<forall>g config resourceStorage synchro.
            map_of plan g = Some config \<and> map_of (storageResourceSynchros s) g = None \<and>
            NewResourceStorage env (resourceStorageConfig config) = Inr resourceStorage \<and>
            NewResourceSynchro env (resourceSynchroFactory s) (name s)
              (synchroConfig env s config (fst (ensureResourceVersions g s)) resourceStorage) = Inr synchro \<longrightarrow>
            (\<exists>pre post. trace (refreshSyncResources env s) =
               trace s @ pre @
               [EvNewResourceStorage g (resourceStorageConfig config),
                EvNewResourceSynchro g
                  (synchroConfig env s config (fst (ensureResourceVersions g s)) resourceStorage),
                EvSynchroRun g] @
               map (\<lambda>gvr. EvUpdateSyncCondition gvr ResourceSyncStatusUnknown [] [])
                 (GetStorageGVRToSyncGVRs status g) @ post)) \<and>
         (\<forall>g \<in> set (takeWhile (CloseCompletes env) (removedStorageGVRs plan s)).
            \<exists>pre post. trace (refreshSyncResources env s) =
               trace s @ pre @ [EvSynchroClose g, EvSynchroClosed g] @
               map (\<lambda>gvr. EvUpdateSyncCondition gvr ResourceSyncStatusStop ''SynchroRemoved''
                            ''the resource synchro is moved'')
                 (GetStorageGVRToSyncGVRs status g) @ post) \<and>
         (list_all (CloseCompletes env) (removedStorageGVRs plan s) \<and> panicked s = None \<and>
          (\<forall>g err. map_of (storageResourceVersions s) g \<noteq> None \<and> map_of plan g = None \<and>
                    CleanClusterResource env (name s) g = Some err \<longrightarrow> Error err \<noteq> None) \<longrightarrow>
          (\<forall>g err message.
             map_of (storageResourceVersions s) g \<noteq> None \<and> map_of plan g = None \<and>
             CleanClusterResource env (name s) g = Some err \<and> Error err = Some message \<longrightarrow>
             (\<exists>pre post. trace (refreshSyncResources env s) =
                trace s @ pre @
                EvCleanClusterResource (name s) g #
                map (\<lambda>gvr. EvUpdateSyncCondition gvr ResourceSyncStatusStop ''CleanResourceFailed'' message)
                  (GetStorageGVRToSyncGVRs status g) @ post)))"
proof -
  define m where "m = GetStorageGVRToSyncGVRs status"
  have eq: "refreshSyncResources env s = refreshWith env negotiated plan s"
    using assms(1,2) by (simp add: refreshSyncResources_def)
  have a: "trace (updateSyncConditions m' g' st r msg s') =
           trace s' @ map (\<lambda>gvr. EvUpdateSyncCondition gvr st r msg) (m' g')"
    by (simp add: updateSyncConditions_eq)
  have b: "groupResourceStatus (updateSyncConditions m' g' st r msg s') =
           map_option (map (\<lambda>(k, c). if k \<in> set (m' g')
                                      then (k, c\<lparr>sc_Status := st, sc_Reason := r, sc_Message := msg\<rparr>)
                                      else (k, c)))
             (groupResourceStatus s')"
    by (cases "groupResourceStatus s'") (simp_all add: updateSyncConditions_eq fold_UpdateSyncCondition_eq)
  have c: "set (GetStorageGVRToSyncGVRs status g) = {gvr. \<exists>c. (gvr, c) \<in> set status \<and> sc_StorageGVR c = g}"
    for g
    by (force simp: GetStorageGVRToSyncGVRs_def)
  have step: "\<exists>sA pre post.
           trace sA = trace s @ pre \<and>
           trace (refreshSyncResources env s) = trace (createSynchro env m (g, config) sA) @ post \<and>
           map_of (storageResourceSynchros sA) g = None \<and>
           resourceSynchroFactory sA = resourceSynchroFactory s \<and> name sA = name s \<and>
           (\<forall>resourceStorage.
              synchroConfig env sA config (fst (ensureResourceVersions g sA)) resourceStorage =
              synchroConfig env s config (fst (ensureResourceVersions g s)) resourceStorage)"
    if pl: "map_of plan g = Some config" and rg: "map_of (storageResourceSynchros s) g = None"
    for g config
  proof -
    from refreshWith_creation_step[OF assms(3) pl rg, of env]
    obtain sA pre post where
      pre: "trace sA = trace s @ pre"
      and post: "trace (refreshWith env negotiated plan s) = trace (createSynchro env m (g, config) sA) @ post"
      and rA: "map_of (storageResourceSynchros sA) g = None"
      and wA: "map_of (storageResourceVersions sA) g = map_of (storageResourceVersions s) g"
      and fA: "refreshFrame s sA"
      unfolding m_def by blast
    have same: "synchroConfig env sA config (fst (ensureResourceVersions g sA)) resourceStorage =
                synchroConfig env s config (fst (ensureResourceVersions g s)) resourceStorage"
      for resourceStorage
      by (simp add: refreshFrame_config(3)[OF fA] ensureResourceVersions_fst_cong[OF wA])
    from pre post rA same refreshFrame_config(1,2)[OF fA] eq show ?thesis by auto
  qed
  have d: "\<exists>pre post. trace (refreshSyncResources env s) =
               trace s @ pre @
               EvNewResourceStorage g (resourceStorageConfig config) #
               map (\<lambda>gvr. EvUpdateSyncCondition gvr ResourceSyncStatusPending ''SynchroCreateFailed''
                            (''new resource storage failed: '' @ formatError ''s'' err)) (m g) @ post"
    if pl: "map_of plan g = Some config" and rg: "map_of (storageResourceSynchros s) g = None"
      and fl: "NewResourceStorage env (resourceStorageConfig config) = Inl err" for g config err
  proof -
    from step[OF pl rg] obtain sA pre post where
      pre: "trace sA = trace s @ pre"
      and post: "trace (refreshSyncResources env s) = trace (createSynchro env m (g, config) sA) @ post"
      and rA: "map_of (storageResourceSynchros sA) g = None"
      by blast
    from createSynchro_storage_fails[OF rA fl, of m] post pre
    have "trace (refreshSyncResources env s) =
               trace s @ pre @
               EvNewResourceStorage g (resourceStorageConfig config) #
               map (\<lambda>gvr. EvUpdateSyncCondition gvr ResourceSyncStatusPending ''SynchroCreateFailed''
                            (''new resource storage failed: '' @ formatError ''s'' err)) (m g) @ post"
      by simp
    then show ?thesis by blast
  qed
  have e: "\<exists>pre post. trace (refreshSyncResources env s) =
               trace s @ pre @
               [EvNewResourceStorage g (resourceStorageConfig config),
                EvNewResourceSynchro g
                  (synchroConfig env s config (fst (ensureResourceVersions g s)) resourceStorage)] @
               map (\<lambda>gvr. EvUpdateSyncCondition gvr ResourceSyncStatusPending ''SynchroCreateFailed''
                            (''new resource synchro failed: '' @ formatError ''s'' err)) (m g) @ post"
    if pl: "map_of plan g = Some config" and rg: "map_of (storageResourceSynchros s) g = None"
      and st: "NewResourceStorage env (resourceStorageConfig config) = Inr resourceStorage"
      and sy: "NewResourceSynchro env (resourceSynchroFactory s) (name s)
              (synchroConfig env s config (fst (ensureResourceVersions g s)) resourceStorage) = Inl err"
    for g config resourceStorage err
  proof -
    from step[OF pl rg] obtain sA pre post where
      pre: "trace sA = trace s @ pre"
      and post: "trace (refreshSyncResources env s) = trace (createSynchro env m (g, config) sA) @ post"
      and rA: "map_of (storageResourceSynchros sA) g = None"
      and fr: "resourceSynchroFactory sA = resourceSynchroFactory s" "name sA = name s"
      and same: "\<And>resourceStorage.
              synchroConfig env sA config (fst (ensureResourceVersions g sA)) resourceStorage =
              synchroConfig env s config (fst (ensureResourceVersions g s)) resourceStorage"
      by blast
    have sy': "NewResourceSynchro env (resourceSynchroFactory sA) (name sA)
              (synchroConfig env sA config (fst (ensureResourceVersions g sA)) resourceStorage) = Inl err"
      using sy by (simp add: same fr)
    from createSynchro_synchro_fails[OF rA st sy', of m] post pre same
    have "trace (refreshSyncResources env s) =
               trace s @ pre @
               [EvNewResourceStorage g (resourceStorageConfig config),
                EvNewResourceSynchro g
                  (synchroConfig env s config (fst (ensureResourceVersions g s)) resourceStorage)] @
               map (\<lambda>gvr. EvUpdateSyncCondition gvr ResourceSyncStatusPending ''SynchroCreateFailed''
                            (''new resource synchro failed: '' @ formatError ''s'' err)) (m g) @ post"
      by simp
    then show ?thesis by blast
  qed
  have f: "\<exists>pre post. trace (refreshSyncResources env s) =
               trace s @ pre @
               [EvNewResourceStorage g (resourceStorageConfig config),
                EvNewResourceSynchro g
                  (synchroConfig env s config (fst (ensureResourceVersions g s)) resourceStorage),
                EvSynchroRun g] @
               map (\<lambda>gvr. EvUpdateSyncCondition gvr ResourceSyncStatusUnknown [] []) (m g) @ post"
    if pl: "map_of plan g = Some config" and rg: "map_of (storageResourceSynchros s) g = None"
      and st: "NewResourceStorage env (resourceStorageConfig config) = Inr resourceStorage"
      and sy: "NewResourceSynchro env (resourceSynchroFactory s) (name s)
              (synchroConfig env s config (fst (ensureResourceVersions g s)) resourceStorage) = Inr synchro"
    for g config resourceStorage synchro
  proof -
    from step[OF pl rg] obtain sA pre post where
      pre: "trace sA = trace s @ pre"
      and post: "trace (refreshSyncResources env s) = trace (createSynchro env m (g, config) sA) @ post"
      and rA: "map_of (storageResourceSynchros sA) g = None"
      and fr: "resourceSynchroFactory sA = resourceSynchroFactory s" "name sA = name s"
      and same: "\<And>resourceStorage.
              synchroConfig env sA config (fst (ensureResourceVersions g sA)) resourceStorage =
              synchroConfig env s config (fst (ensureResourceVersions g s)) resourceStorage"
      by blast
    have sy': "NewResourceSynchro env (resourceSynchroFactory sA) (name sA)
              (synchroConfig env sA config (fst (ensureResourceVersions g sA)) resourceStorage) = Inr synchro"
      using sy by (simp add: same fr)
    from createSynchro_succeeds[OF rA st sy', of m] obtain started where
      "trace (createSynchro env m (g, config) sA) =
           trace sA @ [EvNewResourceStorage g (resourceStorageConfig config),
                      EvNewResourceSynchro g
                        (synchroConfig env sA config (fst (ensureResourceVersions g sA)) resourceStorage),
                      EvSynchroRun g] @
             map (\<lambda>gvr. EvUpdateSyncCondition gvr ResourceSyncStatusUnknown [] []) (m g) @ started"
      by blast
    with post pre same
    have "trace (refreshSyncResources env s) =
               trace s @ pre @
               [EvNewResourceStorage g (resourceStorageConfig config),
                EvNewResourceSynchro g
                  (synchroConfig env s config (fst (ensureResourceVersions g s)) resourceStorage),
                EvSynchroRun g] @
               map (\<lambda>gvr. EvUpdateSyncCondition gvr ResourceSyncStatusUnknown [] []) (m g) @ (started @ post)"
      by simp
    then show ?thesis by blast
  qed
  have g: "\<exists>pre post. trace (refreshSyncResources env s) =
               trace s @ pre @ [EvSynchroClose g, EvSynchroClosed g] @
               map (\<lambda>gvr. EvUpdateSyncCondition gvr ResourceSyncStatusStop ''SynchroRemoved''
                            ''the resource synchro is moved'') (m g) @ post"
    if "g \<in> set (takeWhile (CloseCompletes env) (removedStorageGVRs plan s))" for g
    using refresh_closes_removed[OF assms, THEN conjunct2, THEN conjunct1] that
    unfolding m_def by blast
  have h: "\<exists>pre post. trace (refreshSyncResources env s) =
                trace s @ pre @
                EvCleanClusterResource (name s) g #
                map (\<lambda>gvr. EvUpdateSyncCondition gvr ResourceSyncStatusStop ''CleanResourceFailed'' message)
                  (m g) @ post"
    if "list_all (CloseCompletes env) (removedStorageGVRs plan s)" "panicked s = None"
       "\<forall>g err. map_of (storageResourceVersions s) g \<noteq> None \<and> map_of plan g = None \<and>
                    CleanClusterResource env (name s) g = Some err \<longrightarrow> Error err \<noteq> None"
       "map_of (storageResourceVersions s) g \<noteq> None" "map_of plan g = None"
       "CleanClusterResource env (name s) g = Some err" "Error err = Some message"
    for g err message
    using refresh_cleans_unplanned[OF assms that(1,2,3), THEN conjunct2, THEN conjunct2, THEN conjunct2,
        THEN conjunct1] that(4-7)
    unfolding m_def by blast
  show ?thesis
    apply (intro conjI allI impI ballI)
    subgoal by (rule a)
    subgoal by (rule b)
    subgoal by (rule c)
    subgoal by (rule d[unfolded m_def]) auto
    subgoal by (rule e[unfolded m_def]) auto
    subgoal by (rule f[unfolded m_def]) auto
    subgoal by (rule g[unfolded m_def])
    subgoal by (rule h[unfolded m_def]) auto
    done
qed

text \<open>
  Two versions of cron jobs stored as one: with a storage that cannot be made, both
  conditions go to Pending with reason SynchroCreateFailed; with one that can, both go to
  Unknown. The deployments reconciler that is closed, and whose clean-up fails, has its
  condition updated twice.
\<close>

theorem updateSyncConditions_fans_out_witness:
  "GetStorageGVRToSyncGVRs cronJobsStatus gvrCronJobsV1 = [gvrCronJobsV1beta1, gvrCronJobsV1] \<and>
   (\<exists>pre post. trace (refreshSyncResources envCronJobsNoStorage synchroDesiringCronJobs) =
      trace synchroDesiringCronJobs @ pre @
      EvNewResourceStorage gvrCronJobsV1 ''cronjobs'' #
      map (\<lambda>gvr. EvUpdateSyncCondition gvr ResourceSyncStatusPending ''SynchroCreateFailed''
                   (''new resource storage failed: '' @ formatError ''s'' (errorString ''no table'')))
        (GetStorageGVRToSyncGVRs cronJobsStatus gvrCronJobsV1) @ post) \<and>
   trace (refreshSyncResources envCronJobsNoStorage synchroDesiringCronJobs) =
     [EvRegisterResourceSynchroMetrics,
      EvNewResourceStorage gvrCronJobsV1 ''cronjobs'',
      EvUpdateSyncCondition gvrCronJobsV1beta1 ''Pending'' ''SynchroCreateFailed''
        ''new resource storage failed: no table'',
      EvUpdateSyncCondition gvrCronJobsV1 ''Pending'' ''SynchroCreateFailed''
        ''new resource storage failed: no table''] \<and>
   map_option (map (\<lambda>(k, c). (Version k, sc_Status c, sc_Reason c)))
     (groupResourceStatus (refreshSyncResources envCronJobsNoStorage synchroDesiringCronJobs)) =
     Some [(''v1beta1'', ''Pending'', ''SynchroCreateFailed''), (''v1'', ''Pending'', ''SynchroCreateFailed'')] \<and>
   storageResourceSynchros (refreshSyncResources envCronJobsNoStorage synchroDesiringCronJobs) = [] \<and>
   (\<exists>pre post. trace (refreshSyncResources envCronJobs synchroDesiringCronJobs) =
      trace synchroDesiringCronJobs @ pre @
      [EvNewResourceStorage gvrCronJobsV1 ''cronjobs'',
       EvNewResourceSynchro gvrCronJobsV1
         (synchroConfig envCronJobs synchroDesiringCronJobs (syncConfigFor ''CronJob'' gvrCronJobsV1)
            \<lparr>Resources = Some [], Events = Some []\<rparr> ''cronjobs''),
       EvSynchroRun gvrCronJobsV1] @
      map (\<lambda>gvr. EvUpdateSyncCondition gvr ResourceSyncStatusUnknown [] [])
        (GetStorageGVRToSyncGVRs cronJobsStatus gvrCronJobsV1) @ post) \<and>
   map_option (map (\<lambda>(k, c). (Version k, sc_Status c, sc_Reason c)))
     (groupResourceStatus (refreshSyncResources envCronJobs synchroDesiringCronJobs)) =
     Some [(''v1beta1'', ''Unknown'', []), (''v1'', ''Unknown'', [])] \<and>
   (\<exists>pre post. trace (refreshSyncResources envCleanFails synchroWithDeployments) =
      trace synchroWithDeployments @ pre @ [EvSynchroClose gvrDeployments, EvSynchroClosed gvrDeployments] @
      map (\<lambda>gvr. EvUpdateSyncCondition gvr ResourceSyncStatusStop ''SynchroRemoved''
                   ''the resource synchro is moved'') [gvrDeployments] @ post) \<and>
   (\<exists>pre post. trace (refreshSyncResources envCleanFails synchroWithDeployments) =
      trace synchroWithDeployments @ pre @
      EvCleanClusterResource ''c1'' gvrDeployments #
      map (\<lambda>gvr. EvUpdateSyncCondition gvr ResourceSyncStatusStop ''CleanResourceFailed'' ''db down'')
        [gvrDeployments] @ post)"
proof -
  have h1: "syncResources synchroDesiringCronJobs = Some desiredCronJobs"
    by (simp add: synchroDesiringCronJobs_def)
  have h2: "NegotiateSyncResources envCronJobsNoStorage desiredCronJobs
              = (cronJobsStatus, [(gvrCronJobsV1, syncConfigFor ''CronJob'' gvrCronJobsV1)])"
    by (simp add: envCronJobsNoStorage_def)
  have h2': "NegotiateSyncResources envCronJobs desiredCronJobs
              = (cronJobsStatus, [(gvrCronJobsV1, syncConfigFor ''CronJob'' gvrCronJobsV1)])"
    by (simp add: envCronJobs_def)
  have h3: "Merge cronJobsStatus (groupResourceStatus synchroDesiringCronJobs) = (cronJobsStatus, [])"
    by (simp add: Merge_def synchroDesiringCronJobs_def synchro0_def)
  have h4: "map_of [(gvrCronJobsV1, syncConfigFor ''CronJob'' gvrCronJobsV1)] gvrCronJobsV1
              = Some (syncConfigFor ''CronJob'' gvrCronJobsV1)"
    by simp
  have h5: "map_of (storageResourceSynchros synchroDesiringCronJobs) gvrCronJobsV1 = None"
    by (simp add: synchroDesiringCronJobs_def synchro0_def)
  have fl: "NewResourceStorage envCronJobsNoStorage (resourceStorageConfig (syncConfigFor ''CronJob'' gvrCronJobsV1))
             = Inl (errorString ''no table'')"
    by (simp add: envCronJobsNoStorage_def)
  have rc: "resourceStorageConfig (syncConfigFor ''CronJob'' gvrCronJobsV1) = ''cronjobs''"
    by (simp add: syncConfigFor_def gvrCronJobsV1_def)
  have m: "GetStorageGVRToSyncGVRs cronJobsStatus gvrCronJobsV1 = [gvrCronJobsV1beta1, gvrCronJobsV1]"
    by (simp add: GetStorageGVRToSyncGVRs_def cronJobsStatus_def condFor_def)
  note T1 = updateSyncConditions_fans_out[OF h1 h2 h3]
  from T1[THEN conjunct2, THEN conjunct2, THEN conjunct2, THEN conjunct1] h4 h5 fl
  have seg: "\<exists>pre post. trace (refreshSyncResources envCronJobsNoStorage synchroDesiringCronJobs) =
      trace synchroDesiringCronJobs @ pre @
      EvNewResourceStorage gvrCronJobsV1 (resourceStorageConfig (syncConfigFor ''CronJob'' gvrCronJobsV1)) #
      map (\<lambda>gvr. EvUpdateSyncCondition gvr ResourceSyncStatusPending ''SynchroCreateFailed''
                   (''new resource storage failed: '' @ formatError ''s'' (errorString ''no table'')))
        (GetStorageGVRToSyncGVRs cronJobsStatus gvrCronJobsV1) @ post"
    by blast
  have tr: "trace (refreshSyncResources envCronJobsNoStorage synchroDesiringCronJobs) =
     [EvRegisterResourceSynchroMetrics,
      EvNewResourceStorage gvrCronJobsV1 ''cronjobs'',
      EvUpdateSyncCondition gvrCronJobsV1beta1 ''Pending'' ''SynchroCreateFailed''
        ''new resource storage failed: no table'',
      EvUpdateSyncCondition gvrCronJobsV1 ''Pending'' ''SynchroCreateFailed''
        ''new resource storage failed: no table'']"
    by (simp add: refresh_cronJobs_no_storage)
  have st: "map_option (map (\<lambda>(k, c). (Version k, sc_Status c, sc_Reason c)))
     (groupResourceStatus (refreshSyncResources envCronJobsNoStorage synchroDesiringCronJobs)) =
     Some [(''v1beta1'', ''Pending'', ''SynchroCreateFailed''), (''v1'', ''Pending'', ''SynchroCreateFailed'')]"
    by (simp add: refresh_cronJobs_no_storage gvrCronJobsV1_def gvrCronJobsV1beta1_def)
  have rg: "storageResourceSynchros (refreshSyncResources envCronJobsNoStorage synchroDesiringCronJobs) = []"
    unfolding refresh_cronJobs_no_storage by (simp add: synchroDesiringCronJobs_def synchro0_def)
  have ok1: "NewResourceStorage envCronJobs (resourceStorageConfig (syncConfigFor ''CronJob'' gvrCronJobsV1))
             = Inr ''cronjobs''"
    by (simp add: envCronJobs_def env0_def syncConfigFor_def gvrCronJobsV1_def)
  have ev: "fst (ensureResourceVersions gvrCronJobsV1 synchroDesiringCronJobs) =
              \<lparr>Resources = Some [], Events = Some []\<rparr>"
    by (simp add: ensureResourceVersions_def synchroDesiringCronJobs_def synchro0_def Let_def)
  have ok2: "NewResourceSynchro envCronJobs (resourceSynchroFactory synchroDesiringCronJobs)
               (name synchroDesiringCronJobs)
               (synchroConfig envCronJobs synchroDesiringCronJobs (syncConfigFor ''CronJob'' gvrCronJobsV1)
                  (fst (ensureResourceVersions gvrCronJobsV1 synchroDesiringCronJobs)) ''cronjobs'')
             = Inr \<lparr>synchro_cluster = ''c1'',
                    synchro_Config =
                      synchroConfig envCronJobs synchroDesiringCronJobs (syncConfigFor ''CronJob'' gvrCronJobsV1)
                        (fst (ensureResourceVersions gvrCronJobsV1 synchroDesiringCronJobs)) ''cronjobs''\<rparr>"
    by (simp add: envCronJobs_def env0_def synchroDesiringCronJobs_def synchro0_def)
  note T2 = updateSyncConditions_fans_out[OF h1 h2' h3]
  from T2[THEN conjunct2, THEN conjunct2, THEN conjunct2, THEN conjunct2, THEN conjunct2, THEN conjunct1]
    h4 h5 ok1 ok2
  have seg2: "\<exists>pre post. trace (refreshSyncResources envCronJobs synchroDesiringCronJobs) =
      trace synchroDesiringCronJobs @ pre @
      [EvNewResourceStorage gvrCronJobsV1 (resourceStorageConfig (syncConfigFor ''CronJob'' gvrCronJobsV1)),
       EvNewResourceSynchro gvrCronJobsV1
         (synchroConfig envCronJobs synchroDesiringCronJobs (syncConfigFor ''CronJob'' gvrCronJobsV1)
            (fst (ensureResourceVersions gvrCronJobsV1 synchroDesiringCronJobs)) ''cronjobs''),
       EvSynchroRun gvrCronJobsV1] @
      map (\<lambda>gvr. EvUpdateSyncCondition gvr ResourceSyncStatusUnknown [] [])
        (GetStorageGVRToSyncGVRs cronJobsStatus gvrCronJobsV1) @ post"
    by blast
  have st2: "map_option (map (\<lambda>(k, c). (Version k, sc_Status c, sc_Reason c)))
     (groupResourceStatus (refreshSyncResources envCronJobs synchroDesiringCronJobs)) =
     Some [(''v1beta1'', ''Unknown'', []), (''v1'', ''Unknown'', [])]"
    by (simp add: refresh_cronJobs gvrCronJobsV1_def gvrCronJobsV1beta1_def)
  have k1: "syncResources synchroWithDeployments = Some desiredPods"
    by (simp add: synchroWithDeployments_def)
  have k2: "NegotiateSyncResources envCleanFails desiredPods
              = ([(gvrPods, condFor ''v1'' gvrPods)], [(gvrPods, syncConfigFor ''Pod'' gvrPods)])"
    by (simp add: env0_def envCleanFails_def)
  have k3: "Merge [(gvrPods, condFor ''v1'' gvrPods)] (groupResourceStatus synchroWithDeployments)
              = ([(gvrPods, condFor ''v1'' gvrPods), (gvrDeployments, condFor ''v1'' gvrDeployments)],
                 [gvrDeployments])"
    by (simp add: Merge_def synchroWithDeployments_def gvrPods_def gvrDeployments_def condFor_def)
  have rm: "removedStorageGVRs [(gvrPods, syncConfigFor ''Pod'' gvrPods)] synchroWithDeployments = [gvrDeployments]"
    by (simp add: removedStorageGVRs_def synchroWithDeployments_def gvrPods_def gvrDeployments_def)
  have cc: "CloseCompletes envCleanFails gvrDeployments"
    by (simp add: envCleanFails_def env0_def)
  have md: "GetStorageGVRToSyncGVRs
              [(gvrPods, condFor ''v1'' gvrPods), (gvrDeployments, condFor ''v1'' gvrDeployments)] gvrDeployments
            = [gvrDeployments]"
    by (simp add: GetStorageGVRToSyncGVRs_def condFor_def gvrPods_def gvrDeployments_def)
  note T3 = updateSyncConditions_fans_out[OF k1 k2 k3]
  have mem: "gvrDeployments \<in> set (takeWhile (CloseCompletes envCleanFails)
               (removedStorageGVRs [(gvrPods, syncConfigFor ''Pod'' gvrPods)] synchroWithDeployments))"
    using cc by (simp add: rm)
  from T3[THEN conjunct2, THEN conjunct2, THEN conjunct2, THEN conjunct2, THEN conjunct2, THEN conjunct2,
          THEN conjunct1] mem
  have seg3: "\<exists>pre post. trace (refreshSyncResources envCleanFails synchroWithDeployments) =
      trace synchroWithDeployments @ pre @ [EvSynchroClose gvrDeployments, EvSynchroClosed gvrDeployments] @
      map (\<lambda>gvr. EvUpdateSyncCondition gvr ResourceSyncStatusStop ''SynchroRemoved''
                   ''the resource synchro is moved'')
        (GetStorageGVRToSyncGVRs
           [(gvrPods, condFor ''v1'' gvrPods), (gvrDeployments, condFor ''v1'' gvrDeployments)]
           gvrDeployments) @ post"
    by blast
  have all: "list_all (CloseCompletes envCleanFails)
               (removedStorageGVRs [(gvrPods, syncConfigFor ''Pod'' gvrPods)] synchroWithDeployments)"
    using cc by (simp add: rm)
  have np: "panicked synchroWithDeployments = None"
    by (simp add: synchroWithDeployments_def synchro0_def)
  have safe: "\<forall>g err. map_of (storageResourceVersions synchroWithDeployments) g \<noteq> None \<and>
                map_of [(gvrPods, syncConfigFor ''Pod'' gvrPods)] g = None \<and>
                CleanClusterResource envCleanFails (name synchroWithDeployments) g = Some err \<longrightarrow>
                Error err \<noteq> None"
    by (auto simp: envCleanFails_def)
  have cf: "map_of (storageResourceVersions synchroWithDeployments) gvrDeployments \<noteq> None \<and>
            map_of [(gvrPods, syncConfigFor ''Pod'' gvrPods)] gvrDeployments = None \<and>
            CleanClusterResource envCleanFails (name synchroWithDeployments) gvrDeployments
              = Some (errorString ''db down'') \<and>
            Error (errorString ''db down'') = Some ''db down''"
    by (simp add: synchroWithDeployments_def envCleanFails_def gvrPods_def gvrDeployments_def)
  have nm: "name synchroWithDeployments = ''c1''"
    by (simp add: synchroWithDeployments_def synchro0_def)
  from T3[THEN conjunct2, THEN conjunct2, THEN conjunct2, THEN conjunct2, THEN conjunct2, THEN conjunct2,
          THEN conjunct2] all np safe cf
  have seg4: "\<exists>pre post. trace (refreshSyncResources envCleanFails synchroWithDeployments) =
      trace synchroWithDeployments @ pre @
      EvCleanClusterResource (name synchroWithDeployments) gvrDeployments #
      map (\<lambda>gvr. EvUpdateSyncCondition gvr ResourceSyncStatusStop ''CleanResourceFailed'' ''db down'')
        (GetStorageGVRToSyncGVRs
           [(gvrPods, condFor ''v1'' gvrPods), (gvrDeployments, condFor ''v1'' gvrDeployments)]
           gvrDeployments) @ post"
    by blast
  from m seg[unfolded rc] tr st rg seg2[unfolded rc ev] st2 seg3[unfolded md] seg4[unfolded md nm]
  show ?thesis by blast
qed

subsection \<open>Reconcilers outside the plan are closed\<close>

text \<open>
  Claim C3. In a refresh with non-nil sync resources, the storage GVRs whose reconcilers
  are closed are those of the registry that the new plan does not have. For each of them,
  as long as the waits before it have ended with the reconciler closed: \<open>Close\<close> is called
  and its completion awaited, then every sync condition mapped to the storage GVR is
  updated to Stop with reason SynchroRemoved, and the entry is gone from the registry
  after the refresh. When every wait ends with the reconciler closed, this covers all of
  them. Otherwise the refresh returns at the first wait that ends with the lifetime
  signal: the trace ends with the \<open>Close\<close> of that reconciler, which stays in the registry.
\<close>

theorem removed_synchros_are_closed:
  assumes "syncResources s = Some resources"
      and "NegotiateSyncResources env resources = (negotiated, plan)"
      and "Merge negotiated (groupResourceStatus s) = (status, deleted)"
  shows "set (removedStorageGVRs plan s) =
           {g. map_of (storageResourceSynchros s) g \<noteq> None \<and> map_of plan g = None} \<and>
         (\<forall>g \<in> set (takeWhile (CloseCompletes env) (removedStorageGVRs plan s)).
            map_of (storageResourceSynchros (refreshSyncResources env s)) g = None \<and>
            (\<exists>pre post. trace (refreshSyncResources env s) =
               trace s @ pre @ [EvSynchroClose g, EvSynchroClosed g] @
               map (\<lambda>gvr. EvUpdateSyncCondition gvr ResourceSyncStatusStop ''SynchroRemoved''
                            ''the resource synchro is moved'')
                 (GetStorageGVRToSyncGVRs status g) @ post)) \<and>
         (list_all (CloseCompletes env) (removedStorageGVRs plan s) \<longrightarrow>
            takeWhile (CloseCompletes env) (removedStorageGVRs plan s) = removedStorageGVRs plan s) \<and>
         (\<not> list_all (CloseCompletes env) (removedStorageGVRs plan s) \<longrightarrow>
            (\<exists>pre g'. g' \<in> set (removedStorageGVRs plan s) \<and> \<not> CloseCompletes env g' \<and>
               trace (refreshSyncResources env s) = trace s @ pre @ [EvSynchroClose g'] \<and>
               map_of (storageResourceSynchros (refreshSyncResources env s)) g' \<noteq> None))"
  using assms by (rule refresh_closes_removed)

text \<open>
  The deployments reconciler is closed and removed while the pods reconciler stays; with
  a shutdown during the wait, the refresh ends at the \<open>Close\<close> and the reconciler stays in
  the registry.
\<close>

theorem removed_synchros_are_closed_witness:
  "removedStorageGVRs [(gvrPods, syncConfigFor ''Pod'' gvrPods)] synchroWithDeployments = [gvrDeployments] \<and>
   map_of (storageResourceSynchros (refreshSyncResources env0 synchroWithDeployments)) gvrDeployments = None \<and>
   (\<exists>pre post. trace (refreshSyncResources env0 synchroWithDeployments) =
      trace synchroWithDeployments @ pre @ [EvSynchroClose gvrDeployments, EvSynchroClosed gvrDeployments] @
      map (\<lambda>gvr. EvUpdateSyncCondition gvr ResourceSyncStatusStop ''SynchroRemoved''
                   ''the resource synchro is moved'')
        (GetStorageGVRToSyncGVRs
           [(gvrPods, condFor ''v1'' gvrPods), (gvrDeployments, condFor ''v1'' gvrDeployments)]
           gvrDeployments) @ post) \<and>
   trace (refreshSyncResources env0 synchroWithDeployments) =
     [EvRegisterResourceSynchroMetrics,
      EvSynchroClose gvrDeployments, EvSynchroClosed gvrDeployments,
      EvUpdateSyncCondition gvrDeployments ''Stop'' ''SynchroRemoved'' ''the resource synchro is moved'',
      EvCleanClusterResource ''c1'' gvrDeployments,
      EvDeleteVersion gvrDeployments] \<and>
   storageResourceSynchros (refreshSyncResources env0 synchroWithDeployments) = [(gvrPods, podSynchro)] \<and>
   (\<exists>pre. trace (refreshSyncResources envShutdownDuringClose synchroWithDeployments) =
      trace synchroWithDeployments @ pre @ [EvSynchroClose gvrDeployments]) \<and>
   map_of (storageResourceSynchros (refreshSyncResources envShutdownDuringClose synchroWithDeployments))
     gvrDeployments = Some deploymentSynchro"
proof -
  have h1: "syncResources synchroWithDeployments = Some desiredPods"
    by (simp add: synchroWithDeployments_def)
  have h2: "NegotiateSyncResources env0 desiredPods
              = ([(gvrPods, condFor ''v1'' gvrPods)], [(gvrPods, syncConfigFor ''Pod'' gvrPods)])"
    by (simp add: env0_def)
  have h2': "NegotiateSyncResources envShutdownDuringClose desiredPods
              = ([(gvrPods, condFor ''v1'' gvrPods)], [(gvrPods, syncConfigFor ''Pod'' gvrPods)])"
    by (simp add: env0_def envShutdownDuringClose_def)
  have h3: "Merge [(gvrPods, condFor ''v1'' gvrPods)] (groupResourceStatus synchroWithDeployments)
              = ([(gvrPods, condFor ''v1'' gvrPods), (gvrDeployments, condFor ''v1'' gvrDeployments)],
                 [gvrDeployments])"
    by (simp add: Merge_def synchroWithDeployments_def gvrPods_def gvrDeployments_def condFor_def)
  have rm: "removedStorageGVRs [(gvrPods, syncConfigFor ''Pod'' gvrPods)] synchroWithDeployments = [gvrDeployments]"
    by (simp add: removedStorageGVRs_def synchroWithDeployments_def gvrPods_def gvrDeployments_def)
  have c: "CloseCompletes env0 gvrDeployments" "\<not> CloseCompletes envShutdownDuringClose gvrDeployments"
    by (simp_all add: env0_def envShutdownDuringClose_def)
  note T = removed_synchros_are_closed[OF h1 h2 h3]
  have mem: "gvrDeployments \<in> set (takeWhile (CloseCompletes env0)
               (removedStorageGVRs [(gvrPods, syncConfigFor ''Pod'' gvrPods)] synchroWithDeployments))"
    using c(1) by (simp add: rm)
  have a: "map_of (storageResourceSynchros (refreshSyncResources env0 synchroWithDeployments)) gvrDeployments = None"
    using T mem by blast
  have b: "\<exists>pre post. trace (refreshSyncResources env0 synchroWithDeployments) =
      trace synchroWithDeployments @ pre @ [EvSynchroClose gvrDeployments, EvSynchroClosed gvrDeployments] @
      map (\<lambda>gvr. EvUpdateSyncCondition gvr ResourceSyncStatusStop ''SynchroRemoved''
                   ''the resource synchro is moved'')
        (GetStorageGVRToSyncGVRs
           [(gvrPods, condFor ''v1'' gvrPods), (gvrDeployments, condFor ''v1'' gvrDeployments)]
           gvrDeployments) @ post"
    using T mem by blast
  have tr: "trace (refreshSyncResources env0 synchroWithDeployments) =
     [EvRegisterResourceSynchroMetrics,
      EvSynchroClose gvrDeployments, EvSynchroClosed gvrDeployments,
      EvUpdateSyncCondition gvrDeployments ''Stop'' ''SynchroRemoved'' ''the resource synchro is moved'',
      EvCleanClusterResource ''c1'' gvrDeployments,
      EvDeleteVersion gvrDeployments]"
    by (simp add: refresh_removal)
  have rg: "storageResourceSynchros (refreshSyncResources env0 synchroWithDeployments) = [(gvrPods, podSynchro)]"
    by (simp add: refresh_removal)
  note T' = removed_synchros_are_closed[OF h1 h2' h3]
  have na: "\<not> list_all (CloseCompletes envShutdownDuringClose)
               (removedStorageGVRs [(gvrPods, syncConfigFor ''Pod'' gvrPods)] synchroWithDeployments)"
    using c(2) by (simp add: rm)
  from T' na obtain pre g' where
    "g' \<in> set (removedStorageGVRs [(gvrPods, syncConfigFor ''Pod'' gvrPods)] synchroWithDeployments)"
    "trace (refreshSyncResources envShutdownDuringClose synchroWithDeployments) =
       trace synchroWithDeployments @ pre @ [EvSynchroClose g']"
    by blast
  then have ab: "\<exists>pre. trace (refreshSyncResources envShutdownDuringClose synchroWithDeployments) =
      trace synchroWithDeployments @ pre @ [EvSynchroClose gvrDeployments]"
    by (auto simp: rm)
  have kept: "map_of (storageResourceSynchros (refreshSyncResources envShutdownDuringClose synchroWithDeployments))
     gvrDeployments = Some deploymentSynchro"
    unfolding refresh_removal_aborted
    by (simp add: synchroWithDeployments_def gvrPods_def gvrDeployments_def)
  from rm a b tr rg ab kept show ?thesis by blast
qed

subsection \<open>Watermarks outside the plan are cleaned\<close>




end
